(* ===== verification/MigPrelude.thy ===== *)
theory MigPrelude
  imports Main "HOL-Library.Word"
begin

text \<open>
  Shared vocabulary of the development: the three ways a Rust function can end
  (a value, an error value, a panic), the result of polling a future, byte strings with
  the little-endian integer codecs the wire formats use, checked and panicking slice
  accesses, and the list lemmas the component theories rely on.  Lengths and offsets
  (Rust's 64-bit \<open>usize\<close>) are natural numbers; conversions to narrower integers are written
  out where the source makes them.
\<close>

named_theorems outcome_simps \<open>inversion rules of the outcome combinators\<close>
named_theorems codec_simps \<open>unfolding rules of the byte codecs\<close>
named_theorems wf_intros \<open>introduction rules of the well-formedness invariants\<close>

section \<open>Outcomes\<close>

datatype ('e, 'a) outcome = Ok 'a | Err 'e | Panic

primrec rbind :: "('e, 'a) outcome \<Rightarrow> ('a \<Rightarrow> ('e, 'b) outcome) \<Rightarrow> ('e, 'b) outcome" where
  "rbind (Ok x) f = f x"
| "rbind (Err e) f = Err e"
| "rbind Panic f = Panic"

primrec map_err :: "('e \<Rightarrow> 'f) \<Rightarrow> ('e, 'a) outcome \<Rightarrow> ('f, 'a) outcome" where
  "map_err f (Ok x) = Ok x"
| "map_err f (Err e) = Err (f e)"
| "map_err f Panic = Panic"

primrec ok_or :: "'e \<Rightarrow> 'a option \<Rightarrow> ('e, 'a) outcome" where
  "ok_or e None = Err e"
| "ok_or e (Some x) = Ok x"

primrec ok_of :: "('e, 'a) outcome \<Rightarrow> 'a option" where
  "ok_of (Ok x) = Some x"
| "ok_of (Err e) = None"
| "ok_of Panic = None"

definition ensure :: "bool \<Rightarrow> 'e \<Rightarrow> ('e, unit) outcome" where
  "ensure c e = (if c then Ok () else Err e)"

primrec is_ok :: "('e, 'a) outcome \<Rightarrow> bool" where
  "is_ok (Ok x) = True"
| "is_ok (Err e) = False"
| "is_ok Panic = False"

lemma rbind_eq_Ok [outcome_simps]:
  "rbind m f = Ok y \<longleftrightarrow> (\<exists>x. m = Ok x \<and> f x = Ok y)"
  by (cases m) auto

lemma rbind_eq_Err [outcome_simps]:
  "rbind m f = Err e \<longleftrightarrow> m = Err e \<or> (\<exists>x. m = Ok x \<and> f x = Err e)"
  by (cases m) auto

lemma rbind_eq_Panic [outcome_simps]:
  "rbind m f = Panic \<longleftrightarrow> m = Panic \<or> (\<exists>x. m = Ok x \<and> f x = Panic)"
  by (cases m) auto

lemma map_err_eq_Ok [outcome_simps]: "map_err f m = Ok y \<longleftrightarrow> m = Ok y"
  by (cases m) auto

lemma map_err_eq_Err [outcome_simps]: "map_err f m = Err e \<longleftrightarrow> (\<exists>d. m = Err d \<and> e = f d)"
  by (cases m) auto

lemma map_err_eq_Panic [outcome_simps]: "map_err f m = Panic \<longleftrightarrow> m = Panic"
  by (cases m) auto

lemma ok_or_eq_Ok [outcome_simps]: "ok_or e m = Ok y \<longleftrightarrow> m = Some y"
  by (cases m) auto

lemma ok_or_eq_Err [outcome_simps]: "ok_or e m = Err d \<longleftrightarrow> m = None \<and> d = e"
  by (cases m) auto

lemma ok_or_neq_Panic [simp]: "ok_or e m \<noteq> Panic"
  by (cases m) auto

lemma ok_of_eq_Some [outcome_simps]: "ok_of m = Some y \<longleftrightarrow> m = Ok y"
  by (cases m) auto

lemma ensure_eq_Ok [outcome_simps]: "ensure c e = Ok u \<longleftrightarrow> c"
  by (simp add: ensure_def)

lemma ensure_eq_Err [outcome_simps]: "ensure c e = Err d \<longleftrightarrow> \<not> c \<and> d = e"
  by (auto simp: ensure_def)

lemma ensure_neq_Panic [simp]: "ensure c e \<noteq> Panic"
  by (simp add: ensure_def)

lemma ensure_True [simp]: "ensure True e = Ok ()"
  by (simp add: ensure_def)

lemma ensure_False [simp]: "ensure False e = Err e"
  by (simp add: ensure_def)

lemma is_ok_iff: "is_ok m \<longleftrightarrow> (\<exists>x. m = Ok x)"
  by (cases m) auto

datatype 'a poll = Pending | Ready 'a

section \<open>Programs\<close>

text \<open>
  A computation with effects: it may change a state, and it may not return at all (a loop that
  never ends, an awaited event that never comes), which is the value \<open>None\<close>.  The state is
  returned on every path, so that an early return keeps the effects made before it.
\<close>

type_synonym ('s, 'e, 'a) prog = "'s \<Rightarrow> (('e, 'a) outcome \<times> 's) option"

definition pbind :: "('s, 'e, 'a) prog \<Rightarrow> ('a \<Rightarrow> ('s, 'e, 'b) prog) \<Rightarrow> ('s, 'e, 'b) prog" where
  "pbind m f s = (case m s of
     None \<Rightarrow> None
   | Some (Ok x, s') \<Rightarrow> f x s'
   | Some (Err e, s') \<Rightarrow> Some (Err e, s')
   | Some (Panic, s') \<Rightarrow> Some (Panic, s'))"

definition plift :: "('e, 'a) outcome \<Rightarrow> ('s, 'e, 'a) prog" where
  "plift m s = Some (m, s)"

definition pmap_err :: "('e \<Rightarrow> 'f) \<Rightarrow> ('s, 'e, 'a) prog \<Rightarrow> ('s, 'f, 'a) prog" where
  "pmap_err f m s = map_option (\<lambda>(r, s'). (map_err f r, s')) (m s)"

lemma plift_apply [simp]: "plift m s = Some (m, s)"
  by (simp add: plift_def)

lemma pbind_Ok: "m s = Some (Ok x, s') \<Longrightarrow> pbind m f s = f x s'"
  by (simp add: pbind_def)

lemma pbind_Err: "m s = Some (Err e, s') \<Longrightarrow> pbind m f s = Some (Err e, s')"
  by (simp add: pbind_def)

lemma pbind_eq_Ok [outcome_simps]:
  "pbind m f s = Some (Ok y, t) \<longleftrightarrow> (\<exists>x s'. m s = Some (Ok x, s') \<and> f x s' = Some (Ok y, t))"
  by (auto simp: pbind_def split: option.splits prod.splits outcome.splits)

lemma pbind_eq_Err [outcome_simps]:
  "pbind m f s = Some (Err e, t) \<longleftrightarrow>
     m s = Some (Err e, t) \<or> (\<exists>x s'. m s = Some (Ok x, s') \<and> f x s' = Some (Err e, t))"
  by (auto simp: pbind_def split: option.splits prod.splits outcome.splits)

lemma pbind_eq_Panic [outcome_simps]:
  "pbind m f s = Some (Panic, t) \<longleftrightarrow>
     m s = Some (Panic, t) \<or> (\<exists>x s'. m s = Some (Ok x, s') \<and> f x s' = Some (Panic, t))"
  by (auto simp: pbind_def split: option.splits prod.splits outcome.splits)

lemma pmap_err_eq_Ok [outcome_simps]: "pmap_err f m s = Some (Ok y, t) \<longleftrightarrow> m s = Some (Ok y, t)"
  by (auto simp: pmap_err_def map_err_eq_Ok)

section \<open>Bytes\<close>

type_synonym byte = "8 word"
type_synonym bytes = "8 word list"

text \<open>\<open>slice i j xs\<close> is \<open>xs[i..j]\<close> of the source, for \<open>i \<le> j \<le> length xs\<close>.\<close>

definition slice :: "nat \<Rightarrow> nat \<Rightarrow> 'a list \<Rightarrow> 'a list" where
  "slice i j xs = take (j - i) (drop i xs)"

text \<open>\<open>xs.get(i..j)\<close>: absent when out of range.\<close>

definition get_range :: "nat \<Rightarrow> nat \<Rightarrow> 'a list \<Rightarrow> 'a list option" where
  "get_range i j xs = (if i \<le> j \<and> j \<le> length xs then Some (slice i j xs) else None)"

text \<open>\<open>&xs[i..j]\<close> and \<open>xs[i]\<close>: a panic when out of range.\<close>

definition index_range :: "nat \<Rightarrow> nat \<Rightarrow> 'a list \<Rightarrow> ('e, 'a list) outcome" where
  "index_range i j xs = (if i \<le> j \<and> j \<le> length xs then Ok (slice i j xs) else Panic)"

definition index_at :: "nat \<Rightarrow> 'a list \<Rightarrow> ('e, 'a) outcome" where
  "index_at i xs = (if i < length xs then Ok (xs ! i) else Panic)"

text \<open>\<open>dst[i..i + src.len()].copy_from_slice(src)\<close> on a destination that is long enough.\<close>

definition overwrite :: "nat \<Rightarrow> 'a list \<Rightarrow> 'a list \<Rightarrow> 'a list" where
  "overwrite i src dst = take i dst @ src @ drop (i + length src) dst"

text \<open>\<open>usize::checked_add\<close>.\<close>

definition checked_add_usize :: "nat \<Rightarrow> nat \<Rightarrow> nat option" where
  "checked_add_usize a b = (if a + b < 2 ^ 64 then Some (a + b) else None)"

lemma length_slice [simp]: "length (slice i j xs) = min (j - i) (length xs - i)"
  by (simp add: slice_def)

lemma slice_all [simp]: "slice 0 (length xs) xs = xs"
  by (simp add: slice_def)

lemma slice_empty [simp]: "slice i i xs = []"
  by (simp add: slice_def)

lemma slice_append1: "j \<le> length xs \<Longrightarrow> slice i j (xs @ ys) = slice i j xs"
  by (simp add: slice_def)

lemma slice_append2:
  "length xs \<le> i \<Longrightarrow> slice i j (xs @ ys) = slice (i - length xs) (j - length xs) ys"
  by (simp add: slice_def)

lemma slice_prefix: "slice 0 (length xs) (xs @ ys) = xs"
  by (simp add: slice_def)

lemma slice_take: "j \<le> n \<Longrightarrow> slice i j (take n xs) = slice i j xs"
  by (simp add: slice_def drop_take)

lemma slice_join: "i \<le> j \<Longrightarrow> j \<le> k \<Longrightarrow> slice i j xs @ slice j k xs = slice i k xs"
proof -
  assume "i \<le> j" "j \<le> k"
  then have "take (k - i) (drop i xs) =
      take (j - i) (drop i xs) @ take (k - j) (drop (j - i) (drop i xs))"
    by (metis diff_add_assoc2 le_add_diff_inverse2 take_add ordered_cancel_comm_monoid_diff_class.add_diff_inverse add.commute)
  with \<open>i \<le> j\<close> show ?thesis by (simp add: slice_def)
qed

lemma index_range_eq_Ok [outcome_simps]:
  "index_range i j xs = Ok ys \<longleftrightarrow> i \<le> j \<and> j \<le> length xs \<and> ys = slice i j xs"
  by (auto simp: index_range_def)

lemma index_range_neq_Err [simp]: "index_range i j xs \<noteq> Err e"
  by (simp add: index_range_def)

lemma index_range_eq_Panic [outcome_simps]:
  "index_range i j xs = Panic \<longleftrightarrow> \<not> (i \<le> j \<and> j \<le> length xs)"
  by (simp add: index_range_def)

lemma index_at_eq_Ok [outcome_simps]: "index_at i xs = Ok x \<longleftrightarrow> i < length xs \<and> x = xs ! i"
  by (auto simp: index_at_def)

lemma index_at_neq_Err [simp]: "index_at i xs \<noteq> Err e"
  by (simp add: index_at_def)

lemma index_at_eq_Panic [outcome_simps]: "index_at i xs = Panic \<longleftrightarrow> \<not> i < length xs"
  by (simp add: index_at_def)

lemma index_at_first: "index_at 0 xs = Ok x \<longleftrightarrow> xs \<noteq> [] \<and> x = hd xs"
  by (auto simp: index_at_def hd_conv_nth)

lemma if_Ok_iff: "(if b then Panic else if c then Err e else m) = Ok y \<longleftrightarrow> \<not> b \<and> \<not> c \<and> m = Ok y"
  "(if c then Err e else m) = Ok y \<longleftrightarrow> \<not> c \<and> m = Ok y"
  by simp_all

lemma get_range_eq_Some [outcome_simps]:
  "get_range i j xs = Some ys \<longleftrightarrow> i \<le> j \<and> j \<le> length xs \<and> ys = slice i j xs"
  by (auto simp: get_range_def)

lemma length_overwrite [simp]:
  "i + length src \<le> length dst \<Longrightarrow> length (overwrite i src dst) = length dst"
  by (simp add: overwrite_def)

lemma slice_overwrite_same:
  "i + length src \<le> length dst \<Longrightarrow> slice i (i + length src) (overwrite i src dst) = src"
  by (simp add: overwrite_def slice_def)

lemma slice_overwrite_before:
  assumes "j \<le> i" and "i \<le> length dst"
  shows "slice k j (overwrite i src dst) = slice k j dst"
proof -
  have "slice k j (overwrite i src dst) = slice k j (take i dst)"
    unfolding overwrite_def by (rule slice_append1) (use assms in simp)
  also have "\<dots> = slice k j dst" using assms(1) by (rule slice_take)
  finally show ?thesis .
qed

lemma slice_overwrite_after:
  "i + length src \<le> k \<Longrightarrow> i + length src \<le> length dst \<Longrightarrow>
     slice k j (overwrite i src dst) = slice k j dst"
  by (simp add: overwrite_def slice_def)

section \<open>Little-endian integers\<close>

primrec le_encode :: "nat \<Rightarrow> nat \<Rightarrow> bytes" where
  "le_encode 0 v = []"
| "le_encode (Suc n) v = word_of_nat v # le_encode n (v div 256)"

primrec le_decode :: "bytes \<Rightarrow> nat" where
  "le_decode [] = 0"
| "le_decode (b # bs) = unat b + 256 * le_decode bs"

lemma length_le_encode [simp]: "length (le_encode n v) = n"
  by (induction n arbitrary: v) auto

lemma unat_byte_of_nat: "unat (word_of_nat v :: byte) = v mod 256"
  by (simp add: unsigned_of_nat take_bit_eq_mod)

lemma le_decode_encode: "le_decode (le_encode n v) = v mod 256 ^ n"
proof (induction n arbitrary: v)
  case (Suc n)
  then show ?case
    by (simp add: unat_byte_of_nat mod_mult2_eq)
qed simp

lemma le_decode_less: "le_decode bs < 256 ^ length bs"
proof (induction bs)
  case (Cons b bs)
  have "unat b < 256" using unsigned_less [of b, where 'a=nat] by simp
  with Cons show ?case by simp
qed simp

lemma le_encode_decode: "le_encode (length bs) (le_decode bs) = bs"
proof (induction bs)
  case (Cons b bs)
  have lt: "unat b < 256" using unsigned_less [of b, where 'a=nat] by simp
  have "(word_of_nat (unat b + 256 * le_decode bs) :: byte) = b"
    using lt by (simp only: word_unat_eq_iff unat_byte_of_nat) simp
  with Cons lt show ?case by simp
qed simp

text \<open>\<open>uN::to_le_bytes\<close> and \<open>uN::from_le_bytes\<close>.\<close>

definition u16_le :: "16 word \<Rightarrow> bytes" where "u16_le w = le_encode 2 (unat w)"
definition u32_le :: "32 word \<Rightarrow> bytes" where "u32_le w = le_encode 4 (unat w)"
definition u64_le :: "64 word \<Rightarrow> bytes" where "u64_le w = le_encode 8 (unat w)"
definition u16_of :: "bytes \<Rightarrow> 16 word" where "u16_of bs = word_of_nat (le_decode bs)"
definition u32_of :: "bytes \<Rightarrow> 32 word" where "u32_of bs = word_of_nat (le_decode bs)"
definition u64_of :: "bytes \<Rightarrow> 64 word" where "u64_of bs = word_of_nat (le_decode bs)"

lemmas le_codec_defs = u16_le_def u32_le_def u64_le_def u16_of_def u32_of_def u64_of_def

lemma length_u16_le [simp]: "length (u16_le w) = 2" by (simp add: u16_le_def)
lemma length_u32_le [simp]: "length (u32_le w) = 4" by (simp add: u32_le_def)
lemma length_u64_le [simp]: "length (u64_le w) = 8" by (simp add: u64_le_def)

lemma u16_roundtrip [simp]: "u16_of (u16_le w) = w"
  using unsigned_less [of w, where 'a=nat] by (simp add: le_codec_defs le_decode_encode)

lemma u32_roundtrip [simp]: "u32_of (u32_le w) = w"
  using unsigned_less [of w, where 'a=nat] by (simp add: le_codec_defs le_decode_encode)

lemma u64_roundtrip [simp]: "u64_of (u64_le w) = w"
  using unsigned_less [of w, where 'a=nat] by (simp add: le_codec_defs le_decode_encode)

lemma u16_le_u16_of: "length bs = 2 \<Longrightarrow> u16_le (u16_of bs) = bs"
  using le_decode_less [of bs] le_encode_decode [of bs]
  by (simp add: le_codec_defs unsigned_of_nat take_bit_eq_mod)

lemma u32_le_u32_of: "length bs = 4 \<Longrightarrow> u32_le (u32_of bs) = bs"
  using le_decode_less [of bs] le_encode_decode [of bs]
  by (simp add: le_codec_defs unsigned_of_nat take_bit_eq_mod)

lemma u64_le_u64_of: "length bs = 8 \<Longrightarrow> u64_le (u64_of bs) = bs"
  using le_decode_less [of bs] le_encode_decode [of bs]
  by (simp add: le_codec_defs unsigned_of_nat take_bit_eq_mod)

lemma unat_u32_of: "length bs = 4 \<Longrightarrow> unat (u32_of bs) = le_decode bs"
  using le_decode_less [of bs] by (simp add: le_codec_defs unsigned_of_nat take_bit_eq_mod)

lemma unat_u16_of: "length bs = 2 \<Longrightarrow> unat (u16_of bs) = le_decode bs"
  using le_decode_less [of bs] by (simp add: le_codec_defs unsigned_of_nat take_bit_eq_mod)

lemma unat_u64_of: "length bs = 8 \<Longrightarrow> unat (u64_of bs) = le_decode bs"
  using le_decode_less [of bs] by (simp add: le_codec_defs unsigned_of_nat take_bit_eq_mod)

lemma nth_le_encode_0: "0 < n \<Longrightarrow> le_encode n v ! 0 = word_of_nat v"
  by (cases n) auto

lemma le_encode_0: "le_encode n 0 = replicate n 0"
  by (induction n) auto

lemma u64_of_eq_0: "length bs = 8 \<Longrightarrow> u64_of bs = 0 \<longleftrightarrow> bs = replicate 8 0"
  using u64_le_u64_of [of bs] u64_roundtrip [of 0] by (auto simp: u64_le_def le_encode_0)

section \<open>Fixed-layout structures\<close>

text \<open>
  The interface of a \<open>repr(C)\<close> structure that the program reinterprets as bytes (through
  \<open>scroll\<close>, \<open>zerocopy\<close>, \<open>from_raw_parts\<close> or hand-written field accesses): its size, the bytes of a
  value, and the value of that many bytes.  \<open>valid\<close> is the type invariant of the record (the
  lengths of its fixed-size arrays).
\<close>

locale wire_struct =
  fixes size_of :: nat
    and enc :: "'a \<Rightarrow> bytes"
    and dec :: "bytes \<Rightarrow> 'a"
    and valid :: "'a \<Rightarrow> bool"
  assumes length_enc: "valid x \<Longrightarrow> length (enc x) = size_of"
    and dec_enc: "valid x \<Longrightarrow> dec (enc x) = x"
    and valid_dec: "length bs = size_of \<Longrightarrow> valid (dec bs)"
    and enc_dec: "length bs = size_of \<Longrightarrow> enc (dec bs) = bs"
begin

lemma enc_inj: "valid x \<Longrightarrow> valid y \<Longrightarrow> enc x = enc y \<Longrightarrow> x = y"
  by (metis dec_enc)

lemma dec_prefix: "valid x \<Longrightarrow> dec (take size_of (enc x @ rest)) = x"
  by (simp add: length_enc dec_enc)

lemma dec_eq_iff: "length bs = size_of \<Longrightarrow> valid x \<Longrightarrow> dec bs = x \<longleftrightarrow> bs = enc x"
  using dec_enc enc_dec by metis

end

text \<open>\<open>buf.pread(0)\<close>: the structure at the front of a buffer that is long enough.\<close>

definition pread :: "nat \<Rightarrow> (bytes \<Rightarrow> 'a) \<Rightarrow> bytes \<Rightarrow> 'a option" where
  "pread n dec bs = (if n \<le> length bs then Some (dec (take n bs)) else None)"

context wire_struct
begin

lemma pread_enc: "valid x \<Longrightarrow> pread size_of dec (enc x @ rest) = Some x"
  by (simp add: pread_def length_enc dec_enc)

lemma pread_eq_Some:
  "pread size_of dec bs = Some x \<longleftrightarrow> valid x \<and> (\<exists>rest. bs = enc x @ rest)"
proof
  assume "pread size_of dec bs = Some x"
  then have le: "size_of \<le> length bs" and x: "x = dec (take size_of bs)"
    by (auto simp: pread_def split: if_splits)
  then have "valid x" and "enc x = take size_of bs"
    by (auto intro: valid_dec enc_dec)
  then have "bs = enc x @ drop size_of bs" by simp
  with \<open>valid x\<close> show "valid x \<and> (\<exists>rest. bs = enc x @ rest)" by blast
qed (auto intro: pread_enc)

end

lemma nth_Cons_slice:
  assumes "i < length xs" and "j = Suc i" and "j \<le> k"
  shows "xs ! i # slice j k xs = slice i k xs"
proof -
  have "k = Suc i + (k - Suc i)" using assms(2,3) by simp
  then obtain d where "k = Suc (i + d)" by (metis add_Suc)
  with assms(1,2) show ?thesis by (simp add: slice_def Cons_nth_drop_Suc [symmetric])
qed

lemma slice_one: "i < length xs \<Longrightarrow> j = Suc i \<Longrightarrow> slice i j xs = [xs ! i]"
  by (simp add: slice_def take_Suc hd_drop_conv_nth)

lemma slice_full: "length xs = n \<Longrightarrow> slice 0 n xs = xs"
  by auto

lemma slice_to_end: "length xs = n \<Longrightarrow> slice i n xs = drop i xs"
  by (simp add: slice_def)

text \<open>An array of 64-bit integers laid out contiguously.\<close>

definition u64s_le :: "64 word list \<Rightarrow> bytes" where
  "u64s_le ws = concat (map u64_le ws)"

primrec u64s_of :: "nat \<Rightarrow> bytes \<Rightarrow> 64 word list" where
  "u64s_of 0 bs = []"
| "u64s_of (Suc n) bs = u64_of (take 8 bs) # u64s_of n (drop 8 bs)"

lemma length_u64s_le [simp]: "length (u64s_le ws) = 8 * length ws"
  by (induction ws) (auto simp: u64s_le_def)

lemma length_u64s_of [simp]: "length (u64s_of n bs) = n"
  by (induction n arbitrary: bs) auto

lemma u64s_of_le [simp]: "length ws = n \<Longrightarrow> u64s_of n (u64s_le ws) = ws"
  by (induction ws arbitrary: n) (auto simp: u64s_le_def)

lemma u64s_le_of: "length bs = 8 * n \<Longrightarrow> u64s_le (u64s_of n bs) = bs"
proof (induction n arbitrary: bs)
  case (Suc n)
  then have "u64s_le (u64s_of n (drop 8 bs)) = drop 8 bs" by simp
  with Suc.prems show ?case by (simp add: u64s_le_def u64_le_u64_of)
qed (simp add: u64s_le_def)

lemmas layout_simps = slice_join nth_Cons_slice slice_full u64_le_u64_of u32_le_u32_of
  u16_le_u16_of u64s_le_of

end
