(* ===== verification/MigTypes.thy ===== *)
theory MigTypes
  imports MigPrelude
begin

text \<open>
  The data of \<open>src/migtd/src/migration/mod.rs\<close>: the status codes MigTD reports to the VMM, the
  conversions from the errors of the lower layers to those codes, and the structures of the
  requests with their validating readers.  The cargo features that change a layout or a
  reader are the fields of a \<open>config\<close> record.
\<close>

section \<open>Configuration\<close>

record config =
  vmcall_raw :: bool
  policy_v2 :: bool
  az_cvm_emu :: bool
  vsock_transport :: bool

section \<open>Status codes\<close>

datatype migration_result =
    Success
  | InvalidParameter
  | Unsupported
  | OutOfResource
  | TdxModuleError
  | NetworkError
  | SecureSessionError
  | MutualAttestationError
  | PolicyUnsatisfiedError
  | InvalidPolicyError
  | VmmCanceled
  | VmmInternalError
  | UnsupportedOperationError
  | InitializationError

fun result_code :: "migration_result \<Rightarrow> byte" where
  "result_code Success = 0"
| "result_code InvalidParameter = 1"
| "result_code Unsupported = 2"
| "result_code OutOfResource = 3"
| "result_code TdxModuleError = 4"
| "result_code NetworkError = 5"
| "result_code SecureSessionError = 6"
| "result_code MutualAttestationError = 7"
| "result_code PolicyUnsatisfiedError = 8"
| "result_code InvalidPolicyError = 9"
| "result_code VmmCanceled = 10"
| "result_code VmmInternalError = 11"
| "result_code UnsupportedOperationError = 12"
| "result_code InitializationError = 0xFF"

definition try_from_u8 :: "byte \<Rightarrow> (unit, migration_result) outcome" where
  "try_from_u8 v =
     (if v = 0 then Ok Success
      else if v = 1 then Ok InvalidParameter
      else if v = 2 then Ok Unsupported
      else if v = 3 then Ok OutOfResource
      else if v = 4 then Ok TdxModuleError
      else if v = 5 then Ok NetworkError
      else if v = 6 then Ok SecureSessionError
      else if v = 7 then Ok MutualAttestationError
      else if v = 8 then Ok PolicyUnsatisfiedError
      else if v = 9 then Ok InvalidPolicyError
      else if v = 10 then Ok VmmCanceled
      else if v = 11 then Ok VmmInternalError
      else if v = 12 then Ok UnsupportedOperationError
      else if v = 0xFF then Ok InitializationError
      else Err ())"

section \<open>Conversions of lower-layer errors\<close>

text \<open>Payloads of a constructor the conversions do not look at are left out.\<close>

datatype crypto_error =
    CalculateDigest | GetRandom | GenerateKeyPair | GenerateCertificate | ParseCertificate
  | EcdsaSign | EcdsaVerify | SetupTlsContext | InvalidDnsName | TlsStream | TlsGetPeerCert
  | TlsVerifyPeerCert string | TlsConnection | DecodePemCert | CertChainVerification string
  | SignatureVerification | UnsupportedAlgorithm | CrlNumberNotFound
  | PeerCertChainValidation string | Unexpected

datatype ratls_error =
    GetQuote | VerifyQuote | TdxModule | Crypto crypto_error | X509 | InvalidEventlog
  | RatlsInvalidPolicy | RatlsGenerateCertificate

datatype error_kind =
    NotFound | PermissionDenied | ConnectionRefused | ConnectionReset | ConnectionAborted
  | NotConnected | AddrInUse | AddrNotAvailable | BrokenPipe | AlreadyExists | WouldBlock
  | InvalidInput | InvalidData | TimedOut | WriteZero | Interrupted | Other | UnexpectedEof

record io_error =
  ioe_kind :: error_kind
  ioe_desc :: string

definition MIG_POLICY_UNSATISFIED_ERROR :: string where
  "MIG_POLICY_UNSATISFIED_ERROR = ''PolicyUnsatisfiedError''"
definition INVALID_MIG_POLICY_ERROR :: string where
  "INVALID_MIG_POLICY_ERROR = ''InvalidPolicyError''"
definition MUTUAL_ATTESTATION_ERROR :: string where
  "MUTUAL_ATTESTATION_ERROR = ''MutualAttestationError''"

text \<open>\<open>str::contains\<close>.\<close>

definition str_contains :: "string \<Rightarrow> string \<Rightarrow> bool" where
  "str_contains s sub = list_ex (\<lambda>i. take (length sub) (drop i s) = sub) [0..<Suc (length s)]"

fun result_of_ratls_error :: "ratls_error \<Rightarrow> migration_result" where
  "result_of_ratls_error (Crypto e) = SecureSessionError"
| "result_of_ratls_error X509 = SecureSessionError"
| "result_of_ratls_error InvalidEventlog = SecureSessionError"
| "result_of_ratls_error RatlsGenerateCertificate = SecureSessionError"
| "result_of_ratls_error RatlsInvalidPolicy = InvalidPolicyError"
| "result_of_ratls_error TdxModule = TdxModuleError"
| "result_of_ratls_error GetQuote = MutualAttestationError"
| "result_of_ratls_error VerifyQuote = MutualAttestationError"

definition result_of_crypto_error :: "crypto_error \<Rightarrow> migration_result" where
  "result_of_crypto_error e = (case e of
     TlsVerifyPeerCert desc \<Rightarrow>
       (if desc = MIG_POLICY_UNSATISFIED_ERROR then PolicyUnsatisfiedError
        else if desc = INVALID_MIG_POLICY_ERROR then InvalidPolicyError
        else if desc = MUTUAL_ATTESTATION_ERROR then MutualAttestationError
        else SecureSessionError)
   | _ \<Rightarrow> SecureSessionError)"

definition result_of_io_error :: "io_error \<Rightarrow> migration_result" where
  "result_of_io_error e = (case ioe_kind e of
     ConnectionAborted \<Rightarrow> VmmCanceled
   | InvalidData \<Rightarrow>
       (let desc = ioe_desc e in
        if str_contains desc MIG_POLICY_UNSATISFIED_ERROR then PolicyUnsatisfiedError
        else if str_contains desc INVALID_MIG_POLICY_ERROR then InvalidPolicyError
        else if str_contains desc MUTUAL_ATTESTATION_ERROR then MutualAttestationError
        else SecureSessionError)
   | _ \<Rightarrow> NetworkError)"

section \<open>Request structures\<close>

text \<open>
  \<open>MigtdMigrationInformation\<close>.  The two identifiers of the non-raw transports and the trailing
  TDINFO structure exist only in some configurations; where a configuration has no such
  field the record holds 0 or the empty list.
\<close>

definition TD_INFO_SIZE :: nat where "TD_INFO_SIZE = 512"
definition TD_INFO_MROWNER_OFFSET :: nat where "TD_INFO_MROWNER_OFFSET = 8 + 8 + 48 + 48"
definition TD_INFO_MROWNERCONFIG_OFFSET :: nat where
  "TD_INFO_MROWNERCONFIG_OFFSET = TD_INFO_MROWNER_OFFSET + 48"
definition TD_INFO_OWNER_FIELD_SIZE :: nat where "TD_INFO_OWNER_FIELD_SIZE = 48"

definition td_info_mrowner :: "bytes \<Rightarrow> bytes" where
  "td_info_mrowner td_info =
     slice TD_INFO_MROWNER_OFFSET (TD_INFO_MROWNER_OFFSET + TD_INFO_OWNER_FIELD_SIZE) td_info"

definition td_info_mrownerconfig :: "bytes \<Rightarrow> bytes" where
  "td_info_mrownerconfig td_info =
     slice TD_INFO_MROWNERCONFIG_OFFSET
       (TD_INFO_MROWNERCONFIG_OFFSET + TD_INFO_OWNER_FIELD_SIZE) td_info"

record migtd_info =
  mig_request_id :: "64 word"
  migration_source :: byte
  has_init_data :: byte
  info_reserved :: bytes
  target_td_uuid :: "64 word list"
  binding_handle :: "64 word"
  mig_policy_id :: "64 word"
  communication_id :: "64 word"
  init_td_info :: bytes

definition migtd_info_header_size :: "config \<Rightarrow> nat" where
  "migtd_info_header_size c = (if vmcall_raw c then 56 else 72)"

definition migtd_info_size :: "config \<Rightarrow> nat" where
  "migtd_info_size c = migtd_info_header_size c + (if policy_v2 c then TD_INFO_SIZE else 0)"

definition enc_migtd_info :: "config \<Rightarrow> migtd_info \<Rightarrow> bytes" where
  "enc_migtd_info c i =
     u64_le (mig_request_id i) @ [migration_source i, has_init_data i] @ info_reserved i
     @ u64s_le (target_td_uuid i) @ u64_le (binding_handle i)
     @ (if vmcall_raw c then [] else u64_le (mig_policy_id i) @ u64_le (communication_id i))
     @ init_td_info i"

definition dec_migtd_info :: "config \<Rightarrow> bytes \<Rightarrow> migtd_info" where
  "dec_migtd_info c bs =
     \<lparr> mig_request_id = u64_of (slice 0 8 bs),
       migration_source = bs ! 8,
       has_init_data = bs ! 9,
       info_reserved = slice 10 16 bs,
       target_td_uuid = u64s_of 4 (slice 16 48 bs),
       binding_handle = u64_of (slice 48 56 bs),
       mig_policy_id = (if vmcall_raw c then 0 else u64_of (slice 56 64 bs)),
       communication_id = (if vmcall_raw c then 0 else u64_of (slice 64 72 bs)),
       init_td_info = (if policy_v2 c
         then slice (migtd_info_header_size c) (migtd_info_header_size c + TD_INFO_SIZE) bs
         else []) \<rparr>"

text \<open>The type invariant: array lengths, and absent fields at their default.\<close>

definition migtd_info_typed :: "config \<Rightarrow> migtd_info \<Rightarrow> bool" where
  "migtd_info_typed c i \<longleftrightarrow>
     length (info_reserved i) = 6 \<and> length (target_td_uuid i) = 4
     \<and> (vmcall_raw c \<longrightarrow> mig_policy_id i = 0 \<and> communication_id i = 0)
     \<and> length (init_td_info i) = (if policy_v2 c then TD_INFO_SIZE else 0)"

definition migtd_info_default :: "config \<Rightarrow> migtd_info" where
  "migtd_info_default c =
     \<lparr> mig_request_id = 0, migration_source = 0, has_init_data = 0,
       info_reserved = replicate 6 0, target_td_uuid = replicate 4 0, binding_handle = 0,
       mig_policy_id = 0, communication_id = 0,
       init_td_info = (if policy_v2 c then replicate TD_INFO_SIZE 0 else []) \<rparr>"

definition init_td_info_if_present :: "migtd_info \<Rightarrow> bytes option" where
  "init_td_info_if_present i = (if has_init_data i = 1 then Some (init_td_info i) else None)"

text \<open>
  \<open>MigtdMigrationInformation::read_from_bytes\<close>, in its two configurations.  \<open>data_length\<close> is the
  length the VMM announced; \<open>payload.len() as u32\<close> truncates to 32 bits.
\<close>

definition migtd_info_read_v2 ::
    "config \<Rightarrow> 32 word \<Rightarrow> bytes \<Rightarrow> (migration_result, migtd_info) outcome" where
  "migtd_info_read_v2 c data_length payload =
     (let short_size = word_of_nat (migtd_info_header_size c) :: 32 word;
          full_size = word_of_nat (migtd_info_size c) :: 32 word in
      if data_length \<noteq> short_size \<and> data_length \<noteq> full_size then Err InvalidParameter
      else if (word_of_nat (length payload) :: 32 word) < data_length then Err InvalidParameter
      else
        rbind
          (if data_length = full_size
           then ok_or InvalidParameter (pread (migtd_info_size c) (dec_migtd_info c) payload)
           else rbind (index_range 0 (unat short_size) payload)
             (\<lambda>header. ok_or InvalidParameter
                (pread (migtd_info_size c) (dec_migtd_info c)
                   (overwrite 0 header (replicate (unat full_size) 0)))))
          (\<lambda>parsed.
            if info_reserved parsed \<noteq> replicate 6 0 then Err InvalidParameter
            else if has_init_data parsed > 1 then Err InvalidParameter
            else if (has_init_data parsed = 1) \<noteq> (data_length = full_size)
              then Err InvalidParameter
            else Ok parsed))"

definition migtd_info_read_v1 ::
    "config \<Rightarrow> 32 word \<Rightarrow> bytes \<Rightarrow> (migration_result, migtd_info) outcome" where
  "migtd_info_read_v1 c data_length payload =
     (if data_length \<noteq> word_of_nat (migtd_info_size c) then Err InvalidParameter
      else rbind (ok_or InvalidParameter (pread (migtd_info_size c) (dec_migtd_info c) payload))
        (\<lambda>parsed.
          if info_reserved parsed \<noteq> replicate 6 0 then Err InvalidParameter
          else if has_init_data parsed \<noteq> 0 then Err InvalidParameter
          else Ok parsed))"

definition migtd_info_read_from_bytes ::
    "config \<Rightarrow> 32 word \<Rightarrow> bytes \<Rightarrow> (migration_result, migtd_info) outcome" where
  "migtd_info_read_from_bytes c =
     (if policy_v2 c then migtd_info_read_v2 c else migtd_info_read_v1 c)"

text \<open>
  \<open>impl_read_from_bytes_with_optional!\<close>: a structure that starts with the request identifier and
  has one optional field, either all of it or the identifier alone.
\<close>

definition read_with_optional ::
    "nat \<Rightarrow> (bytes \<Rightarrow> 'a) \<Rightarrow> (64 word \<Rightarrow> 'a) \<Rightarrow> 32 word \<Rightarrow> bytes \<Rightarrow> (migration_result, 'a) outcome" where
  "read_with_optional struct_size dec mk data_length payload =
     (let request_id_only = 8 :: 32 word;
          full_size = word_of_nat struct_size :: 32 word in
      if data_length \<noteq> request_id_only \<and> data_length \<noteq> full_size then Err InvalidParameter
      else if data_length = full_size then ok_or InvalidParameter (pread struct_size dec payload)
      else rbind (ok_or InvalidParameter (pread 8 u64_of payload)) (\<lambda>i. Ok (mk i)))"

record report_info =
  ri_mig_request_id :: "64 word"
  ri_reportdata :: bytes

definition enc_report_info :: "report_info \<Rightarrow> bytes" where
  "enc_report_info r = u64_le (ri_mig_request_id r) @ ri_reportdata r"

definition dec_report_info :: "bytes \<Rightarrow> report_info" where
  "dec_report_info bs =
     \<lparr> ri_mig_request_id = u64_of (slice 0 8 bs), ri_reportdata = slice 8 72 bs \<rparr>"

definition report_info_read_from_bytes ::
    "32 word \<Rightarrow> bytes \<Rightarrow> (migration_result, report_info) outcome" where
  "report_info_read_from_bytes =
     read_with_optional 72 dec_report_info
       (\<lambda>i. \<lparr> ri_mig_request_id = i, ri_reportdata = replicate 64 0 \<rparr>)"

record migtd_data_info =
  di_mig_request_id :: "64 word"
  di_reportdata :: bytes

definition dec_migtd_data_info :: "bytes \<Rightarrow> migtd_data_info" where
  "dec_migtd_data_info bs =
     \<lparr> di_mig_request_id = u64_of (slice 0 8 bs), di_reportdata = slice 8 72 bs \<rparr>"

definition migtd_data_info_read_from_bytes ::
    "32 word \<Rightarrow> bytes \<Rightarrow> (migration_result, migtd_data_info) outcome" where
  "migtd_data_info_read_from_bytes =
     read_with_optional 72 dec_migtd_data_info
       (\<lambda>i. \<lparr> di_mig_request_id = i, di_reportdata = replicate 64 0 \<rparr>)"

record enable_log_area_info =
  la_mig_request_id :: "64 word"
  log_max_level :: byte
  la_reserved :: bytes

definition enc_enable_log_area_info :: "enable_log_area_info \<Rightarrow> bytes" where
  "enc_enable_log_area_info r =
     u64_le (la_mig_request_id r) @ [log_max_level r] @ la_reserved r"

definition dec_enable_log_area_info :: "bytes \<Rightarrow> enable_log_area_info" where
  "dec_enable_log_area_info bs =
     \<lparr> la_mig_request_id = u64_of (slice 0 8 bs), log_max_level = bs ! 8,
       la_reserved = slice 9 16 bs \<rparr>"

definition enable_log_area_info_read_from_bytes ::
    "32 word \<Rightarrow> bytes \<Rightarrow> (migration_result, enable_log_area_info) outcome" where
  "enable_log_area_info_read_from_bytes data_length payload =
     (if data_length \<noteq> 16 then Err InvalidParameter
      else rbind (ok_or InvalidParameter (pread 16 dec_enable_log_area_info payload))
        (\<lambda>info. if list_ex (\<lambda>b. b \<noteq> 0) (la_reserved info) then Err InvalidParameter
                else Ok info))"

section \<open>Status codes on the wire\<close>

lemma try_from_result_code: "try_from_u8 (result_code r) = Ok r"
  by (cases r) (simp_all add: try_from_u8_def)

lemma result_code_inj: "result_code r = result_code q \<Longrightarrow> r = q"
  by (metis outcome.inject(1) try_from_result_code)

lemma try_from_u8_eq_Ok: "try_from_u8 v = Ok r \<longleftrightarrow> v = result_code r"
  by (auto simp: try_from_result_code) (auto simp: try_from_u8_def split: if_splits)

section \<open>Layout of the request structures\<close>

lemmas info_size_defs = migtd_info_header_size_def migtd_info_size_def TD_INFO_SIZE_def

interpretation migtd_info: wire_struct "migtd_info_size c" "enc_migtd_info c"
    "dec_migtd_info c" "migtd_info_typed c" for c
proof unfold_locales
  fix x :: migtd_info
  assume "migtd_info_typed c x"
  then show "length (enc_migtd_info c x) = migtd_info_size c"
    by (auto simp: enc_migtd_info_def migtd_info_typed_def info_size_defs)
next
  fix x :: migtd_info
  assume t: "migtd_info_typed c x"
  then show "dec_migtd_info c (enc_migtd_info c x) = x"
    by (cases "vmcall_raw c"; cases "policy_v2 c"; cases x)
       (simp_all add: dec_migtd_info_def enc_migtd_info_def migtd_info_typed_def info_size_defs
          slice_def nth_append)
next
  fix bs :: bytes
  assume "length bs = migtd_info_size c"
  then show "migtd_info_typed c (dec_migtd_info c bs)"
    by (auto simp: migtd_info_typed_def dec_migtd_info_def info_size_defs)
next
  fix bs :: bytes
  assume "length bs = migtd_info_size c"
  then show "enc_migtd_info c (dec_migtd_info c bs) = bs"
    by (cases "vmcall_raw c"; cases "policy_v2 c")
       (simp_all add: enc_migtd_info_def dec_migtd_info_def info_size_defs layout_simps)
qed

interpretation report_info: wire_struct 72 enc_report_info dec_report_info
    "\<lambda>r. length (ri_reportdata r) = 64"
  by unfold_locales
     (auto simp: enc_report_info_def dec_report_info_def slice_def u64_le_u64_of)

interpretation enable_log_area_info: wire_struct 16 enc_enable_log_area_info
    dec_enable_log_area_info "\<lambda>r. length (la_reserved r) = 7"
proof (unfold_locales, goal_cases)
  case (4 bs)
  then show ?case
    by (simp add: enc_enable_log_area_info_def dec_enable_log_area_info_def layout_simps)
qed (simp_all add: enc_enable_log_area_info_def dec_enable_log_area_info_def slice_def nth_append)

section \<open>The readers accept exactly the well-formed structures\<close>

definition migtd_info_wf :: "config \<Rightarrow> migtd_info \<Rightarrow> bool" where
  "migtd_info_wf c i \<longleftrightarrow>
     migtd_info_typed c i \<and> info_reserved i = replicate 6 0
     \<and> (has_init_data i = 0 \<or> has_init_data i = 1 \<and> policy_v2 c)
     \<and> (has_init_data i = 0 \<and> policy_v2 c \<longrightarrow> init_td_info i = replicate TD_INFO_SIZE 0)"

text \<open>The bytes the VMM sends for a request: the TDINFO tail only when it is announced.\<close>

definition wire_migtd_info :: "config \<Rightarrow> migtd_info \<Rightarrow> bytes" where
  "wire_migtd_info c i =
     take (if has_init_data i = 1 then migtd_info_size c else migtd_info_header_size c)
       (enc_migtd_info c i)"

lemma unat_info_size [simp]:
  "unat (word_of_nat (migtd_info_size c) :: 32 word) = migtd_info_size c"
  "unat (word_of_nat (migtd_info_header_size c) :: 32 word) = migtd_info_header_size c"
  by (auto simp: info_size_defs)

lemma word_info_size_eq [simp]:
  "(word_of_nat (migtd_info_size c) :: 32 word) = word_of_nat n \<longleftrightarrow> n mod 2 ^ 32 = migtd_info_size c"
  by (auto simp: info_size_defs word_unat_eq_iff unsigned_of_nat take_bit_eq_mod)

lemma byte_le_1_iff: "\<not> (1::byte) < b \<longleftrightarrow> b = 0 \<or> b = 1"
  by (auto simp: word_less_nat_alt word_unat_eq_iff)

lemma migtd_info_read_no_panic: "migtd_info_read_from_bytes c data_length payload \<noteq> Panic"
proof
  assume "migtd_info_read_from_bytes c data_length payload = Panic"
  then have v2: "policy_v2 c" and short: "data_length = word_of_nat (migtd_info_header_size c)"
    and le: "data_length \<le> (word_of_nat (length payload) :: 32 word)"
    and oob: "length payload < migtd_info_header_size c"
    by (auto simp: migtd_info_read_from_bytes_def migtd_info_read_v1_def migtd_info_read_v2_def
          Let_def outcome_simps split: if_splits)
  have "unat data_length \<le> unat (word_of_nat (length payload) :: 32 word)"
    using le by (simp add: word_le_nat_alt)
  also have "\<dots> \<le> length payload"
    by (simp add: unsigned_of_nat take_bit_eq_mod)
  finally show False using short oob by simp
qed

lemma drop_enc_migtd_info:
  assumes "migtd_info_typed c i"
  shows "drop (migtd_info_header_size c) (enc_migtd_info c i) = init_td_info i"
  using assms
  by (cases "vmcall_raw c") (simp_all add: enc_migtd_info_def migtd_info_typed_def info_size_defs)

lemma migtd_info_read_full:
  assumes "policy_v2 c" and "length payload = migtd_info_size c"
  shows "migtd_info_read_v2 c (word_of_nat (migtd_info_size c)) payload = Ok i \<longleftrightarrow>
    migtd_info_wf c i \<and> has_init_data i = 1 \<and> payload = enc_migtd_info c i"
proof -
  have "pread (migtd_info_size c) (dec_migtd_info c) payload = Some (dec_migtd_info c payload)"
    using assms(2) by (simp add: pread_def)
  moreover have "migtd_info_typed c (dec_migtd_info c payload)"
    using assms(2) by (rule migtd_info.valid_dec)
  ultimately show ?thesis
    using assms
    by (auto simp: migtd_info_read_v2_def Let_def migtd_info_wf_def byte_le_1_iff
          migtd_info.dec_enc migtd_info.enc_dec)
qed

lemma migtd_info_read_short:
  assumes "policy_v2 c" and len: "length payload = migtd_info_header_size c"
  shows "migtd_info_read_v2 c (word_of_nat (migtd_info_header_size c)) payload = Ok i \<longleftrightarrow>
    migtd_info_wf c i \<and> has_init_data i = 0
    \<and> payload = take (migtd_info_header_size c) (enc_migtd_info c i)"
proof -
  let ?padded = "payload @ replicate TD_INFO_SIZE 0"
  let ?p = "dec_migtd_info c ?padded"
  have size: "migtd_info_size c = migtd_info_header_size c + TD_INFO_SIZE"
    and ne: "(word_of_nat (migtd_info_header_size c) :: 32 word) \<noteq> word_of_nat (migtd_info_size c)"
    using assms(1) by (auto simp: info_size_defs)
  have pad: "overwrite 0 payload (replicate (migtd_info_size c) 0) = ?padded"
    using len size by (simp add: overwrite_def)
  have plen: "length ?padded = migtd_info_size c" using len size by simp
  have typed: "migtd_info_typed c ?p" using plen by (rule migtd_info.valid_dec)
  have enc: "enc_migtd_info c ?p = ?padded" using plen by (rule migtd_info.enc_dec)
  have run: "migtd_info_read_v2 c (word_of_nat (migtd_info_header_size c)) payload =
      (if info_reserved ?p = replicate 6 0 \<and> has_init_data ?p = 0 then Ok ?p
       else Err InvalidParameter)"
  proof -
    have pr: "pread (migtd_info_size c) (dec_migtd_info c) ?padded = Some ?p"
      using plen by (metis order_refl pread_def take_all)
    have "(word_of_nat (length payload) :: 32 word) \<ge> word_of_nat (migtd_info_header_size c)"
      by (simp add: len)
    then show ?thesis
      using byte_le_1_iff [of "has_init_data ?p"]
      by (simp add: migtd_info_read_v2_def index_range_def slice_full len ne pad pr)
  qed
  have tail: "?p = i \<longleftrightarrow> migtd_info_typed c i \<and> init_td_info i = replicate TD_INFO_SIZE 0
      \<and> payload = take (migtd_info_header_size c) (enc_migtd_info c i)"
    using migtd_info.dec_eq_iff [OF plen, of i] drop_enc_migtd_info [of c i] typed len
    by (auto simp: append_eq_conv_conj)
  show ?thesis
    unfolding run using tail assms(1) by (auto simp: migtd_info_wf_def)
qed

lemma migtd_info_read_iff:
  assumes "policy_v2 c" and "length payload = unat data_length"
  shows "migtd_info_read_from_bytes c data_length payload = Ok i \<longleftrightarrow>
    migtd_info_wf c i \<and> payload = wire_migtd_info c i"
proof -
  consider (full) "data_length = word_of_nat (migtd_info_size c)"
    | (short) "data_length = word_of_nat (migtd_info_header_size c)"
    | (bad) "data_length \<noteq> word_of_nat (migtd_info_size c)"
        "data_length \<noteq> word_of_nat (migtd_info_header_size c)"
    by blast
  then show ?thesis
  proof cases
    case full
    with assms show ?thesis
      using migtd_info_read_full [of c payload i] migtd_info.length_enc [of c i]
      by (auto simp: migtd_info_read_from_bytes_def wire_migtd_info_def migtd_info_wf_def
            info_size_defs)
  next
    case short
    with assms show ?thesis
      using migtd_info_read_short [of c payload i] migtd_info.length_enc [of c i]
      by (auto simp: migtd_info_read_from_bytes_def wire_migtd_info_def migtd_info_wf_def
            info_size_defs)
  next
    case bad
    then have "unat data_length \<noteq> migtd_info_size c" "unat data_length \<noteq> migtd_info_header_size c"
      by (auto simp: word_unat_eq_iff)
    with bad assms show ?thesis
      using migtd_info.length_enc [of c i]
      by (auto simp: migtd_info_read_from_bytes_def migtd_info_read_v2_def wire_migtd_info_def
            migtd_info_wf_def info_size_defs Let_def)
  qed
qed

end
