(* ===== verification/Requests.thy ===== *)
theory Requests
  imports MigTypes
begin

text \<open>
  Receiving requests from the VMM over the raw VMCALL interface and reporting their status, from
  \<open>src/migtd/src/migration/session.rs\<close>: the request buffer header, the decoding of one request,
  the set \<open>REQUESTS\<close> of the identifiers in flight, the wait loop with its error report, and the
  status report itself.  The VMM is untrusted: it chooses every byte of the buffers below.
  Shared memory and the VMCALL instructions are parameters.
\<close>

section \<open>Model\<close>

record request_data_buffer_header =
  datastatus :: "64 word"
  hdr_length :: "32 word"

datatype data_status_operation =
    OpStartMigration | OpStartRebinding | OpGetTDReport | OpEnableLogArea | OpGetMigtdData

definition data_status_operation_try_from :: "byte \<Rightarrow> (byte, data_status_operation) outcome" where
  "data_status_operation_try_from v =
     (if v = 1 then Ok OpStartMigration
      else if v = 2 then Ok OpStartRebinding
      else if v = 3 then Ok OpGetTDReport
      else if v = 4 then Ok OpEnableLogArea
      else if v = 5 then Ok OpGetMigtdData
      else Err v)"

datatype wait_for_request_response =
    StartMigration migtd_info
  | StartRebinding migtd_info
  | GetTdReport report_info
  | EnableLogArea enable_log_area_info
  | GetMigtdData migtd_data_info

text \<open>The global request set, and the report the closure of \<open>wait_for_request\<close> leaves behind.\<close>

record request_state =
  requests :: "64 word set"
  pending_error_report :: "(64 word \<times> migration_result) option"

type_synonym request_poll = "(migration_result, wait_for_request_response) outcome poll"

definition TDX_VMCALL_VMM_SUCCESS :: byte where "TDX_VMCALL_VMM_SUCCESS = 1"

definition request_header_len :: nat where "request_header_len = 12"

definition process_buffer :: "bytes \<Rightarrow> request_data_buffer_header" where
  "process_buffer buffer =
     (if length buffer < request_header_len then \<lparr> datastatus = 0, hdr_length = 0 \<rparr>
      else \<lparr> datastatus = u64_of (slice 0 8 buffer), hdr_length = u32_of (slice 8 12 buffer) \<rparr>)"

definition try_accept_request ::
    "64 word \<Rightarrow> wait_for_request_response \<Rightarrow> request_state \<Rightarrow> request_poll \<times> request_state" where
  "try_accept_request rid response st =
     (if rid \<notin> requests st
      then (Ready (Ok response), st\<lparr> requests := insert rid (requests st) \<rparr>)
      else (Pending, st))"

definition get_request_payload ::
    "bytes \<Rightarrow> nat \<Rightarrow> 32 word \<Rightarrow> (migration_result, bytes) outcome" where
  "get_request_payload data_buffer hdrlen data_length =
     rbind (ok_or InvalidParameter (checked_add_usize hdrlen (unat data_length)))
       (\<lambda>stop. ok_or InvalidParameter (get_range hdrlen stop data_buffer))"

definition read_request_id :: "bytes \<Rightarrow> nat \<Rightarrow> 64 word option" where
  "read_request_id data_buffer hdrlen =
     Option.bind (checked_add_usize hdrlen 8)
       (\<lambda>stop. map_option u64_of (get_range hdrlen stop data_buffer))"

definition reject_request ::
    "64 word option \<Rightarrow> migration_result \<Rightarrow> request_state \<Rightarrow> request_poll \<times> request_state" where
  "reject_request request_id status st =
     (Ready (Err status),
      (case request_id of
         Some rid \<Rightarrow> st\<lparr> pending_error_report := Some (rid, status) \<rparr>
       | None \<Rightarrow> st))"

text \<open>The macro \<open>decode_and_dispatch!\<close>.\<close>

definition decode_and_dispatch ::
    "(migration_result, 'a) outcome \<Rightarrow> ('a \<Rightarrow> 64 word) \<Rightarrow> ('a \<Rightarrow> wait_for_request_response)
     \<Rightarrow> 64 word option \<Rightarrow> request_state \<Rightarrow> request_poll \<times> request_state" where
  "decode_and_dispatch decoded id_of response request_id st =
     (case decoded of
        Ok info \<Rightarrow> try_accept_request (id_of info) (response info) st
      | Err status \<Rightarrow> reject_request request_id status st
      | Panic \<Rightarrow> (Ready Panic, st))"

definition parse_request ::
    "config \<Rightarrow> bytes \<Rightarrow> nat \<Rightarrow> request_state \<Rightarrow> request_poll \<times> request_state" where
  "parse_request c data_buffer hdrlen st =
     (let hdr = process_buffer data_buffer;
          data_status = datastatus hdr;
          data_length = hdr_length hdr;
          data_status_bytes = u64_le data_status;
          request_id = read_request_id data_buffer hdrlen in
      if data_status = 0 \<and> data_length = 0 then (Pending, st)
      else if data_status_bytes ! 0 \<noteq> TDX_VMCALL_VMM_SUCCESS
        then reject_request request_id VmmInternalError st
      else (case data_status_operation_try_from (data_status_bytes ! 1) of
        Err unknown \<Rightarrow> reject_request request_id UnsupportedOperationError st
      | Panic \<Rightarrow> (Ready Panic, st)
      | Ok oper \<Rightarrow>
          (case get_request_payload data_buffer hdrlen data_length of
             Err status \<Rightarrow> reject_request request_id status st
           | Panic \<Rightarrow> (Ready Panic, st)
           | Ok payload \<Rightarrow>
               (case oper of
                  OpStartMigration \<Rightarrow>
                    decode_and_dispatch (migtd_info_read_from_bytes c data_length payload)
                      mig_request_id StartMigration request_id st
                | OpStartRebinding \<Rightarrow>
                    (if vmcall_raw c \<and> policy_v2 c
                     then decode_and_dispatch (migtd_info_read_from_bytes c data_length payload)
                            mig_request_id StartRebinding request_id st
                     else reject_request request_id UnsupportedOperationError st)
                | OpGetTDReport \<Rightarrow>
                    (if az_cvm_emu c
                     then decode_and_dispatch (report_info_read_from_bytes data_length payload)
                            ri_mig_request_id GetTdReport request_id st
                     else reject_request request_id UnsupportedOperationError st)
                | OpEnableLogArea \<Rightarrow>
                    decode_and_dispatch (enable_log_area_info_read_from_bytes data_length payload)
                      la_mig_request_id EnableLogArea request_id st
                | OpGetMigtdData \<Rightarrow>
                    (if vmcall_raw c \<and> policy_v2 c
                     then decode_and_dispatch
                            (migtd_data_info_read_from_bytes data_length payload)
                            di_mig_request_id GetMigtdData request_id st
                     else reject_request request_id UnsupportedOperationError st)))))"

text \<open>
  The wait loop.  One poll of the closure sees the interrupt flag (and clears it) and, if it was
  set, a private copy of the shared buffer, absent when it cannot be allocated.  A run is the
  sequence of what successive polls see; it ends with the first poll that is ready.
\<close>

definition PAGE_SIZE :: nat where "PAGE_SIZE = 0x1000"

definition calculate_shared_page_nums ::
    "bytes option \<Rightarrow> bytes option \<Rightarrow> nat \<Rightarrow> (migration_result, nat) outcome" where
  "calculate_shared_page_nums policy event_log hdrlen =
     rbind (ok_or InvalidParameter policy) (\<lambda>p.
     rbind (ok_or InvalidParameter event_log) (\<lambda>e.
       let report_size = 1024;
           total_size = hdrlen + TD_INFO_SIZE + length p + length e + report_size in
       Ok ((total_size + PAGE_SIZE - 1) div PAGE_SIZE)))"

definition wait_poll ::
    "config \<Rightarrow> bool \<times> bytes option \<Rightarrow> request_state \<Rightarrow> request_poll \<times> request_state" where
  "wait_poll c seen st =
     (if fst seen
      then (case snd seen of
              Some data_buffer \<Rightarrow> parse_request c data_buffer request_header_len st
            | None \<Rightarrow> (Ready (Err OutOfResource), st))
      else (Pending, st))"

fun wait_polls ::
    "config \<Rightarrow> (bool \<times> bytes option) list \<Rightarrow> request_state
     \<Rightarrow> (migration_result, wait_for_request_response) outcome option \<times> request_state" where
  "wait_polls c [] st = (None, st)"
| "wait_polls c (seen # rest) st =
     (case wait_poll c seen st of
        (Pending, st') \<Rightarrow> wait_polls c rest st'
      | (Ready r, st') \<Rightarrow> (Some r, st'))"

text \<open>
  \<open>wait_for_request\<close> on the raw interface.  The second component of the result is the status
  report made for a rejected request (\<open>report_wait_for_request_error\<close>, whose own failure is only
  logged).
\<close>

definition wait_for_request ::
    "config \<Rightarrow> bytes option \<Rightarrow> bytes option \<Rightarrow> (nat \<Rightarrow> bytes option) \<Rightarrow> (bytes \<Rightarrow> bool)
     \<Rightarrow> (bool \<times> bytes option) list \<Rightarrow> request_state
     \<Rightarrow> (migration_result, wait_for_request_response) outcome option
        \<times> (64 word \<times> byte) option \<times> request_state" where
  "wait_for_request c policy event_log shared_memory_new waitforrequest polls st =
     (case calculate_shared_page_nums policy event_log request_header_len of
        Err e \<Rightarrow> (Some (Err e), None, st)
      | Panic \<Rightarrow> (Some Panic, None, st)
      | Ok pages \<Rightarrow>
          (case shared_memory_new pages of
             None \<Rightarrow> (Some (Err OutOfResource), None, st)
           | Some mem \<Rightarrow>
               if length mem < request_header_len then (Some Panic, None, st)
               else if \<not> waitforrequest (overwrite 0 (u64_le 0 @ u32_le 0) mem)
                 then (Some (Err InvalidParameter), None, st)
               else
                 (case wait_polls c polls (st\<lparr> pending_error_report := None \<rparr>) of
                    (Some (Err status), st') \<Rightarrow>
                      (Some (Err status),
                       map_option (\<lambda>(rid, code). (rid, result_code code)) (pending_error_report st'),
                       st'\<lparr> pending_error_report := None \<rparr>)
                  | (r, st') \<Rightarrow> (r, None, st'))))"

text \<open>
  \<open>report_status\<close> on the raw interface: the bit field \<open>ReportStatusResponse\<close>, the submission of the
  report, and one poll for the VMM's confirmation.
\<close>

definition report_status_response :: "byte \<Rightarrow> byte \<Rightarrow> 64 word" where
  "report_status_response pre_migration_status error_code =
     word_of_nat (unat pre_migration_status + 256 * unat error_code)"

definition report_status_submit ::
    "(nat \<Rightarrow> bytes option) \<Rightarrow> (64 word \<Rightarrow> 64 word \<Rightarrow> bytes \<Rightarrow> bool)
     \<Rightarrow> byte \<Rightarrow> 64 word \<Rightarrow> bytes \<Rightarrow> (migration_result, bytes) outcome" where
  "report_status_submit shared_memory_new reportstatus status rid data =
     (case shared_memory_new ((request_header_len + length data + PAGE_SIZE - 1) div PAGE_SIZE) of
        None \<Rightarrow> Err OutOfResource
      | Some mem \<Rightarrow>
          rbind
            (case try_from_u8 status of
               Ok v \<Rightarrow> Ok (if v \<noteq> Success then report_status_response 1 status
                           else report_status_response 0 0)
             | Err u \<Rightarrow> Err InvalidParameter
             | Panic \<Rightarrow> Panic)
            (\<lambda>word.
              if length mem < request_header_len + length data then Panic
              else
                let hdr = u64_le 0 @ u32_le (word_of_nat (length data));
                    buf = overwrite request_header_len data (overwrite 0 hdr mem) in
                if reportstatus rid word buf then Ok buf else Err InvalidParameter))"

definition report_status_poll :: "bytes \<Rightarrow> (migration_result, unit) outcome poll" where
  "report_status_poll data_buffer =
     (if u64_le (datastatus (process_buffer data_buffer)) ! 0 \<noteq> TDX_VMCALL_VMM_SUCCESS
      then Pending else Ready (Ok ()))"

section \<open>What one request does\<close>

fun request_id_of :: "wait_for_request_response \<Rightarrow> 64 word" where
  "request_id_of (StartMigration i) = mig_request_id i"
| "request_id_of (StartRebinding i) = mig_request_id i"
| "request_id_of (GetTdReport i) = ri_mig_request_id i"
| "request_id_of (EnableLogArea i) = la_mig_request_id i"
| "request_id_of (GetMigtdData i) = di_mig_request_id i"

text \<open>The operations a configuration offers.\<close>

fun offered :: "config \<Rightarrow> wait_for_request_response \<Rightarrow> bool" where
  "offered c (StartMigration i) = True"
| "offered c (StartRebinding i) = (vmcall_raw c \<and> policy_v2 c)"
| "offered c (GetTdReport i) = az_cvm_emu c"
| "offered c (EnableLogArea i) = True"
| "offered c (GetMigtdData i) = (vmcall_raw c \<and> policy_v2 c)"

lemmas request_defs = try_accept_request_def reject_request_def decode_and_dispatch_def

lemma read_with_optional_no_panic: "read_with_optional n dec mk data_length payload \<noteq> Panic"
  by (simp add: read_with_optional_def Let_def outcome_simps)

lemma enable_log_area_info_no_panic:
  "enable_log_area_info_read_from_bytes data_length payload \<noteq> Panic"
  by (auto simp: enable_log_area_info_read_from_bytes_def outcome_simps)

lemma get_request_payload_no_panic: "get_request_payload buf h data_length \<noteq> Panic"
  by (simp add: get_request_payload_def outcome_simps)

lemma data_status_operation_no_panic: "data_status_operation_try_from v \<noteq> Panic"
  by (simp add: data_status_operation_try_from_def)

lemmas no_panic_simps = read_with_optional_no_panic enable_log_area_info_no_panic
  get_request_payload_no_panic data_status_operation_no_panic migtd_info_read_no_panic

lemma reader_err:
  "migtd_info_read_from_bytes c data_length payload = Err e \<Longrightarrow> e = InvalidParameter"
  "read_with_optional n dec mk data_length payload = Err e \<Longrightarrow> e = InvalidParameter"
  "enable_log_area_info_read_from_bytes data_length payload = Err e \<Longrightarrow> e = InvalidParameter"
  "get_request_payload buf h data_length = Err e \<Longrightarrow> e = InvalidParameter"
  by (auto simp: migtd_info_read_from_bytes_def migtd_info_read_v1_def migtd_info_read_v2_def
        read_with_optional_def enable_log_area_info_read_from_bytes_def get_request_payload_def
        Let_def outcome_simps split: if_splits)

text \<open>What a request buffer may do to the state, in the three ways a poll can turn out.\<close>

definition request_effect ::
    "config \<Rightarrow> bytes \<Rightarrow> request_state \<Rightarrow> request_poll \<times> request_state \<Rightarrow> bool" where
  "request_effect c buf st res = (case res of
     (Pending, st') \<Rightarrow> st' = st
   | (Ready (Ok r), st') \<Rightarrow>
       offered c r \<and> request_id_of r \<notin> requests st
       \<and> st' = st\<lparr> requests := insert (request_id_of r) (requests st) \<rparr>
   | (Ready (Err e), st') \<Rightarrow>
       e \<in> {VmmInternalError, UnsupportedOperationError, InvalidParameter}
       \<and> st' = (case read_request_id buf request_header_len of
                  Some rid \<Rightarrow> st\<lparr> pending_error_report := Some (rid, e) \<rparr>
                | None \<Rightarrow> st)
   | (Ready Panic, st') \<Rightarrow> False)"

lemma request_effect_accept:
  "offered c r \<Longrightarrow> rid = request_id_of r \<Longrightarrow> request_effect c buf st (try_accept_request rid r st)"
  by (simp add: request_effect_def try_accept_request_def)

lemma request_effect_reject:
  "e \<in> {VmmInternalError, UnsupportedOperationError, InvalidParameter} \<Longrightarrow>
     request_effect c buf st (reject_request (read_request_id buf request_header_len) e st)"
  by (simp add: request_effect_def reject_request_def)

lemma request_effect_pending: "request_effect c buf st (Pending, st)"
  by (simp add: request_effect_def)

lemma request_effect_dispatch:
  assumes "decoded \<noteq> Panic" and "\<And>e. decoded = Err e \<Longrightarrow> e = InvalidParameter"
    and "\<And>i. offered c (response i) \<and> id_of i = request_id_of (response i)"
  shows "request_effect c buf st (decode_and_dispatch decoded id_of response
           (read_request_id buf request_header_len) st)"
  using assms
  by (cases decoded)
     (simp_all add: decode_and_dispatch_def request_effect_accept request_effect_reject)

lemmas request_effect_intros = request_effect_pending request_effect_reject request_effect_dispatch

lemma parse_request_effect:
  "request_effect c buf st (parse_request c buf request_header_len st)"
  unfolding parse_request_def Let_def
  by (auto intro!: request_effect_intros dest: reader_err
        simp: no_panic_simps report_info_read_from_bytes_def migtd_data_info_read_from_bytes_def
        split: outcome.splits data_status_operation.splits)

lemma nth_u64_le_u64_of:
  "8 \<le> length buf \<Longrightarrow> k < 8 \<Longrightarrow> u64_le (u64_of (slice 0 8 buf)) ! k = buf ! k"
  by (simp add: u64_le_u64_of) (simp add: slice_def)

lemma process_buffer_frame:
  assumes "length ds = 8"
  shows "process_buffer (ds @ u32_le n @ rest) = \<lparr> datastatus = u64_of ds, hdr_length = n \<rparr>"
  using assms by (simp add: process_buffer_def request_header_len_def slice_def)

lemma payload_frame:
  assumes "length ds = 8" and "length payload = unat n"
  shows "get_request_payload (ds @ u32_le n @ payload @ rest) request_header_len n = Ok payload"
proof -
  have "unat n < 2 ^ 32" using unsigned_less [of n, where 'a = nat] by simp
  with assms show ?thesis
    by (simp add: get_request_payload_def checked_add_usize_def request_header_len_def
          get_range_def slice_def)
qed

lemma buffer_frame:
  assumes "get_request_payload buf request_header_len (hdr_length (process_buffer buf)) = Ok payload"
    and "12 \<le> length buf"
  shows "\<exists>rest. buf = slice 0 8 buf @ u32_le (hdr_length (process_buffer buf)) @ payload @ rest
    \<and> length payload = unat (hdr_length (process_buffer buf))"
proof -
  let ?n = "hdr_length (process_buffer buf)"
  have p: "payload = slice 12 (12 + unat ?n) buf" and le: "12 + unat ?n \<le> length buf"
    using assms by (auto simp: get_request_payload_def outcome_simps checked_add_usize_def
        request_header_len_def split: if_splits)
  have n: "u32_le ?n = slice 8 12 buf"
    using assms(2) by (simp add: process_buffer_def request_header_len_def u32_le_u32_of)
  have "buf = slice 0 (12 + unat ?n) buf @ drop (12 + unat ?n) buf"
    by (simp add: slice_def)
  also have "slice 0 (12 + unat ?n) buf = slice 0 8 buf @ slice 8 12 buf @ payload"
    by (simp add: p slice_join)
  finally have "buf = slice 0 8 buf @ u32_le ?n @ payload @ drop (12 + unat ?n) buf"
    by (simp add: n)
  moreover have "length payload = unat ?n" using p le by simp
  ultimately show ?thesis by blast
qed

lemma length_wire_migtd_info:
  "migtd_info_wf c i \<Longrightarrow> length (wire_migtd_info c i) =
     (if has_init_data i = 1 then migtd_info_size c else migtd_info_header_size c)"
  using migtd_info.length_enc [of c i]
  by (auto simp: wire_migtd_info_def migtd_info_wf_def info_size_defs)

lemma length_wire_migtd_info_u32:
  "migtd_info_wf c i \<Longrightarrow>
     unat (word_of_nat (length (wire_migtd_info c i)) :: 32 word) = length (wire_migtd_info c i)"
  by (simp add: length_wire_migtd_info)

text \<open>The bytes by which a VMM asks for an operation: status 1, the operation, its payload.\<close>

definition request_frame :: "byte \<Rightarrow> bytes \<Rightarrow> bytes \<Rightarrow> bytes" where
  "request_frame operation hi payload =
     ([TDX_VMCALL_VMM_SUCCESS, operation] @ hi) @ u32_le (word_of_nat (length payload)) @ payload"

lemma parse_start_migrationE:
  assumes "parse_request c buf request_header_len st = (Ready (Ok (StartMigration i)), st')"
  obtains payload where "12 \<le> length buf"
    and "u64_le (datastatus (process_buffer buf)) ! 0 = 1"
    and "u64_le (datastatus (process_buffer buf)) ! 1 = 1"
    and "get_request_payload buf request_header_len (hdr_length (process_buffer buf)) = Ok payload"
    and "migtd_info_read_from_bytes c (hdr_length (process_buffer buf)) payload = Ok i"
    and "mig_request_id i \<notin> requests st"
    and "st' = st\<lparr> requests := insert (mig_request_id i) (requests st) \<rparr>"
proof -
  have "12 \<le> length buf"
    using assms by (rule contrapos_pp)
      (simp add: parse_request_def process_buffer_def request_header_len_def)
  with assms that show ?thesis
    by (auto simp: parse_request_def Let_def request_defs data_status_operation_try_from_def
          TDX_VMCALL_VMM_SUCCESS_def
          split: if_splits outcome.splits data_status_operation.splits)
qed

lemma parse_start_migration_sound:
  assumes "policy_v2 c" and "parse_request c buf request_header_len st = (Ready (Ok (StartMigration i)), st')"
  shows "migtd_info_wf c i \<and> mig_request_id i \<notin> requests st
    \<and> st' = st\<lparr> requests := insert (mig_request_id i) (requests st) \<rparr>
    \<and> (\<exists>hi rest. length hi = 6 \<and> buf = request_frame 1 hi (wire_migtd_info c i) @ rest)"
proof -
  from assms(2) obtain payload where len: "12 \<le> length buf"
    and b0: "u64_le (datastatus (process_buffer buf)) ! 0 = 1"
    and b1: "u64_le (datastatus (process_buffer buf)) ! 1 = 1"
    and pl: "get_request_payload buf request_header_len (hdr_length (process_buffer buf)) = Ok payload"
    and rd: "migtd_info_read_from_bytes c (hdr_length (process_buffer buf)) payload = Ok i"
    and acc: "mig_request_id i \<notin> requests st"
      "st' = st\<lparr> requests := insert (mig_request_id i) (requests st) \<rparr>"
    by (rule parse_start_migrationE)
  from buffer_frame [OF pl len] obtain rest where
    buf: "buf = slice 0 8 buf @ u32_le (hdr_length (process_buffer buf)) @ payload @ rest"
    and plen: "length payload = unat (hdr_length (process_buffer buf))" by blast
  have i: "migtd_info_wf c i" "payload = wire_migtd_info c i"
    using rd migtd_info_read_iff [OF assms(1) plen] by auto
  have "buf ! 0 = 1" "buf ! 1 = 1"
    using b0 b1 len by (simp_all add: process_buffer_def request_header_len_def nth_u64_le_u64_of)
  moreover have "slice 0 8 buf = [buf ! 0, buf ! 1] @ slice 2 8 buf"
  proof -
    have "buf \<noteq> []" using len by auto
    with len show ?thesis by (simp add: nth_Cons_slice)
  qed
  ultimately have ds: "slice 0 8 buf = [1, 1] @ slice 2 8 buf" by simp
  have n: "hdr_length (process_buffer buf) = word_of_nat (length payload)"
    using plen by simp
  note buf
  also have "slice 0 8 buf @ u32_le (hdr_length (process_buffer buf)) @ payload @ rest =
      request_frame 1 (slice 2 8 buf) (wire_migtd_info c i) @ rest"
    unfolding ds n by (simp add: request_frame_def TDX_VMCALL_VMM_SUCCESS_def i(2))
  finally have "buf = request_frame 1 (slice 2 8 buf) (wire_migtd_info c i) @ rest" .
  moreover have "length (slice 2 8 buf) = 6" using len by simp
  ultimately show ?thesis using i(1) acc by blast
qed

lemma parse_start_migration_complete:
  assumes "policy_v2 c"
    and "migtd_info_wf c i \<and> mig_request_id i \<notin> requests st
    \<and> st' = st\<lparr> requests := insert (mig_request_id i) (requests st) \<rparr>
    \<and> (\<exists>hi rest. length hi = 6 \<and> buf = request_frame 1 hi (wire_migtd_info c i) @ rest)"
  shows "parse_request c buf request_header_len st = (Ready (Ok (StartMigration i)), st')"
proof -
  from assms(2) obtain hi rest where wf: "migtd_info_wf c i" and acc: "mig_request_id i \<notin> requests st"
      "st' = st\<lparr> requests := insert (mig_request_id i) (requests st) \<rparr>"
    and hi: "length hi = 6" and buf: "buf = request_frame 1 hi (wire_migtd_info c i) @ rest"
    by blast
  let ?ds = "1 # 1 # hi" and ?n = "word_of_nat (length (wire_migtd_info c i)) :: 32 word"
  have ds: "length ?ds = 8" using hi by simp
  have buf': "buf = ?ds @ u32_le ?n @ wire_migtd_info c i @ rest"
    by (simp add: buf request_frame_def TDX_VMCALL_VMM_SUCCESS_def)
  have n: "unat ?n = length (wire_migtd_info c i)" using wf by (rule length_wire_migtd_info_u32)
  have pb: "process_buffer buf = \<lparr> datastatus = u64_of ?ds, hdr_length = ?n \<rparr>"
    unfolding buf' by (rule process_buffer_frame [OF ds])
  have pl: "get_request_payload buf request_header_len ?n = Ok (wire_migtd_info c i)"
    unfolding buf' by (rule payload_frame [OF ds n [symmetric]])
  have rd: "migtd_info_read_from_bytes c ?n (wire_migtd_info c i) = Ok i"
    using migtd_info_read_iff [OF assms(1) n [symmetric]] wf by simp
  have bytes: "u64_le (u64_of ?ds) = ?ds" using ds by (rule u64_le_u64_of)
  have nz: "u64_of ?ds \<noteq> 0" using ds by (simp add: u64_of_eq_0 Cons_replicate_eq)
  show ?thesis
    using acc
    by (simp add: parse_request_def pb pl rd bytes nz TDX_VMCALL_VMM_SUCCESS_def
          data_status_operation_try_from_def decode_and_dispatch_def try_accept_request_def)
qed

text \<open>
  C31: In a policy-v2 build, a request buffer starts a migration exactly if it carries the operation
  code of StartMigration followed by the length and the encoding of a well-formed migration
  information (reserved bytes zero; the 512-byte initial TDINFO present if and only if announced)
  whose identifier is not in flight.  The migration started is then the one that was encoded.
\<close>
theorem parse_start_migration_exact:
  assumes "policy_v2 c"
  shows "parse_request c buf request_header_len st = (Ready (Ok (StartMigration i)), st') \<longleftrightarrow>
    migtd_info_wf c i \<and> mig_request_id i \<notin> requests st
    \<and> st' = st\<lparr> requests := insert (mig_request_id i) (requests st) \<rparr>
    \<and> (\<exists>hi rest. length hi = 6 \<and> buf = request_frame 1 hi (wire_migtd_info c i) @ rest)"
  using parse_start_migration_sound [OF assms] parse_start_migration_complete [OF assms]
  by (intro iffI)

abbreviation raw_v2 :: config where
  "raw_v2 \<equiv> \<lparr> vmcall_raw = True, policy_v2 = True, az_cvm_emu = False, vsock_transport = False \<rparr>"

theorem parse_start_migration_exact_witness:
  "let i = (migtd_info_default raw_v2)\<lparr> mig_request_id := 7 \<rparr>;
       st = \<lparr> requests = {}, pending_error_report = None \<rparr>
   in parse_request raw_v2 (request_frame 1 (replicate 6 0) (wire_migtd_info raw_v2 i))
        request_header_len st
      = (Ready (Ok (StartMigration i)), st\<lparr> requests := {7} \<rparr>)"
  unfolding Let_def
  apply (subst parse_start_migration_exact)
   apply simp
  apply (simp add: migtd_info_wf_def migtd_info_typed_def migtd_info_default_def)
  apply (rule exI [of _ "replicate 6 0"])
  apply simp
  done

section \<open>The wait loop and the status report\<close>

lemma result_code_eq_0: "result_code r = 0 \<longleftrightarrow> r = Success"
  by (cases r) auto

lemma wait_polls_effect:
  assumes "wait_polls c polls st = (res, st')" and "pending_error_report st = None"
  shows "case res of
     None \<Rightarrow> st' = st
   | Some (Ok r) \<Rightarrow> offered c r \<and> request_id_of r \<notin> requests st
       \<and> st' = st\<lparr> requests := insert (request_id_of r) (requests st) \<rparr>
   | Some (Err e) \<Rightarrow> requests st' = requests st \<and> e \<noteq> Success
       \<and> (\<forall>rid code. pending_error_report st' = Some (rid, code) \<longrightarrow> code = e)
   | Some Panic \<Rightarrow> False"
  using assms
proof (induction polls arbitrary: st)
  case (Cons seen polls)
  have eff: "snd seen = Some buf \<Longrightarrow>
      request_effect c buf st (parse_request c buf request_header_len st)" for buf
    by (rule parse_request_effect)
  show ?case
  proof (cases "wait_poll c seen st")
    case (Pair p st1)
    show ?thesis
    proof (cases p)
      case Pending
      then have "st1 = st"
        using Pair eff by (auto simp: wait_poll_def request_effect_def split: if_splits option.splits)
      with Pending Pair Cons show ?thesis by simp
    next
      case (Ready r)
      with Pair Cons.prems have "res = Some r" "st' = st1" by auto
      with Ready Pair eff Cons.prems(2) show ?thesis
        by (cases r) (auto simp: wait_poll_def request_effect_def split: if_splits option.splits)
    qed
  qed
qed simp


text \<open>
  C32: Waiting for a request is safe against any sequence of buffers the VMM may present.  Given that
  shared memory comes in whole pages, the wait never panics.  A request it returns was offered by
  the build, was not in flight before and is the only addition to the requests in flight.  When it
  fails, the requests in flight are unchanged, and a status reported for the failure is the code of
  the error returned, so a refused request is never reported as a success.
\<close>
theorem wait_for_request_effect:
  assumes "\<And>n mem. shared_memory_new n = Some mem \<Longrightarrow> length mem = n * PAGE_SIZE"
    and "wait_for_request c policy event_log shared_memory_new waitforrequest polls st
         = (res, report, st')"
  shows "case res of
     None \<Rightarrow> report = None \<and> requests st' = requests st
   | Some (Ok r) \<Rightarrow> report = None \<and> offered c r \<and> request_id_of r \<notin> requests st
       \<and> requests st' = insert (request_id_of r) (requests st)
   | Some (Err e) \<Rightarrow> requests st' = requests st
       \<and> (\<forall>rid code. report = Some (rid, code) \<longrightarrow> code = result_code e \<and> code \<noteq> result_code Success)
   | Some Panic \<Rightarrow> False"
proof (cases "calculate_shared_page_nums policy event_log request_header_len")
  case (Ok pages)
  then have pages: "0 < pages"
    by (auto simp: calculate_shared_page_nums_def outcome_simps Let_def PAGE_SIZE_def
        TD_INFO_SIZE_def)
  show ?thesis
  proof (cases "shared_memory_new pages")
    case (Some mem)
    with assms(1) pages have mem: "\<not> length mem < request_header_len"
      by (auto simp: PAGE_SIZE_def request_header_len_def)
    obtain r st1 where w: "wait_polls c polls (st\<lparr> pending_error_report := None \<rparr>) = (r, st1)"
      by fastforce
    from wait_polls_effect [OF w] have eff: "case r of
        None \<Rightarrow> requests st1 = requests st
      | Some (Ok r) \<Rightarrow> offered c r \<and> request_id_of r \<notin> requests st
          \<and> requests st1 = insert (request_id_of r) (requests st)
      | Some (Err e) \<Rightarrow> requests st1 = requests st \<and> e \<noteq> Success
          \<and> (\<forall>rid code. pending_error_report st1 = Some (rid, code) \<longrightarrow> code = e)
      | Some Panic \<Rightarrow> False"
      by (auto split: option.splits outcome.splits)
    show ?thesis
      using assms(2) Ok Some mem w eff
      by (auto simp: wait_for_request_def split: option.splits outcome.splits if_splits
          simp: result_code_eq_0)
  qed (use assms(2) Ok in \<open>auto simp: wait_for_request_def\<close>)
qed (use assms(2) in \<open>auto simp: wait_for_request_def calculate_shared_page_nums_def outcome_simps Let_def\<close>)


theorem wait_for_request_effect_witness:
  "let st = \<lparr> requests = {3}, pending_error_report = None \<rparr>;
       bad = replicate 8 2 @ u32_le 8 @ u64_le 9;
       alloc = \<lambda>n. Some (replicate (n * PAGE_SIZE) 0);
       (res, report, st') = wait_for_request raw_v2 (Some []) (Some []) alloc (\<lambda>_. True)
         [(False, None), (True, Some bad)] st
   in res = Some (Err VmmInternalError) \<and> report = Some (9, 11) \<and> requests st' = {3}
      \<and> (11 :: byte) = result_code VmmInternalError \<and> (11 :: byte) \<noteq> result_code Success"
proof -
  let ?st = "\<lparr> requests = {3}, pending_error_report = None \<rparr>"
  let ?bad = "replicate 8 2 @ u32_le 8 @ u64_le 9"
  let ?alloc = "\<lambda>n. Some (replicate (n * PAGE_SIZE) 0)"
  have bytes: "u64_le (u64_of (replicate 8 2)) = replicate 8 2"
    by (rule u64_le_u64_of) simp
  have nz: "u64_of (replicate 8 2) \<noteq> 0" by (simp add: u64_of_eq_0)
  have run: "wait_for_request raw_v2 (Some []) (Some []) ?alloc (\<lambda>_. True)
      [(False, None), (True, Some ?bad)] ?st = (Some (Err VmmInternalError), Some (9, 11), ?st)"
    by (simp add: wait_for_request_def calculate_shared_page_nums_def wait_poll_def
          parse_request_def process_buffer_def request_header_len_def PAGE_SIZE_def
          TD_INFO_SIZE_def slice_def reject_request_def read_request_id_def checked_add_usize_def
          get_range_def TDX_VMCALL_VMM_SUCCESS_def bytes nz)
  show ?thesis
    using wait_for_request_effect [OF _ run] run by simp
qed

lemma pages_cover: "n \<le> (n + PAGE_SIZE - 1) div PAGE_SIZE * PAGE_SIZE"
proof -
  have "0 < PAGE_SIZE" by (simp add: PAGE_SIZE_def)
  then have "(n + PAGE_SIZE - 1) mod PAGE_SIZE < PAGE_SIZE" by simp
  moreover have "(n + PAGE_SIZE - 1) div PAGE_SIZE * PAGE_SIZE + (n + PAGE_SIZE - 1) mod PAGE_SIZE
      = n + PAGE_SIZE - 1"
    by (rule div_mult_mod_eq)
  ultimately show ?thesis by linarith
qed

lemma try_from_u8_no_panic: "try_from_u8 v \<noteq> Panic"
  by (simp add: try_from_u8_def)

text \<open>
  Reporting a status never panics, and what the VMM receives is what was reported: the status
  word is zero for a success and otherwise carries the failure flag with the error code, and the
  buffer holds an empty data status, the length of the data, and the data itself.
\<close>
theorem report_status_submit_frame:
  assumes alloc: "\<And>n mem. shared_memory_new n = Some mem \<Longrightarrow> length mem = n * PAGE_SIZE"
    and len: "length data < 2 ^ 32"
  shows "case report_status_submit shared_memory_new reportstatus status rid data of
     Ok buf \<Rightarrow>
       \<exists>r. status = result_code r
         \<and> reportstatus rid (if r = Success then 0 else report_status_response 1 status) buf
         \<and> process_buffer buf = \<lparr> datastatus = 0, hdr_length = word_of_nat (length data) \<rparr>
         \<and> get_request_payload buf request_header_len (word_of_nat (length data)) = Ok data
   | Err e \<Rightarrow> e = OutOfResource \<or> e = InvalidParameter
   | Panic \<Rightarrow> False"
proof (cases "shared_memory_new ((request_header_len + length data + PAGE_SIZE - 1) div PAGE_SIZE)")
  case (Some mem)
  let ?n = "word_of_nat (length data) :: 32 word"
  have mem: "request_header_len + length data \<le> length mem"
    using alloc [OF Some] pages_cover [of "request_header_len + length data"] by simp
  have n: "unat ?n = length data"
    using len by (simp add: unsigned_of_nat take_bit_eq_mod)
  define buf where "buf = overwrite request_header_len data (overwrite 0 (u64_le 0 @ u32_le ?n) mem)"
  have buf: "buf = u64_le 0 @ u32_le ?n @ data @ drop (12 + length data) mem"
    using mem by (simp add: buf_def overwrite_def request_header_len_def add.commute)
  have pb: "process_buffer buf = \<lparr> datastatus = 0, hdr_length = ?n \<rparr>"
    unfolding buf by (subst process_buffer_frame) simp_all
  have pl: "get_request_payload buf request_header_len ?n = Ok data"
    unfolding buf by (rule payload_frame) (simp_all add: n)
  show ?thesis
    using Some mem pb pl
    by (auto simp: report_status_submit_def buf_def [symmetric] Let_def try_from_u8_eq_Ok
          report_status_response_def try_from_u8_no_panic split: outcome.splits)
qed (simp add: report_status_submit_def)

theorem report_status_submit_frame_witness:
  "let alloc = \<lambda>n. Some (replicate (n * PAGE_SIZE) 0);
       seen = (\<lambda>(rid :: 64 word) word (buf :: bytes). rid = 5 \<and> word = report_status_response 1 8)
   in case report_status_submit alloc seen 8 5 [1, 2, 3] of
        Ok buf \<Rightarrow> get_request_payload buf request_header_len 3 = Ok [1, 2, 3]
      | _ \<Rightarrow> False"
proof -
  let ?alloc = "\<lambda>n. Some (replicate (n * PAGE_SIZE) (0 :: byte))"
  let ?seen = "\<lambda>(rid :: 64 word) word (buf :: bytes). rid = 5 \<and> word = report_status_response 1 8"
  have "is_ok (report_status_submit ?alloc ?seen 8 5 [1, 2, 3])"
    by (simp add: report_status_submit_def try_from_u8_def request_header_len_def PAGE_SIZE_def
          Let_def)
  then show ?thesis
    using report_status_submit_frame [of ?alloc "[1, 2, 3]" 8 ?seen 5]
    by (auto simp: is_ok_iff Let_def)
qed

end
