(* ===== verification/Transport.thy ===== *)
theory Transport
  imports MigTypes
begin

text \<open>
  The byte stream between two MigTDs.  A transport is what the traits \<open>AsyncRead\<close> and
  \<open>AsyncWrite\<close> of \<open>src/async/async_io\<close> offer: \<open>wr t bs\<close> takes some prefix of \<open>bs\<close> and returns how
  many bytes it took, \<open>rd t n\<close> returns at most \<open>n\<close> bytes.  The locales state what the
  protocol code relies on, and give the meaning of the two loops of
  \<open>src/migtd/src/migration/pre_session_data.rs\<close> that send and receive a whole buffer.
\<close>

type_synonym 't writer = "'t \<Rightarrow> bytes \<Rightarrow> ((io_error, nat) outcome \<times> 't) option"
type_synonym 't reader = "'t \<Rightarrow> nat \<Rightarrow> ((io_error, bytes) outcome \<times> 't) option"

section \<open>The send and receive loops\<close>

text \<open>
  \<open>send_pre_session_data\<close>: one iteration per partial write.  A transport that keeps accepting
  zero bytes keeps the loop running for ever.
\<close>

partial_function (option) send_loop ::
    "'t writer \<Rightarrow> bytes \<Rightarrow> nat \<Rightarrow> 't \<Rightarrow> ((migration_result, unit) outcome \<times> 't) option" where
  "send_loop wr data sent t =
     (if sent < length data
      then (case wr t (drop sent data) of
              None \<Rightarrow> None
            | Some (Ok n, t') \<Rightarrow> send_loop wr data (sent + n) t'
            | Some (Err e, t') \<Rightarrow> Some (Err NetworkError, t')
            | Some (Panic, t') \<Rightarrow> Some (Panic, t'))
      else Some (Ok (), t))"

definition send_pre_session_data ::
    "'t writer \<Rightarrow> bytes \<Rightarrow> ('t, migration_result, unit) prog" where
  "send_pre_session_data wr data = send_loop wr data 0"

text \<open>\<open>receive_pre_session_data\<close> into a buffer of \<open>len\<close> bytes, of which \<open>got\<close> are filled.\<close>

partial_function (option) receive_loop ::
    "'t reader \<Rightarrow> nat \<Rightarrow> bytes \<Rightarrow> 't \<Rightarrow> ((migration_result, bytes) outcome \<times> 't) option" where
  "receive_loop rd len got t =
     (if length got < len
      then (case rd t (len - length got) of
              None \<Rightarrow> None
            | Some (Ok chunk, t') \<Rightarrow> receive_loop rd len (got @ chunk) t'
            | Some (Err e, t') \<Rightarrow> Some (Err NetworkError, t')
            | Some (Panic, t') \<Rightarrow> Some (Panic, t'))
      else Some (Ok got, t))"

definition receive_pre_session_data ::
    "'t reader \<Rightarrow> nat \<Rightarrow> ('t, migration_result, bytes) prog" where
  "receive_pre_session_data rd len = receive_loop rd len []"

section \<open>Contracts of a transport\<close>

text \<open>
  Safety: \<open>outgoing\<close> is everything the transport has accepted so far, \<open>incoming\<close> what the peer has
  sent and has not been read.  Nothing is invented, lost or reordered.
\<close>

locale stream_transport =
  fixes wr :: "'t writer" and rd :: "'t reader"
    and outgoing :: "'t \<Rightarrow> bytes" and incoming :: "'t \<Rightarrow> bytes"
    and connected :: "'t \<Rightarrow> bool"
  assumes wr_Ok: "connected t \<Longrightarrow> wr t bs = Some (Ok n, t') \<Longrightarrow>
      connected t' \<and> n \<le> length bs \<and> outgoing t' = outgoing t @ take n bs
      \<and> incoming t' = incoming t"
    and rd_Ok: "connected t \<Longrightarrow> rd t k = Some (Ok chunk, t') \<Longrightarrow>
      connected t' \<and> length chunk \<le> k \<and> incoming t = chunk @ incoming t'
      \<and> outgoing t' = outgoing t"
begin

lemma send_loop_Ok:
  assumes ret: "send_loop wr data sent t = Some (res, t')"
    and conn: "connected t" and le: "sent \<le> length data" and ok: "res = Ok ()"
  shows "connected t' \<and> outgoing t' = outgoing t @ drop sent data \<and> incoming t' = incoming t"
proof -
  let ?P = "\<lambda>wr' data' sent t out. wr' = wr \<longrightarrow> data' = data \<longrightarrow> connected t \<longrightarrow>
      sent \<le> length data \<longrightarrow> fst out = Ok () \<longrightarrow>
      connected (snd out) \<and> outgoing (snd out) = outgoing t @ drop sent data
      \<and> incoming (snd out) = incoming t"
  have "?P wr data sent t (res, t')"
  proof (rule send_loop.raw_induct [where P = ?P, OF _ ret], intro impI, goal_cases)
    case (1 f wr' data' sent t out)
    show ?case
    proof (cases "sent < length data")
      case False
      with 1 show ?thesis by auto
    next
      case True
      then obtain n s where w: "wr t (drop sent data) = Some (Ok n, s)"
        and f: "f wr data (sent + n) s = Some out"
        using 1 by (auto split: option.splits prod.splits outcome.splits)
      note step = wr_Ok [OF \<open>connected t\<close> w]
      have split: "drop sent data = take n (drop sent data) @ drop (sent + n) data"
        by (metis add.commute append_take_drop_id drop_drop)
      have "connected s" "sent + n \<le> length data" using step True by auto
      with "1"(1) [OF f] \<open>fst out = Ok ()\<close> have "connected (snd out)"
        "outgoing (snd out) = outgoing s @ drop (sent + n) data" "incoming (snd out) = incoming s"
        by blast+
      with step split show ?thesis by (metis append.assoc)
    qed
  qed
  with conn le ok show ?thesis by simp
qed

lemma receive_loop_Ok:
  assumes ret: "receive_loop rd len got t = Some (res, t')"
    and conn: "connected t" and ok: "res = Ok bs" and le: "length got \<le> len"
  shows "connected t' \<and> length bs = len \<and> (\<exists>new. bs = got @ new \<and> incoming t = new @ incoming t')
    \<and> outgoing t' = outgoing t"
proof -
  let ?P = "\<lambda>rd' len' got t out. rd' = rd \<longrightarrow> len' = len \<longrightarrow> connected t \<longrightarrow>
      fst out = Ok bs \<longrightarrow> length got \<le> len \<longrightarrow>
      connected (snd out) \<and> length bs = len
      \<and> (\<exists>new. bs = got @ new \<and> incoming t = new @ incoming (snd out))
      \<and> outgoing (snd out) = outgoing t"
  have "?P rd len got t (res, t')"
  proof (rule receive_loop.raw_induct [where P = ?P, OF _ ret], intro impI, goal_cases)
    case (1 f rd' len' got t out)
    show ?case
    proof (cases "length got < len")
      case False
      with 1 show ?thesis by auto
    next
      case True
      then obtain chunk s where r: "rd t (len - length got) = Some (Ok chunk, s)"
        and f: "f rd len (got @ chunk) s = Some out"
        using 1 by (auto split: option.splits prod.splits outcome.splits)
      note step = rd_Ok [OF \<open>connected t\<close> r]
      then have "connected s" "length (got @ chunk) \<le> len" using True by auto
      with "1"(1) [OF f] \<open>fst out = Ok bs\<close> obtain new where
        "bs = (got @ chunk) @ new" "incoming s = new @ incoming (snd out)"
        "connected (snd out)" "length bs = len" "outgoing (snd out) = outgoing s" by blast
      with step show ?thesis by simp
    qed
  qed
  with conn ok le show ?thesis by simp
qed

lemma send_Ok:
  assumes "send_pre_session_data wr data t = Some (Ok u, t')" and "connected t"
  shows "connected t' \<and> outgoing t' = outgoing t @ data \<and> incoming t' = incoming t"
  using send_loop_Ok [of data 0 t "Ok u" t'] assms by (simp add: send_pre_session_data_def)

lemma receive_Ok:
  assumes "receive_pre_session_data rd n t = Some (Ok bs, t')" and "connected t"
  shows "connected t' \<and> length bs = n \<and> incoming t = bs @ incoming t' \<and> outgoing t' = outgoing t"
  using receive_loop_Ok [of n "[]" t "Ok bs" t' bs] assms by (simp add: receive_pre_session_data_def)

end

text \<open>
  Progress: a connected transport accepts at least a byte of what it is given, and returns at
  least a byte when the peer has sent one.
\<close>

locale live_transport = stream_transport +
  assumes wr_progress: "connected t \<Longrightarrow> bs \<noteq> [] \<Longrightarrow> \<exists>n t'. wr t bs = Some (Ok n, t') \<and> 0 < n"
    and rd_progress: "connected t \<Longrightarrow> 0 < k \<Longrightarrow> incoming t \<noteq> [] \<Longrightarrow>
      \<exists>chunk t'. rd t k = Some (Ok chunk, t') \<and> chunk \<noteq> []"
begin

lemma send_loop_total:
  assumes "connected t" and "sent \<le> length data"
  shows "\<exists>t'. send_loop wr data sent t = Some (Ok (), t')"
  using assms
proof (induction "length data - sent" arbitrary: sent t rule: less_induct)
  case less
  show ?case
  proof (cases "sent < length data")
    case True
    then obtain n s where w: "wr t (drop sent data) = Some (Ok n, s)" and n: "0 < n"
      using wr_progress [OF less.prems(1), of "drop sent data"] by auto
    with wr_Ok [OF less.prems(1) w] True have "connected s" "sent + n \<le> length data" by auto
    moreover have "length data - (sent + n) < length data - sent" using True n by linarith
    ultimately obtain t' where "send_loop wr data (sent + n) s = Some (Ok (), t')"
      using less.hyps by blast
    with w True show ?thesis by (subst send_loop.simps) auto
  qed (subst send_loop.simps, simp)
qed

lemma receive_loop_total:
  assumes "connected t" and "length got \<le> len" and "len - length got \<le> length (incoming t)"
  shows "\<exists>bs t'. receive_loop rd len got t = Some (Ok bs, t')"
  using assms
proof (induction "len - length got" arbitrary: got t rule: less_induct)
  case less
  show ?case
  proof (cases "length got < len")
    case True
    then have "incoming t \<noteq> []" using less.prems(3) by auto
    then obtain chunk s where r: "rd t (len - length got) = Some (Ok chunk, s)" and c: "chunk \<noteq> []"
      using rd_progress [OF less.prems(1), of "len - length got"] True by auto
    with rd_Ok [OF less.prems(1) r] less.prems
    have "connected s" "length (got @ chunk) \<le> len"
      "len - length (got @ chunk) \<le> length (incoming s)" by auto
    moreover have "len - length (got @ chunk) < len - length got"
      using True c by (simp add: diff_less_mono2)
    ultimately obtain bs t' where "receive_loop rd len (got @ chunk) s = Some (Ok bs, t')"
      using less.hyps by blast
    with r True show ?thesis by (subst receive_loop.simps) auto
  qed (subst receive_loop.simps, simp)
qed

lemma send_total:
  assumes "connected t"
  shows "\<exists>t'. send_pre_session_data wr data t = Some (Ok (), t') \<and> connected t'
    \<and> outgoing t' = outgoing t @ data \<and> incoming t' = incoming t"
  using send_loop_total [OF assms, of 0 data] send_Ok [OF _ assms]
  by (auto simp: send_pre_session_data_def)

lemma receive_total:
  assumes "connected t" and "incoming t = bs @ rest"
  shows "\<exists>t'. receive_pre_session_data rd (length bs) t = Some (Ok bs, t') \<and> connected t'
    \<and> incoming t' = rest \<and> outgoing t' = outgoing t"
proof -
  obtain bs' t' where r: "receive_pre_session_data rd (length bs) t = Some (Ok bs', t')"
    using receive_loop_total [OF assms(1), of "[]" "length bs"] assms(2)
    by (auto simp: receive_pre_session_data_def)
  note got = receive_Ok [OF r assms(1)]
  then have "bs' @ incoming t' = bs @ rest" "length bs' = length bs" using assms(2) by simp_all
  then have "bs' = bs" "incoming t' = rest" by simp_all
  with r got show ?thesis by simp
qed

end

end
