(* ===== verification/PreSession.thy ===== *)
theory PreSession
  imports Transport
begin

text \<open>
  The exchange of policies before a secure session, from
  \<open>src/migtd/src/migration/pre_session_data.rs\<close>: message headers, the hello packet with its
  version negotiation, the peer-data blob that carries policy and issuer chain, and the
  exchange itself over a transport.
\<close>

section \<open>Model\<close>

record pre_session_message =
  pm_type :: byte
  pm_reserved :: bytes
  pm_length :: "32 word"

definition PRE_SESSION_DATA_TYPE :: byte where "PRE_SESSION_DATA_TYPE = 1"
definition START_SESSION_TYPE :: byte where "START_SESSION_TYPE = 2"
definition HELLO_PACKET_TYPE :: byte where "HELLO_PACKET_TYPE = 0xff"

definition pre_session_message_as_bytes :: "pre_session_message \<Rightarrow> bytes" where
  "pre_session_message_as_bytes m = [pm_type m] @ pm_reserved m @ u32_le (pm_length m)"

definition dec_pre_session_message :: "bytes \<Rightarrow> pre_session_message" where
  "dec_pre_session_message bs =
     \<lparr> pm_type = bs ! 0, pm_reserved = slice 1 4 bs, pm_length = u32_of (slice 4 8 bs) \<rparr>"

definition pre_session_message_read_from_bytes :: "bytes \<Rightarrow> pre_session_message option" where
  "pre_session_message_read_from_bytes bs =
     (if length bs < 8 then None else Some (dec_pre_session_message bs))"

record hello_packet_payload =
  magic_word :: bytes
  lowest_supported_version :: "16 word"
  highest_supported_version :: "16 word"

definition HELLO_PACKET_PAYLOAD_SIZE :: nat where "HELLO_PACKET_PAYLOAD_SIZE = 8"
definition HELLO_PACKET_MAGIC_WORD :: bytes where
  "HELLO_PACKET_MAGIC_WORD = [0x4D, 0x47, 0x54, 0x44]"
definition LOWEST_VERSION :: "16 word" where "LOWEST_VERSION = 0x0100"
definition HIGHEST_VERSION :: "16 word" where "HIGHEST_VERSION = 0x0100"

definition hello_packet_payload_new :: hello_packet_payload where
  "hello_packet_payload_new =
     \<lparr> magic_word = HELLO_PACKET_MAGIC_WORD, lowest_supported_version = LOWEST_VERSION,
       highest_supported_version = HIGHEST_VERSION \<rparr>"

definition hello_packet_payload_as_bytes :: "hello_packet_payload \<Rightarrow> bytes" where
  "hello_packet_payload_as_bytes p =
     magic_word p @ u16_le (lowest_supported_version p) @ u16_le (highest_supported_version p)"

definition dec_hello_packet_payload :: "bytes \<Rightarrow> hello_packet_payload" where
  "dec_hello_packet_payload bs =
     \<lparr> magic_word = slice 0 4 bs, lowest_supported_version = u16_of (slice 4 6 bs),
       highest_supported_version = u16_of (slice 6 8 bs) \<rparr>"

definition hello_packet_payload_read_from_bytes :: "bytes \<Rightarrow> hello_packet_payload option" where
  "hello_packet_payload_read_from_bytes bs =
     (if length bs < 8 then None
      else let payload = dec_hello_packet_payload bs in
        if magic_word payload \<noteq> HELLO_PACKET_MAGIC_WORD then None else Some payload)"

definition negotiate_supported_version :: "hello_packet_payload \<Rightarrow> 16 word option" where
  "negotiate_supported_version p =
     (let low = max LOWEST_VERSION (lowest_supported_version p);
          high = min HIGHEST_VERSION (highest_supported_version p) in
      if low > high then None else Some high)"

text \<open>Packets.\<close>

definition send_pre_session_data_packet ::
    "'t writer \<Rightarrow> bytes \<Rightarrow> ('t, migration_result, unit) prog" where
  "send_pre_session_data_packet wr data =
     pbind (send_pre_session_data wr (pre_session_message_as_bytes
              \<lparr> pm_type = PRE_SESSION_DATA_TYPE, pm_reserved = replicate 3 0,
                pm_length = word_of_nat (length data) \<rparr>))
       (\<lambda>_. send_pre_session_data wr data)"

definition receive_pre_session_data_packet ::
    "'t reader \<Rightarrow> ('t, migration_result, bytes) prog" where
  "receive_pre_session_data_packet rd =
     pbind (receive_pre_session_data rd 8) (\<lambda>header_buffer.
     pbind (plift (ok_or InvalidParameter (pre_session_message_read_from_bytes header_buffer)))
       (\<lambda>header.
         if pm_type header \<noteq> PRE_SESSION_DATA_TYPE then plift (Err InvalidParameter)
         else receive_pre_session_data rd (unat (pm_length header))))"

definition send_start_session_packet :: "'t writer \<Rightarrow> ('t, migration_result, unit) prog" where
  "send_start_session_packet wr =
     send_pre_session_data wr (pre_session_message_as_bytes
       \<lparr> pm_type = START_SESSION_TYPE, pm_reserved = replicate 3 0, pm_length = 0 \<rparr>)"

definition receive_start_session_packet :: "'t reader \<Rightarrow> ('t, migration_result, unit) prog" where
  "receive_start_session_packet rd =
     pbind (receive_pre_session_data rd 8) (\<lambda>header_buffer.
     pbind (plift (ok_or InvalidParameter (pre_session_message_read_from_bytes header_buffer)))
       (\<lambda>packet.
         if pm_type packet \<noteq> START_SESSION_TYPE then plift (Err InvalidParameter)
         else if pm_length packet \<noteq> 0 then plift (Err InvalidParameter)
         else plift (Ok ())))"

definition send_hello_packet :: "'t writer \<Rightarrow> ('t, migration_result, unit) prog" where
  "send_hello_packet wr =
     pbind (send_pre_session_data wr (pre_session_message_as_bytes
              \<lparr> pm_type = HELLO_PACKET_TYPE, pm_reserved = replicate 3 0, pm_length = 8 \<rparr>))
       (\<lambda>_. send_pre_session_data wr (hello_packet_payload_as_bytes hello_packet_payload_new))"

definition receive_hello_packet ::
    "'t reader \<Rightarrow> ('t, migration_result, hello_packet_payload) prog" where
  "receive_hello_packet rd =
     pbind (receive_pre_session_data rd 8) (\<lambda>header_buffer.
     pbind (plift (ok_or InvalidParameter (pre_session_message_read_from_bytes header_buffer)))
       (\<lambda>header.
         if pm_type header \<noteq> HELLO_PACKET_TYPE then plift (Err InvalidParameter)
         else if unat (pm_length header) \<noteq> HELLO_PACKET_PAYLOAD_SIZE
           then plift (Err InvalidParameter)
         else pbind (receive_pre_session_data rd HELLO_PACKET_PAYLOAD_SIZE) (\<lambda>payload.
           plift (ok_or InvalidParameter (hello_packet_payload_read_from_bytes payload)))))"

definition exchange_hello_packet ::
    "'t writer \<Rightarrow> 't reader \<Rightarrow> ('t, migration_result, 16 word) prog" where
  "exchange_hello_packet wr rd =
     pbind (send_hello_packet wr) (\<lambda>_.
     pbind (receive_hello_packet rd) (\<lambda>remote.
       plift (ok_or InvalidParameter (negotiate_supported_version remote))))"

text \<open>The peer-data blob; in the decoder the error stands for the absent result.\<close>

definition encode_peer_data :: "bytes \<Rightarrow> bytes \<Rightarrow> bytes option" where
  "encode_peer_data policy issuer_chain =
     (if length policy < 2 ^ 32 \<and> length issuer_chain < 2 ^ 32
      then Some (u32_le (word_of_nat (length policy)) @ policy
                 @ u32_le (word_of_nat (length issuer_chain)) @ issuer_chain)
      else None)"

definition decode_peer_data :: "bytes \<Rightarrow> (unit, bytes \<times> bytes) outcome" where
  "decode_peer_data data =
     (if length data < 4 then Err ()
      else
        let policy_len = unat (u32_of (slice 0 4 data)) in
        rbind (ok_or () (checked_add_usize 4 policy_len)) (\<lambda>chain_len_offset.
        rbind (ok_or () (checked_add_usize chain_len_offset 4)) (\<lambda>need.
        if length data < need then Err ()
        else
          rbind (index_range 4 chain_len_offset data) (\<lambda>policy.
          rbind (index_range chain_len_offset (chain_len_offset + 4) data) (\<lambda>lenbytes.
            let chain_len = unat (u32_of lenbytes);
                chain_offset = chain_len_offset + 4 in
            rbind (ok_or () (checked_add_usize chain_offset chain_len)) (\<lambda>end.
              if length data \<noteq> end then Err ()
              else rbind (index_range chain_offset end data) (\<lambda>issuer_chain.
                Ok (policy, issuer_chain))))))))"

definition local_peer_data :: "bytes option \<Rightarrow> bytes option \<Rightarrow> bytes option" where
  "local_peer_data policy issuer_chain =
     Option.bind policy (\<lambda>p. Option.bind issuer_chain (\<lambda>c. encode_peer_data p c))"

text \<open>
  \<open>pre_session_data_exchange\<close>; the first two arguments after the transport are the policy and
  the issuer chain of the local configuration volume.
\<close>

definition pre_session_data_exchange ::
    "'t writer \<Rightarrow> 't reader \<Rightarrow> bytes option \<Rightarrow> bytes option \<Rightarrow> ('t, migration_result, bytes) prog" where
  "pre_session_data_exchange wr rd policy issuer_chain =
     pbind (exchange_hello_packet wr rd) (\<lambda>version.
     pbind (plift (ok_or InvalidParameter (local_peer_data policy issuer_chain))) (\<lambda>local_blob.
     pbind (send_pre_session_data_packet wr local_blob) (\<lambda>_.
     pbind (receive_pre_session_data_packet rd) (\<lambda>peer_blob.
     pbind (plift (map_err (\<lambda>_. InvalidParameter) (decode_peer_data peer_blob)))
       (\<lambda>(peer_policy, peer_issuer_chain).
         if peer_policy = [] \<or> peer_issuer_chain = [] then plift (Err InvalidParameter)
         else
           pbind (send_start_session_packet wr) (\<lambda>_.
           pbind (receive_start_session_packet rd) (\<lambda>_.
             plift (Ok peer_blob))))))))"

section \<open>Codecs\<close>

interpretation pre_session_message: wire_struct 8 pre_session_message_as_bytes
    dec_pre_session_message "\<lambda>m. length (pm_reserved m) = 3"
proof (unfold_locales, goal_cases)
  case (4 bs)
  then show ?case
    by (simp add: pre_session_message_as_bytes_def dec_pre_session_message_def layout_simps)
qed (simp_all add: pre_session_message_as_bytes_def dec_pre_session_message_def slice_def)

interpretation hello_packet_payload: wire_struct 8 hello_packet_payload_as_bytes
    dec_hello_packet_payload "\<lambda>p. length (magic_word p) = 4"
proof (unfold_locales, goal_cases)
  case (4 bs)
  then show ?case
    by (simp add: hello_packet_payload_as_bytes_def dec_hello_packet_payload_def layout_simps)
qed (simp_all add: hello_packet_payload_as_bytes_def dec_hello_packet_payload_def slice_def)

lemma decode_encode_peer_data:
  assumes "encode_peer_data policy issuer_chain = Some data"
  shows "decode_peer_data data = Ok (policy, issuer_chain)"
proof -
  let ?p = "word_of_nat (length policy) :: 32 word"
  let ?c = "word_of_nat (length issuer_chain) :: 32 word"
  have len: "length policy < 2 ^ 32" "length issuer_chain < 2 ^ 32"
    and data: "data = u32_le ?p @ policy @ u32_le ?c @ issuer_chain"
    using assms by (auto simp: encode_peer_data_def split: if_splits)
  have n: "unat ?p = length policy" "unat ?c = length issuer_chain"
    using len by (simp_all add: unsigned_of_nat take_bit_eq_mod)
  have s0: "slice 0 4 data = u32_le ?p" and s1: "slice 4 (4 + length policy) data = policy"
    and s2: "slice (4 + length policy) (8 + length policy) data = u32_le ?c"
    and s3: "slice (8 + length policy) (8 + length policy + length issuer_chain) data = issuer_chain"
    and dlen: "length data = 8 + length policy + length issuer_chain"
    by (simp_all add: data slice_def)
  show ?thesis
    using len
    by (simp add: decode_peer_data_def s0 s1 s2 s3 n dlen checked_add_usize_def index_range_def)
qed

lemma encode_decode_peer_data:
  assumes "decode_peer_data data = Ok (policy, issuer_chain)"
  shows "encode_peer_data policy issuer_chain = Some data"
proof -
  let ?p = "u32_of (slice 0 4 data)"
  let ?c = "u32_of (slice (4 + unat ?p) (8 + unat ?p) data)"
  have four: "4 \<le> length data"
    and le: "8 + unat ?p \<le> length data"
    and pol: "policy = slice 4 (4 + unat ?p) data"
    and dlen: "length data = 8 + unat ?p + unat ?c"
    and chain: "issuer_chain = slice (8 + unat ?p) (length data) data"
    using assms
    by (auto simp: decode_peer_data_def Let_def outcome_simps checked_add_usize_def
          add.commute add.left_commute split: if_splits)
  have lens: "length policy = unat ?p" "length issuer_chain = unat ?c"
    using pol chain dlen by simp_all
  then have bounds: "length policy < 2 ^ 32" "length issuer_chain < 2 ^ 32"
    using unsigned_less [of ?p, where 'a = nat] unsigned_less [of ?c, where 'a = nat] by simp_all
  have words: "word_of_nat (length policy) = ?p" "word_of_nat (length issuer_chain) = ?c"
    using lens by simp_all
  have enc: "u32_le ?p = slice 0 4 data" "u32_le ?c = slice (4 + unat ?p) (8 + unat ?p) data"
    using four le by (simp_all add: u32_le_u32_of)
  have "slice 0 4 data @ policy @ slice (4 + unat ?p) (8 + unat ?p) data @ issuer_chain = data"
    unfolding pol chain using le by (simp add: slice_join)
  with bounds show ?thesis
    by (simp add: encode_peer_data_def words enc)
qed

lemma decode_peer_data_iff:
  "decode_peer_data data = Ok (policy, issuer_chain) \<longleftrightarrow> encode_peer_data policy issuer_chain = Some data"
  using decode_encode_peer_data encode_decode_peer_data by blast


section \<open>The exchange as a script of bytes\<close>

text \<open>
  What a complete exchange puts on the wire in one direction: a hello packet, a blob and the start
  of the session.  The reserved bytes of the three headers are not looked at by the receiver.
\<close>

definition exchange_script ::
    "bytes \<times> bytes \<times> bytes \<Rightarrow> hello_packet_payload \<Rightarrow> bytes \<Rightarrow> bytes" where
  "exchange_script res hello blob = (case res of (r1, r2, r3) \<Rightarrow>
     pre_session_message_as_bytes
       \<lparr> pm_type = HELLO_PACKET_TYPE, pm_reserved = r1, pm_length = 8 \<rparr>
     @ hello_packet_payload_as_bytes hello
     @ pre_session_message_as_bytes
       \<lparr> pm_type = PRE_SESSION_DATA_TYPE, pm_reserved = r2, pm_length = word_of_nat (length blob) \<rparr>
     @ blob
     @ pre_session_message_as_bytes
       \<lparr> pm_type = START_SESSION_TYPE, pm_reserved = r3, pm_length = 0 \<rparr>)"

definition reserved_ok :: "bytes \<times> bytes \<times> bytes \<Rightarrow> bool" where
  "reserved_ok res \<longleftrightarrow> (case res of (r1, r2, r3) \<Rightarrow>
     length r1 = 3 \<and> length r2 = 3 \<and> length r3 = 3)"

definition local_script :: "bytes \<Rightarrow> bytes" where
  "local_script blob =
     exchange_script (replicate 3 0, replicate 3 0, replicate 3 0) hello_packet_payload_new blob"

definition acceptable_hello :: "hello_packet_payload \<Rightarrow> bool" where
  "acceptable_hello h \<longleftrightarrow> magic_word h = HELLO_PACKET_MAGIC_WORD
     \<and> lowest_supported_version h \<le> LOWEST_VERSION \<and> HIGHEST_VERSION \<le> highest_supported_version h"

definition acceptable_blob :: "bytes \<Rightarrow> bool" where
  "acceptable_blob blob \<longleftrightarrow> length blob < 2 ^ 32
     \<and> (\<exists>policy chain. encode_peer_data policy chain = Some blob \<and> policy \<noteq> [] \<and> chain \<noteq> [])"

lemma negotiate_eq_Some:
  "negotiate_supported_version h = Some v \<longleftrightarrow>
     v = 0x0100 \<and> lowest_supported_version h \<le> LOWEST_VERSION
     \<and> HIGHEST_VERSION \<le> highest_supported_version h"
  by (auto simp: negotiate_supported_version_def Let_def LOWEST_VERSION_def HIGHEST_VERSION_def
        max_def min_def split: if_splits)

lemma acceptable_hello_new: "acceptable_hello hello_packet_payload_new"
  by (simp add: acceptable_hello_def hello_packet_payload_new_def LOWEST_VERSION_def
        HIGHEST_VERSION_def)

lemma hello_payload_read_iff:
  assumes "length bs = 8"
  shows "hello_packet_payload_read_from_bytes bs = Some h \<longleftrightarrow>
    bs = hello_packet_payload_as_bytes h \<and> magic_word h = HELLO_PACKET_MAGIC_WORD"
proof -
  have "length HELLO_PACKET_MAGIC_WORD = 4" by (simp add: HELLO_PACKET_MAGIC_WORD_def)
  then show ?thesis
    using assms hello_packet_payload.dec_enc [of h] hello_packet_payload.enc_dec [of bs]
    by (auto simp: hello_packet_payload_read_from_bytes_def Let_def)
qed

lemma message_read_iff:
  assumes "length bs = 8"
  shows "pre_session_message_read_from_bytes bs = Some m \<longleftrightarrow>
    bs = pre_session_message_as_bytes m \<and> length (pm_reserved m) = 3"
  using assms pre_session_message.dec_enc [of m] pre_session_message.enc_dec [of bs]
    pre_session_message.valid_dec [of bs]
  by (auto simp: pre_session_message_read_from_bytes_def)

context stream_transport
begin

lemma receive_message_Ok:
  assumes "receive_pre_session_data rd 8 t = Some (Ok hb, s)"
    and "pre_session_message_read_from_bytes hb = Some m" and "connected t"
  shows "connected s \<and> length (pm_reserved m) = 3
    \<and> incoming t = pre_session_message_as_bytes m @ incoming s \<and> outgoing s = outgoing t"
  using receive_Ok [OF assms(1,3)] assms(2) message_read_iff [of hb m] by auto

lemma receive_hello_Ok:
  assumes "receive_hello_packet rd t = Some (Ok h, s)" and "connected t"
  shows "connected s \<and> outgoing s = outgoing t \<and> magic_word h = HELLO_PACKET_MAGIC_WORD
    \<and> (\<exists>r. length r = 3 \<and> incoming t = pre_session_message_as_bytes
        \<lparr> pm_type = HELLO_PACKET_TYPE, pm_reserved = r, pm_length = 8 \<rparr>
        @ hello_packet_payload_as_bytes h @ incoming s)"
proof -
  obtain hb s1 m payload where
    r1: "receive_pre_session_data rd 8 t = Some (Ok hb, s1)"
    and m: "pre_session_message_read_from_bytes hb = Some m"
    and ty: "pm_type m = HELLO_PACKET_TYPE" and n: "unat (pm_length m) = 8"
    and r2: "receive_pre_session_data rd 8 s1 = Some (Ok payload, s)"
    and h: "hello_packet_payload_read_from_bytes payload = Some h"
    using assms(1)
    by (auto simp: receive_hello_packet_def outcome_simps HELLO_PACKET_PAYLOAD_SIZE_def
          split: if_splits)
  note a = receive_message_Ok [OF r1 m assms(2)]
  then have "connected s1" by simp
  note b = receive_Ok [OF r2 this]
  have "pm_length m = 8" using n by (simp add: word_unat_eq_iff)
  then have "m = \<lparr> pm_type = HELLO_PACKET_TYPE, pm_reserved = pm_reserved m, pm_length = 8 \<rparr>"
    using ty by (cases m) simp
  moreover have "payload = hello_packet_payload_as_bytes h"
    "magic_word h = HELLO_PACKET_MAGIC_WORD"
    using h b hello_payload_read_iff [of payload h] by auto
  ultimately show ?thesis
    using a b by (metis append.assoc)
qed

lemma receive_packet_Ok:
  assumes "receive_pre_session_data_packet rd t = Some (Ok blob, s)" and "connected t"
  shows "connected s \<and> outgoing s = outgoing t \<and> length blob < 2 ^ 32
    \<and> (\<exists>r. length r = 3 \<and> incoming t = pre_session_message_as_bytes
        \<lparr> pm_type = PRE_SESSION_DATA_TYPE, pm_reserved = r, pm_length = word_of_nat (length blob) \<rparr>
        @ blob @ incoming s)"
proof -
  obtain hb s1 m where
    r1: "receive_pre_session_data rd 8 t = Some (Ok hb, s1)"
    and m: "pre_session_message_read_from_bytes hb = Some m"
    and ty: "pm_type m = PRE_SESSION_DATA_TYPE"
    and r2: "receive_pre_session_data rd (unat (pm_length m)) s1 = Some (Ok blob, s)"
    using assms(1) by (auto simp: receive_pre_session_data_packet_def outcome_simps split: if_splits)
  note a = receive_message_Ok [OF r1 m assms(2)]
  then have "connected s1" by simp
  note b = receive_Ok [OF r2 this]
  then have len: "length blob = unat (pm_length m)" by simp
  then have "m = \<lparr> pm_type = PRE_SESSION_DATA_TYPE, pm_reserved = pm_reserved m,
      pm_length = word_of_nat (length blob) \<rparr>"
    using ty by (cases m) simp
  moreover have "length blob < 2 ^ 32"
    using len unsigned_less [of "pm_length m", where 'a = nat] by simp
  ultimately show ?thesis
    using a b by (metis append.assoc)
qed

lemma receive_start_Ok:
  assumes "receive_start_session_packet rd t = Some (Ok u, s)" and "connected t"
  shows "connected s \<and> outgoing s = outgoing t
    \<and> (\<exists>r. length r = 3 \<and> incoming t = pre_session_message_as_bytes
        \<lparr> pm_type = START_SESSION_TYPE, pm_reserved = r, pm_length = 0 \<rparr> @ incoming s)"
proof -
  obtain hb s1 m where
    r1: "receive_pre_session_data rd 8 t = Some (Ok hb, s1)"
    and m: "pre_session_message_read_from_bytes hb = Some m"
    and "pm_type m = START_SESSION_TYPE" "pm_length m = 0" "s1 = s"
    using assms(1) by (auto simp: receive_start_session_packet_def outcome_simps split: if_splits)
  then have "m = \<lparr> pm_type = START_SESSION_TYPE, pm_reserved = pm_reserved m, pm_length = 0 \<rparr>"
    by (cases m) simp
  with receive_message_Ok [OF r1 m assms(2)] \<open>s1 = s\<close> show ?thesis by metis
qed

end

context stream_transport
begin

lemma send_message_Ok:
  assumes "pbind (send_pre_session_data wr a) (\<lambda>_. send_pre_session_data wr b) t = Some (Ok u, s)"
    and "connected t"
  shows "connected s \<and> outgoing s = outgoing t @ a @ b \<and> incoming s = incoming t"
  using assms by (auto simp: outcome_simps dest!: send_Ok)

lemma pre_session_exchange_sound:
  assumes "pre_session_data_exchange wr rd policy issuer_chain t = Some (Ok blob, t')"
    and "connected t"
  shows "\<exists>local_blob res hello.
    local_peer_data policy issuer_chain = Some local_blob
    \<and> reserved_ok res \<and> acceptable_hello hello \<and> acceptable_blob blob \<and> connected t'
    \<and> incoming t = exchange_script res hello blob @ incoming t'
    \<and> outgoing t' = outgoing t @ local_script local_blob"
proof -
  obtain s1 hello v s2 lb s3 s4 p c s5 where
    1: "send_hello_packet wr t = Some (Ok (), s1)"
    and 2: "receive_hello_packet rd s1 = Some (Ok hello, s2)"
    and neg: "negotiate_supported_version hello = Some v"
    and lb: "local_peer_data policy issuer_chain = Some lb"
    and 3: "send_pre_session_data_packet wr lb s2 = Some (Ok (), s3)"
    and 4: "receive_pre_session_data_packet rd s3 = Some (Ok blob, s4)"
    and dec: "decode_peer_data blob = Ok (p, c)" and ne: "p \<noteq> []" "c \<noteq> []"
    and 5: "send_start_session_packet wr s4 = Some (Ok (), s5)"
    and 6: "receive_start_session_packet rd s5 = Some (Ok (), t')"
    using assms(1)
    by (auto simp: pre_session_data_exchange_def exchange_hello_packet_def outcome_simps
          split: if_splits)
  note a1 = send_message_Ok [OF 1 [unfolded send_hello_packet_def] assms(2)]
  then have "connected s1" by simp
  note a2 = receive_hello_Ok [OF 2 this]
  then have "connected s2" by simp
  note a3 = send_message_Ok [OF 3 [unfolded send_pre_session_data_packet_def] this]
  then have "connected s3" by simp
  note a4 = receive_packet_Ok [OF 4 this]
  then have "connected s4" by simp
  note a5 = send_Ok [OF 5 [unfolded send_start_session_packet_def] this]
  then have "connected s5" by simp
  note a6 = receive_start_Ok [OF 6 this]
  obtain r1 r2 r3 where
    r: "length r1 = 3" "length r2 = 3" "length r3 = 3"
    and i1: "incoming s1 = pre_session_message_as_bytes
        \<lparr> pm_type = HELLO_PACKET_TYPE, pm_reserved = r1, pm_length = 8 \<rparr>
        @ hello_packet_payload_as_bytes hello @ incoming s2"
    and i2: "incoming s3 = pre_session_message_as_bytes
        \<lparr> pm_type = PRE_SESSION_DATA_TYPE, pm_reserved = r2, pm_length = word_of_nat (length blob) \<rparr>
        @ blob @ incoming s4"
    and i3: "incoming s5 = pre_session_message_as_bytes
        \<lparr> pm_type = START_SESSION_TYPE, pm_reserved = r3, pm_length = 0 \<rparr> @ incoming t'"
    using a2 a4 a6 by blast
  have "incoming t = exchange_script (r1, r2, r3) hello blob @ incoming t'"
    using a1 a3 a5 i1 i2 i3 by (simp add: exchange_script_def)
  moreover have "outgoing t' = outgoing t @ local_script lb"
    using a1 a2 a3 a4 a5 a6 by (simp add: local_script_def exchange_script_def)
  moreover have "reserved_ok (r1, r2, r3)" using r by (simp add: reserved_ok_def)
  moreover have "acceptable_hello hello"
    using a2 neg by (simp add: acceptable_hello_def negotiate_eq_Some)
  moreover have "acceptable_blob blob"
    using a4 dec ne by (auto simp: acceptable_blob_def decode_peer_data_iff)
  ultimately show ?thesis using lb a6 by blast
qed

end

context live_transport
begin

lemma receive_message_total:
  assumes "connected t" and "incoming t = pre_session_message_as_bytes m @ rest"
    and "length (pm_reserved m) = 3"
  shows "\<exists>s. receive_pre_session_data rd 8 t = Some (Ok (pre_session_message_as_bytes m), s)
    \<and> pre_session_message_read_from_bytes (pre_session_message_as_bytes m) = Some m
    \<and> connected s \<and> incoming s = rest \<and> outgoing s = outgoing t"
proof -
  have "length (pre_session_message_as_bytes m) = 8"
    using assms(3) by (rule pre_session_message.length_enc)
  then show ?thesis
    using receive_total [OF assms(1,2)] assms(3) message_read_iff by auto
qed

lemma send_message_total:
  assumes "connected t"
  shows "\<exists>s. pbind (send_pre_session_data wr a) (\<lambda>_. send_pre_session_data wr b) t = Some (Ok (), s)
    \<and> connected s \<and> incoming s = incoming t \<and> outgoing s = outgoing t @ a @ b"
  using send_total [OF assms, of a] send_total [of _ b] by (fastforce simp: pbind_def)

lemma receive_hello_total:
  assumes "connected t" and "length r = 3" and "magic_word h = HELLO_PACKET_MAGIC_WORD"
    and "incoming t = pre_session_message_as_bytes
        \<lparr> pm_type = HELLO_PACKET_TYPE, pm_reserved = r, pm_length = 8 \<rparr>
        @ hello_packet_payload_as_bytes h @ rest"
  shows "\<exists>s. receive_hello_packet rd t = Some (Ok h, s) \<and> connected s \<and> incoming s = rest
    \<and> outgoing s = outgoing t"
proof -
  let ?h = "\<lparr> pm_type = HELLO_PACKET_TYPE, pm_reserved = r, pm_length = 8 \<rparr>"
  obtain s1 where 1: "receive_pre_session_data rd 8 t = Some (Ok (pre_session_message_as_bytes ?h), s1)"
    "pre_session_message_read_from_bytes (pre_session_message_as_bytes ?h) = Some ?h"
    "connected s1" "incoming s1 = hello_packet_payload_as_bytes h @ rest" "outgoing s1 = outgoing t"
    using receive_message_total [OF assms(1,4)] assms(2) by auto
  have len: "length (hello_packet_payload_as_bytes h) = 8"
    using assms(3) by (intro hello_packet_payload.length_enc) (simp add: HELLO_PACKET_MAGIC_WORD_def)
  obtain s2 where 2: "receive_pre_session_data rd 8 s1 = Some (Ok (hello_packet_payload_as_bytes h), s2)"
    "connected s2" "incoming s2 = rest" "outgoing s2 = outgoing s1"
    using receive_total [OF 1(3,4)] len by auto
  have "hello_packet_payload_read_from_bytes (hello_packet_payload_as_bytes h) = Some h"
    using hello_payload_read_iff [OF len] assms(3) by simp
  with 1 2 show ?thesis
    by (simp add: receive_hello_packet_def HELLO_PACKET_PAYLOAD_SIZE_def pbind_def)
qed

lemma receive_packet_total:
  assumes "connected t" and "length r = 3" and "length blob < 2 ^ 32"
    and "incoming t = pre_session_message_as_bytes
        \<lparr> pm_type = PRE_SESSION_DATA_TYPE, pm_reserved = r, pm_length = word_of_nat (length blob) \<rparr>
        @ blob @ rest"
  shows "\<exists>s. receive_pre_session_data_packet rd t = Some (Ok blob, s) \<and> connected s
    \<and> incoming s = rest \<and> outgoing s = outgoing t"
proof -
  let ?n = "word_of_nat (length blob) :: 32 word"
  let ?h = "\<lparr> pm_type = PRE_SESSION_DATA_TYPE, pm_reserved = r, pm_length = ?n \<rparr>"
  have n: "unat ?n = length blob"
    using assms(3) by (simp add: unsigned_of_nat take_bit_eq_mod)
  obtain s1 where 1: "receive_pre_session_data rd 8 t = Some (Ok (pre_session_message_as_bytes ?h), s1)"
    "pre_session_message_read_from_bytes (pre_session_message_as_bytes ?h) = Some ?h"
    "connected s1" "incoming s1 = blob @ rest" "outgoing s1 = outgoing t"
    using receive_message_total [OF assms(1,4)] assms(2) by auto
  obtain s2 where "receive_pre_session_data rd (length blob) s1 = Some (Ok blob, s2)"
    "connected s2" "incoming s2 = rest" "outgoing s2 = outgoing s1"
    using receive_total [OF 1(3,4)] by auto
  with 1 n show ?thesis
    by (simp add: receive_pre_session_data_packet_def pbind_def)
qed

lemma receive_start_total:
  assumes "connected t" and "length r = 3"
    and "incoming t = pre_session_message_as_bytes
        \<lparr> pm_type = START_SESSION_TYPE, pm_reserved = r, pm_length = 0 \<rparr> @ rest"
  shows "\<exists>s. receive_start_session_packet rd t = Some (Ok (), s) \<and> connected s
    \<and> incoming s = rest \<and> outgoing s = outgoing t"
  using receive_message_total [OF assms(1,3)] assms(2)
  by (auto simp: receive_start_session_packet_def pbind_def)

lemma pre_session_exchange_complete:
  assumes conn: "connected t" and lb: "local_peer_data policy issuer_chain = Some local_blob"
    and res: "reserved_ok res" and hello: "acceptable_hello hello" and blob: "acceptable_blob blob"
    and inc: "incoming t = exchange_script res hello blob @ rest"
  shows "\<exists>t'. pre_session_data_exchange wr rd policy issuer_chain t = Some (Ok blob, t')
    \<and> connected t' \<and> incoming t' = rest \<and> outgoing t' = outgoing t @ local_script local_blob"
proof -
  obtain r1 r2 r3 where res: "res = (r1, r2, r3)" and r: "length r1 = 3" "length r2 = 3" "length r3 = 3"
    using res by (cases res) (auto simp: reserved_ok_def)
  obtain p c where dec: "decode_peer_data blob = Ok (p, c)" and ne: "p \<noteq> []" "c \<noteq> []"
    and blen: "length blob < 2 ^ 32"
    using blob by (auto simp: acceptable_blob_def decode_peer_data_iff)
  have h: "magic_word hello = HELLO_PACKET_MAGIC_WORD"
    and neg: "negotiate_supported_version hello = Some 0x0100"
    using hello by (simp_all add: acceptable_hello_def negotiate_eq_Some)
  obtain s1 where 1: "send_hello_packet wr t = Some (Ok (), s1)" and c1: "connected s1"
    and i1: "incoming s1 = incoming t" and o1: "outgoing s1 = outgoing t
      @ pre_session_message_as_bytes
          \<lparr> pm_type = HELLO_PACKET_TYPE, pm_reserved = replicate 3 0, pm_length = 8 \<rparr>
      @ hello_packet_payload_as_bytes hello_packet_payload_new"
    using send_message_total [OF conn] unfolding send_hello_packet_def by blast
  obtain s2 where 2: "receive_hello_packet rd s1 = Some (Ok hello, s2)" and c2: "connected s2"
    and i2: "incoming s2 = pre_session_message_as_bytes \<lparr> pm_type = PRE_SESSION_DATA_TYPE,
        pm_reserved = r2, pm_length = word_of_nat (length blob) \<rparr> @ blob
      @ pre_session_message_as_bytes
          \<lparr> pm_type = START_SESSION_TYPE, pm_reserved = r3, pm_length = 0 \<rparr> @ rest"
    and o2: "outgoing s2 = outgoing s1"
    using receive_hello_total [OF c1 r(1) h] inc i1 by (auto simp: res exchange_script_def)
  obtain s3 where 3: "send_pre_session_data_packet wr local_blob s2 = Some (Ok (), s3)"
    and c3: "connected s3" and i3: "incoming s3 = incoming s2" and o3: "outgoing s3 = outgoing s2
      @ pre_session_message_as_bytes \<lparr> pm_type = PRE_SESSION_DATA_TYPE,
          pm_reserved = replicate 3 0, pm_length = word_of_nat (length local_blob) \<rparr> @ local_blob"
    using send_message_total [OF c2] unfolding send_pre_session_data_packet_def by blast
  obtain s4 where 4: "receive_pre_session_data_packet rd s3 = Some (Ok blob, s4)"
    and c4: "connected s4" and i4: "incoming s4 = pre_session_message_as_bytes
          \<lparr> pm_type = START_SESSION_TYPE, pm_reserved = r3, pm_length = 0 \<rparr> @ rest"
    and o4: "outgoing s4 = outgoing s3"
    using receive_packet_total [OF c3 r(2) blen] i3 i2 by auto
  obtain s5 where 5: "send_start_session_packet wr s4 = Some (Ok (), s5)" and c5: "connected s5"
    and i5: "incoming s5 = incoming s4" and o5: "outgoing s5 = outgoing s4
      @ pre_session_message_as_bytes
          \<lparr> pm_type = START_SESSION_TYPE, pm_reserved = replicate 3 0, pm_length = 0 \<rparr>"
    using send_total [OF c4] unfolding send_start_session_packet_def by blast
  obtain s6 where 6: "receive_start_session_packet rd s5 = Some (Ok (), s6)" and c6: "connected s6"
    and i6: "incoming s6 = rest" and o6: "outgoing s6 = outgoing s5"
    using receive_start_total [OF c5 r(3)] i5 i4 by auto
  have "pre_session_data_exchange wr rd policy issuer_chain t = Some (Ok blob, s6)"
    using 1 2 3 4 5 6 neg lb dec ne
    by (simp add: pre_session_data_exchange_def exchange_hello_packet_def pbind_def)
  moreover have "outgoing s6 = outgoing t @ local_script local_blob"
    using o1 o2 o3 o4 o5 o6 by (simp add: local_script_def exchange_script_def)
  ultimately show ?thesis using c6 i6 by blast
qed

end

lemma acceptable_blob_local:
  assumes "local_peer_data policy issuer_chain = Some blob" and "length blob < 2 ^ 32"
    and "policy \<noteq> Some []" and "issuer_chain \<noteq> Some []"
  shows "acceptable_blob blob"
  using assms
  by (cases policy; cases issuer_chain) (auto simp: local_peer_data_def acceptable_blob_def)

end
