(* ===== verification/Virtqueue.thy ===== *)
theory Virtqueue
  imports MigPrelude "HOL-Library.Multiset"
begin

text \<open>
  The split virtqueue of \<open>src/devices/virtio/src/virtqueue.rs\<close>.  Descriptor table, available ring
  and used ring are shared with the host, which may change them at any time; the driver keeps a
  private shadow of what it programmed, a free list threaded through the shadow, and two bitmaps of
  outstanding slots and chain heads.  The theorems show that the host cannot make the driver return
  a buffer it was not given, return one twice, or lose one.
\<close>

unbundle bit_operations_syntax

section \<open>Model\<close>

datatype pci_error = PciInvalidParameter | MmioOutofResource | InvalidBarType | Misaligned

record memory_region =
  region_base :: "64 word"
  region_length :: "64 word"

record memory_region_error =
  err_region :: memory_region
  err_offset :: "64 word"

datatype virtio_error =
    VirtioUnsupportedDevice | VirtioLegacyOnly | VirtioFeatureNegotiationFailed
  | CreateVirtioQueue | BufferTooSmall | VqNotReady | AlreadyUsed | VqInvalidParameter | IoError
  | BadRing | SetDeviceNotification | InvalidOffset memory_region_error | InvalidDescriptorIndex
  | InvalidRingIndex | InvalidDescriptor | Pci pci_error

record virtqueue_buf =
  buf_addr :: "64 word"
  buf_len :: "32 word"

text \<open>A slot of the shared descriptor table, and of its private shadow.\<close>

record descriptor =
  d_addr :: "64 word"
  d_len :: "32 word"
  d_flags :: "16 word"
  d_next :: nat

definition DESC_NEXT :: "16 word" where "DESC_NEXT = 1"
definition DESC_WRITE :: "16 word" where "DESC_WRITE = 2"

definition flags_contain :: "16 word \<Rightarrow> 16 word \<Rightarrow> bool" where
  "flags_contain flags f \<longleftrightarrow> flags AND f = f"

definition MAX_QUEUE_SIZE :: nat where "MAX_QUEUE_SIZE = 32"

text \<open>
  The memory shared with the host.  The \<open>flags\<close> fields of the rings and \<open>avail_event\<close> are never
  accessed by the driver and are left out.
\<close>

record vq_memory =
  vq_desc :: "descriptor list"
  avail_ring :: "nat list"
  avail_shared_idx :: "16 word"
  used_event :: "16 word"
  used_idx :: "16 word"
  used_ring :: "(32 word \<times> 32 word) list"

text \<open>The queue: the shared memory and the driver's private fields.\<close>

record virtqueue = vq_memory +
  queue_idx :: "32 word"
  queue_size :: nat
  num_used :: nat
  free_head :: nat
  avail_idx :: "16 word"
  last_used_idx :: "16 word"
  desc_shadow :: "descriptor list"
  in_use :: "32 word"
  is_head :: "32 word"

definition is_power_of_two :: "nat \<Rightarrow> bool" where
  "is_power_of_two n \<longleftrightarrow> n \<in> set (map (\<lambda>k. 2 ^ k) [0..<64])"

definition VQ_PAGE_SIZE :: nat where "VQ_PAGE_SIZE = 0x1000"

definition vq_align_up :: "nat \<Rightarrow> nat" where
  "vq_align_up n = (n + VQ_PAGE_SIZE) div VQ_PAGE_SIZE * VQ_PAGE_SIZE"

record virtqueue_layout =
  avail_offset :: nat
  used_offset :: nat
  layout_size :: nat

definition virtqueue_layout_new :: "nat \<Rightarrow> virtqueue_layout option" where
  "virtqueue_layout_new n =
     (if \<not> is_power_of_two n \<or> 32768 < n then None
      else
        let desc = 16 * n;
            avail = 2 * (3 + n);
            used = 2 * 3 + 8 * n in
        Some \<lparr> avail_offset = desc, used_offset = vq_align_up (desc + avail),
               layout_size = vq_align_up (desc + avail) + vq_align_up used \<rparr>)"

text \<open>What \<open>VirtQueue::new\<close> asks of the device: its transport's answers.\<close>

record virtio_transport =
  get_queue_max_size :: "(virtio_error, nat) outcome"
  set_descriptors_address :: "64 word \<Rightarrow> (virtio_error, unit) outcome"
  set_avail_ring :: "64 word \<Rightarrow> (virtio_error, unit) outcome"
  set_used_ring :: "64 word \<Rightarrow> (virtio_error, unit) outcome"

definition shadow_default :: descriptor where
  "shadow_default = \<lparr> d_addr = 0, d_len = 0, d_flags = 0, d_next = 0 \<rparr>"

text \<open>Linking the descriptors: \<open>desc[i].next = i + 1\<close> for all but the last.\<close>

definition link_descriptors :: "nat \<Rightarrow> descriptor list \<Rightarrow> descriptor list" where
  "link_descriptors n ds =
     fold (\<lambda>i ds. ds[i := (ds ! i)\<lparr> d_next := i + 1 \<rparr>]) [0..<n - 1] ds"

text \<open>\<open>dma_addr + offset\<close> in u64: an overflow panics.\<close>

definition dma_offset :: "64 word \<Rightarrow> nat \<Rightarrow> (virtio_error, 64 word) outcome" where
  "dma_offset dma_addr off =
     (if 2 ^ 64 \<le> unat dma_addr + off then Panic else Ok (dma_addr + word_of_nat off))"

text \<open>
  \<open>mem\<close> is the memory at \<open>dma_addr\<close> as the host left it; the caller passes at least
  \<open>queue_size\<close> descriptors.
\<close>

definition virtqueue_new ::
    "virtio_transport \<Rightarrow> nat \<Rightarrow> 64 word \<Rightarrow> nat \<Rightarrow> vq_memory \<Rightarrow> (virtio_error, virtqueue) outcome" where
  "virtqueue_new header idx dma_addr n mem =
     (if \<not> is_power_of_two n then Err VqInvalidParameter
      else rbind (get_queue_max_size header) (\<lambda>max_size.
        if max_size < n \<or> MAX_QUEUE_SIZE < n then Err VqInvalidParameter
        else rbind (ok_or CreateVirtioQueue (virtqueue_layout_new n)) (\<lambda>layout.
        rbind (set_descriptors_address header dma_addr) (\<lambda>_.
        rbind (dma_offset dma_addr (avail_offset layout)) (\<lambda>avail.
        rbind (set_avail_ring header avail) (\<lambda>_.
        rbind (dma_offset dma_addr (used_offset layout)) (\<lambda>used.
        rbind (set_used_ring header used) (\<lambda>_.
          Ok \<lparr> vq_desc = link_descriptors n (take n (vq_desc mem)),
               avail_ring = avail_ring mem, avail_shared_idx = avail_shared_idx mem,
               used_event = used_event mem, used_idx = used_idx mem, used_ring = used_ring mem,
               queue_idx = word_of_nat idx, queue_size = n, num_used = 0, free_head = 0,
               avail_idx = 0, last_used_idx = 0,
               desc_shadow = link_descriptors n (replicate MAX_QUEUE_SIZE shadow_default),
               in_use = 0, is_head = 0 \<rparr>))))))))"

text \<open>\<open>1u32 << i\<close>, which panics for a shift of 32 or more.\<close>

definition bit_mask :: "nat \<Rightarrow> 32 word" where
  "bit_mask i = push_bit i 1"

definition add_descriptor ::
    "virtqueue_buf \<Rightarrow> 16 word \<Rightarrow> virtqueue \<Rightarrow> (virtio_error, nat) outcome \<times> virtqueue" where
  "add_descriptor buf flag q =
     (let index = free_head q in
      if length (vq_desc q) \<le> index then (Err InvalidDescriptorIndex, q)
      else
        let q1 = q\<lparr> vq_desc := (vq_desc q)[index := (vq_desc q ! index)
                      \<lparr> d_addr := buf_addr buf, d_len := buf_len buf, d_flags := flag \<rparr>] \<rparr> in
        if length (desc_shadow q1) \<le> index \<or> 32 \<le> index then (Panic, q1)
        else
          let shadow = (desc_shadow q1 ! index)
                \<lparr> d_addr := buf_addr buf, d_len := buf_len buf, d_flags := flag \<rparr> in
          (Ok index,
           q1\<lparr> desc_shadow := (desc_shadow q1)[index := shadow], free_head := d_next shadow,
               in_use := in_use q1 OR bit_mask index \<rparr>))"

text \<open>The loops over the two buffer lists; \<open>lst\<close> is the last descriptor taken.\<close>

fun add_descriptors ::
    "virtqueue_buf list \<Rightarrow> 16 word \<Rightarrow> nat \<Rightarrow> virtqueue \<Rightarrow> (virtio_error, nat) outcome \<times> virtqueue" where
  "add_descriptors [] flag lst q = (Ok lst, q)"
| "add_descriptors (buf # bufs) flag lst q =
     (case add_descriptor buf flag q of
        (Ok i, q') \<Rightarrow> add_descriptors bufs flag i q'
      | (Err e, q') \<Rightarrow> (Err e, q')
      | (Panic, q') \<Rightarrow> (Panic, q'))"

text \<open>The rest of \<open>add\<close>, once the descriptors are taken.\<close>

definition publish_chain ::
    "nat \<Rightarrow> nat \<Rightarrow> nat \<Rightarrow> virtqueue \<Rightarrow> (virtio_error, nat) outcome \<times> virtqueue" where
  "publish_chain head lst n_bufs q =
     (if length (desc_shadow q) \<le> lst then (Err InvalidDescriptorIndex, q)
      else
        let flags = d_flags (desc_shadow q ! lst) AND NOT DESC_NEXT;
            q1 = q\<lparr> desc_shadow := (desc_shadow q)[lst := (desc_shadow q ! lst)\<lparr> d_flags := flags \<rparr>] \<rparr> in
        if length (vq_desc q1) \<le> lst then (Err InvalidDescriptorIndex, q1)
        else
          let q2 = q1\<lparr> vq_desc := (vq_desc q1)[lst := (vq_desc q1 ! lst)\<lparr> d_flags := flags \<rparr>],
                       num_used := num_used q1 + n_bufs \<rparr> in
          if 32 \<le> head then (Panic, q2)
          else
            let q3 = q2\<lparr> is_head := is_head q2 OR bit_mask head \<rparr>;
                slot = unat (avail_idx q3 AND word_of_nat (queue_size q3 - 1)) in
            if length (avail_ring q3) \<le> slot then (Err InvalidDescriptorIndex, q3)
            else
              (Ok head,
               q3\<lparr> avail_ring := (avail_ring q3)[slot := head],
                   avail_idx := avail_idx q3 + 1,
                   avail_shared_idx := avail_idx q3 + 1,
                   used_event := avail_idx q3 + 1 \<rparr>))"

definition add ::
    "virtqueue_buf list \<Rightarrow> virtqueue_buf list \<Rightarrow> virtqueue
     \<Rightarrow> (virtio_error, nat) outcome \<times> virtqueue" where
  "add g2h h2g q =
     (if g2h = [] \<and> h2g = [] then (Err VqInvalidParameter, q)
      else if queue_size q < length g2h + length h2g + num_used q then (Err BufferTooSmall, q)
      else
        let head = free_head q in
        (case add_descriptors g2h DESC_NEXT (free_head q) q of
           (Ok last1, q1) \<Rightarrow>
             (case add_descriptors h2g (DESC_NEXT OR DESC_WRITE) last1 q1 of
                (Ok last2, q2) \<Rightarrow> publish_chain head last2 (length g2h + length h2g) q2
              | r \<Rightarrow> r)
         | r \<Rightarrow> r))"

definition can_pop :: "virtqueue \<Rightarrow> bool" where
  "can_pop q \<longleftrightarrow> last_used_idx q \<noteq> used_idx q"

text \<open>\<open>queue_size - num_used\<close> in u16: an underflow panics.\<close>

definition available_desc :: "virtqueue \<Rightarrow> (virtio_error, nat) outcome" where
  "available_desc q =
     (if queue_size q < num_used q then Panic else Ok (queue_size q - num_used q))"

definition saturating_add_u32 :: "32 word \<Rightarrow> 32 word \<Rightarrow> 32 word" where
  "saturating_add_u32 a b = word_of_nat (min (unat a + unat b) (2 ^ 32 - 1))"

text \<open>
  The loop of \<open>recycle_descriptors\<close>; it returns the two output lists along with the result.  Each
  iteration takes one slot out of use, so it ends.
\<close>

function recycle_loop ::
    "nat \<Rightarrow> nat \<Rightarrow> 32 word \<Rightarrow> virtqueue_buf list \<Rightarrow> virtqueue_buf list \<Rightarrow> virtqueue
     \<Rightarrow> (virtio_error, 32 word) outcome \<times> virtqueue_buf list \<times> virtqueue_buf list \<times> virtqueue" where
  "recycle_loop head origin recorded_len g2h h2g q =
     (if num_used q = 0 then (Ok recorded_len, g2h, h2g, q)
      else if queue_size q \<le> head then (Err InvalidDescriptor, g2h, h2g, q)
      else if 32 \<le> head then (Panic, g2h, h2g, q)
      else if in_use q AND bit_mask head = 0 then (Err InvalidDescriptor, g2h, h2g, q)
      else if length (desc_shadow q) \<le> head then (Panic, g2h, h2g, q)
      else
        let shadow = desc_shadow q ! head;
            flags = d_flags shadow;
            q1 = q\<lparr> in_use := in_use q AND NOT (bit_mask head),
                    is_head := is_head q AND NOT (bit_mask head),
                    num_used := num_used q - 1 \<rparr>;
            len = saturating_add_u32 recorded_len (d_len shadow);
            buf = \<lparr> buf_addr = d_addr shadow, buf_len = d_len shadow \<rparr>;
            write = flags_contain flags DESC_WRITE;
            g2h' = (if write then g2h else g2h @ [buf]);
            h2g' = (if write then h2g @ [buf] else h2g) in
        if flags_contain flags DESC_NEXT
        then
          if num_used q1 = 0 then (Err InvalidDescriptor, g2h', h2g', q1)
          else recycle_loop (d_next shadow) origin len g2h' h2g' q1
        else
          let q2 = q1\<lparr> desc_shadow := (desc_shadow q1)[head := shadow\<lparr> d_next := origin \<rparr>] \<rparr> in
          if length (vq_desc q2) \<le> head then (Err InvalidDescriptorIndex, g2h', h2g', q2)
          else (Ok len, g2h', h2g',
                q2\<lparr> vq_desc := (vq_desc q2)[head := (vq_desc q2 ! head)\<lparr> d_next := origin \<rparr>] \<rparr>))"
  by pat_completeness auto
termination
  by (relation "measure (\<lambda>(head, origin, len, g2h, h2g, q). num_used q)") (auto simp: Let_def)

definition recycle_descriptors ::
    "nat \<Rightarrow> virtqueue_buf list \<Rightarrow> virtqueue_buf list \<Rightarrow> virtqueue
     \<Rightarrow> (virtio_error, 32 word) outcome \<times> virtqueue_buf list \<times> virtqueue_buf list \<times> virtqueue" where
  "recycle_descriptors head g2h h2g q =
     recycle_loop head (free_head q) 0 g2h h2g (q\<lparr> free_head := head \<rparr>)"

definition pop_used ::
    "virtqueue_buf list \<Rightarrow> virtqueue_buf list \<Rightarrow> virtqueue
     \<Rightarrow> (virtio_error, 32 word) outcome \<times> virtqueue_buf list \<times> virtqueue_buf list \<times> virtqueue" where
  "pop_used g2h h2g q =
     (if \<not> can_pop q then (Err VqNotReady, g2h, h2g, q)
      else
        let slot = unat (last_used_idx q AND word_of_nat (queue_size q - 1)) in
        if length (used_ring q) \<le> slot then (Err InvalidRingIndex, g2h, h2g, q)
        else
          let index = unat (fst (used_ring q ! slot)) mod 2 ^ 16;
              len = snd (used_ring q ! slot) in
          if queue_size q \<le> index then (Err InvalidDescriptor, g2h, h2g, q)
          else if 32 \<le> index then (Panic, g2h, h2g, q)
          else if in_use q AND bit_mask index = 0 \<or> is_head q AND bit_mask index = 0
          then (Err InvalidDescriptor, g2h, h2g, q)
          else
            (case recycle_descriptors index g2h h2g q of
               (Ok recorded_len, g2h', h2g', q') \<Rightarrow>
                 (Ok (min len recorded_len), g2h', h2g',
                  q'\<lparr> last_used_idx := last_used_idx q' + 1 \<rparr>)
             | r \<Rightarrow> r))"

section \<open>Bitmaps, flags and links\<close>

lemma bit_bit_mask [simp]: "bit (bit_mask i) j \<longleftrightarrow> j = i \<and> j < 32"
  by (auto simp: bit_mask_def bit_exp_iff)

lemma and_bit_mask_eq_0: "i < 32 \<Longrightarrow> w AND bit_mask i = 0 \<longleftrightarrow> \<not> bit w i"
proof
  assume "i < 32" "w AND bit_mask i = 0"
  then have "\<not> bit (w AND bit_mask i) i" by simp
  with \<open>i < 32\<close> show "\<not> bit w i" by (simp add: bit_and_iff)
next
  assume "\<not> bit w i"
  then show "w AND bit_mask i = 0" by (intro bit_word_eqI) (auto simp: bit_and_iff)
qed

lemma and_eq_mask: "(f :: 16 word) AND 2 ^ i = 2 ^ i \<longleftrightarrow> bit f i" if "i < 16"
proof
  assume "f AND 2 ^ i = 2 ^ i"
  then have "bit (f AND 2 ^ i) i" using that by (simp add: bit_exp_iff)
  then show "bit f i" by (simp add: bit_and_iff)
next
  assume "bit f i"
  then show "f AND 2 ^ i = 2 ^ i" by (intro bit_word_eqI) (auto simp: bit_and_iff bit_exp_iff)
qed

lemma contains_next: "flags_contain f DESC_NEXT \<longleftrightarrow> bit f 0"
  using and_eq_mask [of 0 f] by (simp add: flags_contain_def DESC_NEXT_def)

lemma contains_write: "flags_contain f DESC_WRITE \<longleftrightarrow> bit f (Suc 0)"
  using and_eq_mask [of 1 f] by (simp add: flags_contain_def DESC_WRITE_def)

lemma bit_two: "bit (2 :: 16 word) i \<longleftrightarrow> i = 1"
  using bit_exp_iff [where 'a = "16 word", of 1 i] by auto

lemma flag_bits [simp]:
  "bit (DESC_NEXT) 0" "\<not> bit DESC_NEXT (Suc 0)" "bit (DESC_NEXT OR DESC_WRITE) 0"
  "bit (DESC_NEXT OR DESC_WRITE) (Suc 0)"
  "\<not> bit (f AND NOT DESC_NEXT) 0" "bit (f AND NOT DESC_NEXT) (Suc 0) = bit f (Suc 0)"
  by (auto simp: DESC_NEXT_def DESC_WRITE_def bit_simps bit_two)

text \<open>\<open>path nxt h xs t\<close>: following the links from \<open>h\<close> visits \<open>xs\<close> and arrives at \<open>t\<close>.\<close>

fun path :: "(nat \<Rightarrow> nat) \<Rightarrow> nat \<Rightarrow> nat list \<Rightarrow> nat \<Rightarrow> bool" where
  "path nxt h [] t \<longleftrightarrow> h = t"
| "path nxt h (x # xs) t \<longleftrightarrow> h = x \<and> path nxt (nxt x) xs t"

lemma path_append: "path nxt h (xs @ ys) t \<longleftrightarrow> (\<exists>m. path nxt h xs m \<and> path nxt m ys t)"
  by (induction xs arbitrary: h) auto

lemma path_cong: "(\<And>x. x \<in> set xs \<Longrightarrow> nxt x = nxt' x) \<Longrightarrow> path nxt h xs t = path nxt' h xs t"
  by (induction xs arbitrary: h) auto

text \<open>A slot as the caller knows it: its buffer, and whether the host may write it.\<close>

definition entry :: "descriptor \<Rightarrow> virtqueue_buf \<times> bool" where
  "entry d = (\<lparr> buf_addr = d_addr d, buf_len = d_len d \<rparr>, flags_contain (d_flags d) DESC_WRITE)"

text \<open>A complete chain in the shadow: linked, with \<open>NEXT\<close> on all slots but the last.\<close>

definition vchain :: "descriptor list \<Rightarrow> nat list \<Rightarrow> bool" where
  "vchain sh c \<longleftrightarrow> c \<noteq> [] \<and> path (\<lambda>i. d_next (sh ! i)) (hd c) (butlast c) (last c)
     \<and> (\<forall>i \<in> set (butlast c). bit (d_flags (sh ! i)) 0) \<and> \<not> bit (d_flags (sh ! last c)) 0"

lemma vchain_single: "vchain sh [x] \<longleftrightarrow> \<not> bit (d_flags (sh ! x)) 0"
  by (simp add: vchain_def)

lemma vchain_Cons:
  "c \<noteq> [] \<Longrightarrow> vchain sh (x # c) \<longleftrightarrow> bit (d_flags (sh ! x)) 0 \<and> d_next (sh ! x) = hd c \<and> vchain sh c"
  by (cases c) (auto simp: vchain_def)

lemma vchain_cong: "(\<And>i. i \<in> set c \<Longrightarrow> sh ! i = sh' ! i) \<Longrightarrow> vchain sh c = vchain sh' c"
proof (induction c)
  case (Cons x c)
  then show ?case by (cases "c = []") (auto simp: vchain_single vchain_Cons)
qed (simp add: vchain_def)

section \<open>Invariant\<close>

text \<open>
  The ghost arguments are the free list and the outstanding chains, as slot numbers.  Nothing is
  said about the contents of the shared memory, only about its size: the host may write any of it.
\<close>

definition vq_inv :: "virtqueue \<Rightarrow> nat list \<Rightarrow> nat list list \<Rightarrow> bool" where
  "vq_inv q free cs \<longleftrightarrow>
     0 < queue_size q \<and> queue_size q \<le> 32
     \<and> length (vq_desc q) = queue_size q \<and> length (avail_ring q) = 32
     \<and> length (used_ring q) = 32 \<and> length (desc_shadow q) = 32
     \<and> distinct (free @ concat cs) \<and> set (free @ concat cs) = {..<queue_size q}
     \<and> num_used q = length (concat cs)
     \<and> (\<exists>t. path (\<lambda>i. d_next (desc_shadow q ! i)) (free_head q) free t)
     \<and> (\<forall>c \<in> set cs. vchain (desc_shadow q) c)
     \<and> (\<forall>i. bit (in_use q) i \<longleftrightarrow> i \<in> set (concat cs))
     \<and> (\<forall>i. bit (is_head q) i \<longleftrightarrow> i \<in> hd ` set cs)"

definition vq_wf :: "virtqueue \<Rightarrow> bool" where
  "vq_wf q \<longleftrightarrow> (\<exists>free cs. vq_inv q free cs)"

text \<open>The chains the driver has handed to the device, by head; read from the shadow.\<close>

fun read_chain :: "nat \<Rightarrow> descriptor list \<Rightarrow> nat \<Rightarrow> (virtqueue_buf \<times> bool) list" where
  "read_chain 0 sh h = []"
| "read_chain (Suc n) sh h =
     entry (sh ! h)
       # (if flags_contain (d_flags (sh ! h)) DESC_NEXT then read_chain n sh (d_next (sh ! h)) else [])"

definition outstanding :: "virtqueue \<Rightarrow> nat \<Rightarrow> (virtqueue_buf \<times> bool) list option" where
  "outstanding q h =
     (if bit (is_head q) h then Some (read_chain (num_used q) (desc_shadow q) h) else None)"

lemma read_chain_eq:
  "vchain sh c \<Longrightarrow> length c \<le> n \<Longrightarrow> read_chain n sh (hd c) = map (\<lambda>i. entry (sh ! i)) c"
proof (induction c arbitrary: n)
  case (Cons x c)
  then obtain m where "n = Suc m" by (cases n) auto
  with Cons show ?case by (cases "c = []") (auto simp: vchain_single vchain_Cons contains_next)
qed (simp add: vchain_def)

lemma length_chain_le: "c \<in> set cs \<Longrightarrow> length c \<le> length (concat cs)"
  by (induction cs) auto

lemma outstanding_chain:
  assumes "vq_inv q free cs" and "c \<in> set cs"
  shows "outstanding q (hd c) = Some (map (\<lambda>i. entry (desc_shadow q ! i)) c)"
  using assms length_chain_le [OF assms(2)]
  by (auto simp: outstanding_def vq_inv_def intro!: read_chain_eq)

lemma outstanding_None: "vq_inv q free cs \<Longrightarrow> outstanding q h = None \<longleftrightarrow> h \<notin> hd ` set cs"
  by (simp add: outstanding_def vq_inv_def)

lemma vchain_Nil [simp]: "\<not> vchain sh []"
  by (simp add: vchain_def)

lemma head_inj:
  assumes "vq_inv q free cs" and "c \<in> set cs" "d \<in> set cs" and "hd c = hd d"
  shows "c = d"
proof -
  have "distinct (concat cs)" "c \<noteq> []" "d \<noteq> []"
    using assms by (auto simp: vq_inv_def)
  then have "c \<noteq> d \<Longrightarrow> set c \<inter> set d = {}"
    using assms(2,3) by (auto simp: distinct_concat_iff)
  then show ?thesis using \<open>c \<noteq> []\<close> \<open>d \<noteq> []\<close> assms(4) by (metis disjoint_iff hd_in_set)
qed

section \<open>Adding buffers\<close>

text \<open>
  What taking the slots \<open>xs\<close> from the free list for the buffers \<open>es\<close> does to a queue: only the
  descriptors, the free head and the bitmap change, and the shadow only at those slots.
\<close>

definition same_rest :: "virtqueue \<Rightarrow> virtqueue \<Rightarrow> bool" where
  "same_rest q q' \<longleftrightarrow>
     avail_ring q' = avail_ring q \<and> avail_shared_idx q' = avail_shared_idx q
     \<and> used_event q' = used_event q \<and> used_idx q' = used_idx q \<and> used_ring q' = used_ring q
     \<and> queue_idx q' = queue_idx q \<and> queue_size q' = queue_size q \<and> num_used q' = num_used q
     \<and> avail_idx q' = avail_idx q \<and> last_used_idx q' = last_used_idx q \<and> is_head q' = is_head q"

definition took :: "virtqueue \<Rightarrow> nat list \<Rightarrow> (virtqueue_buf \<times> bool) list \<Rightarrow> virtqueue \<Rightarrow> bool" where
  "took q xs es q' \<longleftrightarrow>
     same_rest q q'
     \<and> length (vq_desc q') = length (vq_desc q) \<and> length (desc_shadow q') = length (desc_shadow q)
     \<and> path (\<lambda>i. d_next (desc_shadow q ! i)) (free_head q) xs (free_head q')
     \<and> (\<forall>i. d_next (desc_shadow q' ! i) = d_next (desc_shadow q ! i))
     \<and> (\<forall>i. i \<notin> set xs \<longrightarrow> desc_shadow q' ! i = desc_shadow q ! i)
     \<and> (\<forall>i \<in> set xs. bit (d_flags (desc_shadow q' ! i)) 0)
     \<and> map (\<lambda>i. entry (desc_shadow q' ! i)) xs = es
     \<and> (\<forall>i. bit (in_use q') i \<longleftrightarrow> bit (in_use q) i \<or> i \<in> set xs)"

lemma took_Nil: "took q [] [] q"
  by (simp add: took_def same_rest_def)

lemma took_one:
  assumes "free_head q = x" and "x < length (vq_desc q)" and "x < 32"
    and "length (desc_shadow q) = 32" and "bit flag 0"
  shows "\<exists>q'. add_descriptor b flag q = (Ok x, q') \<and> took q [x] [(b, bit flag (Suc 0))] q'
    \<and> free_head q' = d_next (desc_shadow q ! x)"
proof -
  have "d_next (((desc_shadow q)[x := (desc_shadow q ! x)
      \<lparr> d_addr := buf_addr b, d_len := buf_len b, d_flags := flag \<rparr>]) ! i)
      = d_next (desc_shadow q ! i)" for i
    using assms by (cases "i = x") simp_all
  then show ?thesis
    using assms
    by (auto simp: add_descriptor_def took_def same_rest_def Let_def entry_def contains_write bit_or_iff)
qed

lemma took_trans:
  assumes "took q xs es q1" and "took q1 ys fs q2" and "set xs \<inter> set ys = {}"
  shows "took q (xs @ ys) (es @ fs) q2"
proof -
  note d = assms(1,2) [unfolded took_def]
  have upd: "same_rest q q2" using d by (simp add: same_rest_def)
  have keep: "desc_shadow q2 ! i = desc_shadow q1 ! i" if "i \<in> set xs" for i
    using d assms(3) that by blast
  have "path (\<lambda>i. d_next (desc_shadow q ! i)) (free_head q) (xs @ ys) (free_head q2)"
    using d by (auto simp: path_append)
  moreover have "map (\<lambda>i. entry (desc_shadow q2 ! i)) xs = es"
    using d keep by (metis (no_types, lifting) map_eq_conv)
  moreover have "\<forall>i \<in> set (xs @ ys). bit (d_flags (desc_shadow q2 ! i)) 0"
    using d keep by (metis Un_iff set_append)
  ultimately show ?thesis
    unfolding took_def using upd d by auto
qed

lemma add_descriptors_took:
  assumes "path (\<lambda>i. d_next (desc_shadow q ! i)) (free_head q) xs m"
    and "length xs = length bufs" and "distinct xs"
    and "set xs \<subseteq> {..<length (vq_desc q)}" and "length (vq_desc q) \<le> 32"
    and "length (desc_shadow q) = 32" and "bit flag 0"
  shows "\<exists>q'. add_descriptors bufs flag lst q = (Ok (last (lst # xs)), q')
    \<and> took q xs (map (\<lambda>b. (b, bit flag (Suc 0))) bufs) q'"
  using assms
proof (induction bufs arbitrary: q xs lst)
  case Nil
  then show ?case by (simp add: took_Nil)
next
  case (Cons b bufs)
  then obtain x ys where xs: "xs = x # ys" by (cases xs) auto
  with Cons.prems have x: "free_head q = x" "x < length (vq_desc q)" "x < 32" by auto
  from took_one [OF x Cons.prems(6,7)] obtain q1 where
    1: "add_descriptor b flag q = (Ok x, q1)" "took q [x] [(b, bit flag (Suc 0))] q1"
      "free_head q1 = d_next (desc_shadow q ! x)" by blast
  have q1: "length (vq_desc q1) = length (vq_desc q)" "length (desc_shadow q1) = 32"
      "\<And>i. d_next (desc_shadow q1 ! i) = d_next (desc_shadow q ! i)"
    using 1(2) Cons.prems(6) by (simp_all add: took_def)
  have "path (\<lambda>i. d_next (desc_shadow q1 ! i)) (free_head q1) ys m"
    using Cons.prems(1) by (simp add: xs q1 1)
  from Cons.IH [OF this, of x] obtain q2 where
    2: "add_descriptors bufs flag x q1 = (Ok (last (x # ys)), q2)"
      "took q1 ys (map (\<lambda>b. (b, bit flag (Suc 0))) bufs) q2"
    using Cons.prems xs q1 by auto
  have "set [x] \<inter> set ys = {}" using Cons.prems(3) xs by simp
  from took_trans [OF 1(2) 2(2) this] show ?case using 1(1) 2(1) xs by simp
qed

lemma path_butlast: "xs \<noteq> [] \<Longrightarrow> path nxt h xs t \<Longrightarrow> path nxt h (butlast xs) (last xs)"
  using path_append [of nxt h "butlast xs" "[last xs]"] by auto

lemma path_hd: "xs \<noteq> [] \<Longrightarrow> path nxt h xs t \<Longrightarrow> hd xs = h"
  by (cases xs) auto

lemma path_functional: "path nxt h xs t \<Longrightarrow> path nxt h xs t' \<Longrightarrow> t = t'"
  by (induction xs arbitrary: h) auto

lemma last_notin_butlast: "distinct xs \<Longrightarrow> xs \<noteq> [] \<Longrightarrow> last xs \<notin> set (butlast xs)"
  by (induction xs) auto

lemma ring_slot_less:
  assumes "0 < n" and "n \<le> 32"
  shows "unat (w AND word_of_nat (n - 1) :: 16 word) < 32"
proof -
  have "unat (w AND word_of_nat (n - 1) :: 16 word) \<le> unat (word_of_nat (n - 1) :: 16 word)"
    using word_and_le1 by (simp add: word_le_nat_alt)
  also have "\<dots> \<le> n - 1" by (simp add: unsigned_of_nat take_bit_eq_mod)
  finally show ?thesis using assms by simp
qed

text \<open>The state after \<open>publish_chain\<close> on a queue that has just taken the slots of the chain.\<close>

lemma publish_chain_eq:
  assumes "lst < length (desc_shadow q)" and "lst < length (vq_desc q)" and "head < 32"
    and "0 < queue_size q" and "queue_size q \<le> 32" and "length (avail_ring q) = 32"
  shows "\<exists>q'. publish_chain head lst n_bufs q = (Ok head, q')
    \<and> desc_shadow q' = (desc_shadow q)[lst := (desc_shadow q ! lst)
        \<lparr> d_flags := d_flags (desc_shadow q ! lst) AND NOT DESC_NEXT \<rparr>]
    \<and> length (vq_desc q') = length (vq_desc q) \<and> length (avail_ring q') = 32
    \<and> used_ring q' = used_ring q \<and> queue_size q' = queue_size q
    \<and> num_used q' = num_used q + n_bufs \<and> free_head q' = free_head q \<and> in_use q' = in_use q
    \<and> is_head q' = is_head q OR bit_mask head \<and> last_used_idx q' = last_used_idx q
    \<and> avail_idx q' = avail_idx q + 1 \<and> avail_shared_idx q' = avail_idx q + 1
    \<and> avail_ring q' ! unat (avail_idx q AND word_of_nat (queue_size q - 1)) = head"
  using assms ring_slot_less [OF assms(4,5), of "avail_idx q"]
  by (simp add: publish_chain_def Let_def)

text \<open>Publishing a taken chain re-establishes the invariant.\<close>

lemma took_publish_inv:
  assumes inv: "vq_inv q (xs @ free) cs" and took: "took q xs es q2" and ne: "xs \<noteq> []"
    and sh: "desc_shadow q' = (desc_shadow q2)[last xs := (desc_shadow q2 ! last xs)
        \<lparr> d_flags := d_flags (desc_shadow q2 ! last xs) AND NOT DESC_NEXT \<rparr>]"
    and rest: "length (vq_desc q') = length (vq_desc q2)" "length (avail_ring q') = 32"
      "used_ring q' = used_ring q2" "queue_size q' = queue_size q2"
      "num_used q' = num_used q2 + length xs" "free_head q' = free_head q2" "in_use q' = in_use q2"
      "is_head q' = is_head q2 OR bit_mask (hd xs)"
  shows "vq_inv q' free (cs @ [xs])"
    and "map (\<lambda>i. entry (desc_shadow q' ! i)) xs = es"
    and "\<And>i. i \<notin> set xs \<Longrightarrow> desc_shadow q' ! i = desc_shadow q ! i"
proof -
  note I = inv [unfolded vq_inv_def] and T = took [unfolded took_def same_rest_def]
  have size: "queue_size q \<le> 32" "length (desc_shadow q2) = 32" using I T by auto
  have below: "set xs \<subseteq> {..<queue_size q}" using I by (metis Un_upper1 set_append subset_trans)
  have "last xs \<in> set xs" using ne by simp
  then have lst: "last xs < length (desc_shadow q2)" "last xs \<in> set xs" using below size by auto
  have T2: "\<And>i. d_next (desc_shadow q2 ! i) = d_next (desc_shadow q ! i)"
    "\<And>i. i \<notin> set xs \<Longrightarrow> desc_shadow q2 ! i = desc_shadow q ! i"
    "\<And>i. i \<in> set xs \<Longrightarrow> bit (d_flags (desc_shadow q2 ! i)) 0"
    using T by blast+
  have nxt: "d_next (desc_shadow q' ! i) = d_next (desc_shadow q ! i)" for i
    using T2(1) lst by (cases "i = last xs") (simp_all add: sh)
  have flag: "bit (d_flags (desc_shadow q' ! i)) 0 \<longleftrightarrow> i \<noteq> last xs" if "i \<in> set xs" for i
    using T2(3) lst that by (cases "i = last xs") (simp_all add: sh)
  have "entry (desc_shadow q' ! i) = entry (desc_shadow q2 ! i)" for i
    using lst by (cases "i = last xs") (simp_all add: sh entry_def contains_write)
  then show "map (\<lambda>i. entry (desc_shadow q' ! i)) xs = es" using T by simp
  show keep: "desc_shadow q' ! i = desc_shadow q ! i" if "i \<notin> set xs" for i
    using T2(2) [OF that] lst(2) that by (metis nth_list_update_neq sh)
  have p: "path (\<lambda>i. d_next (desc_shadow q' ! i)) (free_head q) xs (free_head q2)"
    using T by (simp add: nxt)
  have "distinct xs" using I by simp
  then have "vchain (desc_shadow q') xs"
    using path_butlast [OF ne p] path_hd [OF ne p] flag lst(2) ne last_notin_butlast
    by (metis in_set_butlastD vchain_def)
  moreover have "vchain (desc_shadow q') c" if "c \<in> set cs" for c
  proof -
    have "set xs \<inter> set c = {}" using I that by auto
    then have "\<And>i. i \<in> set c \<Longrightarrow> desc_shadow q' ! i = desc_shadow q ! i" using keep by blast
    from vchain_cong [OF this] show ?thesis using I that by blast
  qed
  ultimately have ch: "\<forall>c \<in> set (cs @ [xs]). vchain (desc_shadow q') c" by simp
  have fr: "\<exists>t. path (\<lambda>i. d_next (desc_shadow q' ! i)) (free_head q') free t"
  proof -
    obtain m t where "path (\<lambda>i. d_next (desc_shadow q ! i)) (free_head q) xs m"
      "path (\<lambda>i. d_next (desc_shadow q ! i)) m free t"
      using I by (auto simp: path_append)
    moreover have "m = free_head q2" using path_functional calculation(1) T by blast
    ultimately show ?thesis using rest by (auto simp: nxt)
  qed
  have use: "\<forall>i. bit (in_use q') i \<longleftrightarrow> i \<in> set (concat (cs @ [xs]))" using I T rest by simp
  have "hd xs < 32" using below size ne by (meson hd_in_set lessThan_iff order_less_le_trans subsetD)
  then have hd: "\<forall>i. bit (is_head q') i \<longleftrightarrow> i \<in> hd ` set (cs @ [xs])"
    using I T rest by (auto simp: bit_or_iff)
  have dis: "distinct (free @ concat (cs @ [xs]))" "set (free @ concat (cs @ [xs])) = {..<queue_size q'}"
    using I T rest by auto
  show "vq_inv q' free (cs @ [xs])"
    unfolding vq_inv_def using I T rest sh ch fr use hd dis by simp
qed

lemma vq_inv_free: "vq_inv q free cs \<Longrightarrow> length free + num_used q = queue_size q"
  unfolding vq_inv_def by (metis card_lessThan distinct_card length_append)

lemma add_slots:
  assumes inv: "vq_inv q free cs" and ne: "g2h \<noteq> [] \<or> h2g \<noteq> []"
    and fit: "length g2h + length h2g + num_used q \<le> queue_size q"
  shows "\<exists>q1 q2 lst xs free'. free = xs @ free' \<and> length xs = length g2h + length h2g
    \<and> add_descriptors g2h DESC_NEXT (free_head q) q = (Ok lst, q1)
    \<and> add_descriptors h2g (DESC_NEXT OR DESC_WRITE) lst q1 = (Ok (last xs), q2)
    \<and> took q xs (map (\<lambda>b. (b, False)) g2h @ map (\<lambda>b. (b, True)) h2g) q2"
proof -
  let ?G = "length g2h" and ?H = "length h2g"
  define xs ys where "xs = take ?G free" and "ys = take ?H (drop ?G free)"
  define free' where "free' = drop ?H (drop ?G free)"
  have free: "free = (xs @ ys) @ free'" by (simp only: xs_def ys_def free'_def append_assoc append_take_drop_id)
  have len: "length xs = ?G" "length ys = ?H"
    using vq_inv_free [OF inv] fit by (auto simp: xs_def ys_def)
  note I = inv [unfolded vq_inv_def]
  have dis: "distinct xs" "distinct ys" "set xs \<inter> set ys = {}" using I free by auto
  have "set (xs @ ys) \<subseteq> set (free @ concat cs)" using free by auto
  then have below: "set xs \<subseteq> {..<queue_size q}" "set ys \<subseteq> {..<queue_size q}" using I by auto
  obtain m1 m2 where p: "path (\<lambda>i. d_next (desc_shadow q ! i)) (free_head q) xs m1"
      "path (\<lambda>i. d_next (desc_shadow q ! i)) m1 ys m2"
    using I free by (auto simp: path_append)
  have sz: "length (vq_desc q) = queue_size q" "queue_size q \<le> 32" "length (desc_shadow q) = 32"
    using I by simp_all
  obtain q1 where 1: "add_descriptors g2h DESC_NEXT (free_head q) q = (Ok (last (free_head q # xs)), q1)"
      "took q xs (map (\<lambda>b. (b, False)) g2h) q1"
    using add_descriptors_took [OF p(1) len(1) dis(1), of DESC_NEXT "free_head q"] below sz by auto
  note T1 = 1(2) [unfolded took_def same_rest_def]
  have "free_head q1 = m1" using T1 p(1) path_functional by blast
  then have p2: "path (\<lambda>i. d_next (desc_shadow q1 ! i)) (free_head q1) ys m2" using T1 p(2) by simp
  have sz1: "length (vq_desc q1) = queue_size q" "length (desc_shadow q1) = 32" using T1 sz by simp_all
  obtain q2 where 2: "add_descriptors h2g (DESC_NEXT OR DESC_WRITE) (last (free_head q # xs)) q1
        = (Ok (last (last (free_head q # xs) # ys)), q2)"
      "took q1 ys (map (\<lambda>b. (b, True)) h2g) q2"
    using add_descriptors_took [OF p2 len(2) dis(2), of "DESC_NEXT OR DESC_WRITE"
        "last (free_head q # xs)"] below sz sz1 by auto
  note took = took_trans [OF 1(2) 2(2) dis(3)]
  have "xs @ ys \<noteq> []" using ne len by auto
  then have "last (last (free_head q # xs) # ys) = last (xs @ ys)" by (cases xs) auto
  then have "add_descriptors h2g (DESC_NEXT OR DESC_WRITE) (last (free_head q # xs)) q1
      = (Ok (last (xs @ ys)), q2)" using 2(1) by simp
  moreover have "length (xs @ ys) = length g2h + length h2g" using len by simp
  ultimately show ?thesis using free 1(1) took by blast
qed

lemma add_ok:
  assumes inv: "vq_inv q free cs" and ne: "g2h \<noteq> [] \<or> h2g \<noteq> []"
    and fit: "length g2h + length h2g + num_used q \<le> queue_size q"
  shows "\<exists>q' xs free'. add g2h h2g q = (Ok (free_head q), q') \<and> free = xs @ free' \<and> xs \<noteq> []
    \<and> hd xs = free_head q \<and> vq_inv q' free' (cs @ [xs])
    \<and> map (\<lambda>i. entry (desc_shadow q' ! i)) xs = map (\<lambda>b. (b, False)) g2h @ map (\<lambda>b. (b, True)) h2g
    \<and> (\<forall>i. i \<notin> set xs \<longrightarrow> desc_shadow q' ! i = desc_shadow q ! i)"
proof -
  let ?G = "length g2h" and ?H = "length h2g"
  from add_slots [OF assms] obtain q1 q2 lst xs free' where free: "free = xs @ free'"
    and len: "length xs = ?G + ?H" and 1: "add_descriptors g2h DESC_NEXT (free_head q) q = (Ok lst, q1)"
    and 2: "add_descriptors h2g (DESC_NEXT OR DESC_WRITE) lst q1 = (Ok (last xs), q2)"
    and took: "took q xs (map (\<lambda>b. (b, False)) g2h @ map (\<lambda>b. (b, True)) h2g) q2" by blast
  note I = inv [unfolded vq_inv_def] and T = took [unfolded took_def same_rest_def]
  have ne': "xs \<noteq> []" using ne len by auto
  have hd: "hd xs = free_head q" using T ne' path_hd by blast
  have sz2: "length (vq_desc q2) = queue_size q" "length (desc_shadow q2) = 32" using T I by simp_all
  have "set xs \<subseteq> {..<queue_size q}" using I free by (metis Un_upper1 set_append subset_trans)
  then have in_q: "last xs < queue_size q" "free_head q < queue_size q"
    using ne' hd by (metis hd_in_set last_in_set lessThan_iff subsetD)+
  obtain q' where pub: "publish_chain (free_head q) (last xs) (?G + ?H) q2 = (Ok (free_head q), q')"
    and Q: "desc_shadow q' = (desc_shadow q2)[last xs := (desc_shadow q2 ! last xs)
        \<lparr> d_flags := d_flags (desc_shadow q2 ! last xs) AND NOT DESC_NEXT \<rparr>]"
      "length (vq_desc q') = length (vq_desc q2)" "length (avail_ring q') = 32"
      "used_ring q' = used_ring q2" "queue_size q' = queue_size q2"
      "num_used q' = num_used q2 + length xs" "free_head q' = free_head q2" "in_use q' = in_use q2"
      "is_head q' = is_head q2 OR bit_mask (hd xs)"
    using publish_chain_eq [of "last xs" q2 "free_head q" "?G + ?H"] in_q sz2 T I hd len by auto
  have run: "add g2h h2g q = (Ok (free_head q), q')"
    using ne fit 1 2 pub by (auto simp: add_def)
  from took_publish_inv [OF inv [unfolded free] took ne' Q]
  show ?thesis using run free hd ne' by blast
qed

section \<open>Returning buffers\<close>

definition buffers_to :: "bool \<Rightarrow> (virtqueue_buf \<times> bool) list \<Rightarrow> virtqueue_buf list" where
  "buffers_to w es = map fst (filter (\<lambda>e. snd e = w) es)"

lemma buffers_to_simps [simp]:
  "buffers_to w [] = []"
  "buffers_to w (e # es) = (if snd e = w then fst e # buffers_to w es else buffers_to w es)"
  by (simp_all add: buffers_to_def)

text \<open>What recycling the chain \<open>c\<close> does: its slots leave both bitmaps, its last slot is linked to \<open>origin\<close>.\<close>

definition recycled :: "virtqueue \<Rightarrow> nat list \<Rightarrow> nat \<Rightarrow> virtqueue \<Rightarrow> bool" where
  "recycled q c origin q' \<longleftrightarrow>
     desc_shadow q' = (desc_shadow q)[last c := (desc_shadow q ! last c)\<lparr> d_next := origin \<rparr>]
     \<and> length (vq_desc q') = length (vq_desc q) \<and> avail_ring q' = avail_ring q
     \<and> used_ring q' = used_ring q \<and> queue_size q' = queue_size q
     \<and> num_used q' = num_used q - length c \<and> free_head q' = free_head q
     \<and> last_used_idx q' = last_used_idx q \<and> used_idx q' = used_idx q
     \<and> (\<forall>i. bit (in_use q') i \<longleftrightarrow> bit (in_use q) i \<and> i \<notin> set c)
     \<and> (\<forall>i. bit (is_head q') i \<longleftrightarrow> bit (is_head q) i \<and> i \<notin> set c)"

definition total_len :: "32 word \<Rightarrow> (virtqueue_buf \<times> bool) list \<Rightarrow> 32 word" where
  "total_len len es = foldl (\<lambda>l e. saturating_add_u32 l (buf_len (fst e))) len es"

declare recycle_loop.simps [simp del]

lemma recycle_loop_chain:
  assumes "vchain (desc_shadow q) c" and "distinct c" and "set c \<subseteq> {..<queue_size q}"
    and "\<forall>i \<in> set c. bit (in_use q) i" and "length c \<le> num_used q"
    and "queue_size q \<le> 32" and "length (desc_shadow q) = 32" and "length (vq_desc q) = queue_size q"
  defines "es \<equiv> map (\<lambda>i. entry (desc_shadow q ! i)) c"
  shows "\<exists>q'. recycle_loop (hd c) origin len g2h h2g q
      = (Ok (total_len len es), g2h @ buffers_to False es, h2g @ buffers_to True es, q')
    \<and> recycled q c origin q'"
  using assms(1-8) unfolding es_def
proof (induction c arbitrary: len g2h h2g q)
  case (Cons x c)
  let ?d = "desc_shadow q ! x"
  let ?q1 = "q\<lparr> in_use := in_use q AND NOT (bit_mask x), is_head := is_head q AND NOT (bit_mask x),
      num_used := num_used q - 1 \<rparr>"
  let ?e = "entry ?d"
  let ?len = "saturating_add_u32 len (d_len ?d)"
  have x: "x < queue_size q" "x < 32" "bit (in_use q) x" "0 < num_used q"
    using Cons.prems by auto
  have bits: "bit (in_use ?q1) i \<longleftrightarrow> bit (in_use q) i \<and> i \<noteq> x"
    "bit (is_head ?q1) i \<longleftrightarrow> bit (is_head q) i \<and> i \<noteq> x" for i
    using x by (auto simp: bit_and_iff bit_not_iff dest: bit_imp_le_length)
  have e: "fst ?e = \<lparr> buf_addr = d_addr ?d, buf_len = d_len ?d \<rparr>"
    "snd ?e = flags_contain (d_flags ?d) DESC_WRITE" by (simp_all add: entry_def)
  show ?case
  proof (cases "c = []")
    case True
    then have "\<not> flags_contain (d_flags ?d) DESC_NEXT"
      using Cons.prems(1) by (simp add: vchain_single contains_next)
    then show ?thesis
      using x True Cons.prems(7,8) e bits
      by (subst recycle_loop.simps)
         (auto simp: Let_def and_bit_mask_eq_0 total_len_def recycled_def)
  next
    case False
    then have ch: "flags_contain (d_flags ?d) DESC_NEXT" "d_next ?d = hd c" "vchain (desc_shadow ?q1) c"
      using Cons.prems(1) by (auto simp: vchain_Cons contains_next)
    have used: "num_used ?q1 \<noteq> 0" "length c \<le> num_used ?q1"
      using Cons.prems(5) False by (cases c; simp)+
    have "\<forall>i \<in> set c. bit (in_use ?q1) i" using Cons.prems(2,4) bits by auto
    from Cons.IH [OF ch(3) _ _ this used(2), of ?len
        "g2h @ buffers_to False [?e]" "h2g @ buffers_to True [?e]"] obtain q' where
      run: "recycle_loop (hd c) origin ?len (g2h @ buffers_to False [?e]) (h2g @ buffers_to True [?e]) ?q1
        = (Ok (total_len ?len (map (\<lambda>i. entry (desc_shadow q ! i)) c)),
           (g2h @ buffers_to False [?e]) @ buffers_to False (map (\<lambda>i. entry (desc_shadow q ! i)) c),
           (h2g @ buffers_to True [?e]) @ buffers_to True (map (\<lambda>i. entry (desc_shadow q ! i)) c), q')"
      and rec: "recycled ?q1 c origin q'"
      using Cons.prems by auto
    have "recycle_loop x origin len g2h h2g q
        = recycle_loop (hd c) origin ?len (g2h @ buffers_to False [?e]) (h2g @ buffers_to True [?e]) ?q1"
      using x Cons.prems(7) ch used(1) e
      by (subst recycle_loop.simps) (simp add: Let_def and_bit_mask_eq_0)
    moreover have "recycled q (x # c) origin q'"
      using rec False bits by (auto simp: recycled_def)
    ultimately show ?thesis using run e by (auto simp: total_len_def)
  qed
qed simp

lemma vq_inv_below: "vq_inv q free cs \<Longrightarrow> c \<in> set cs \<Longrightarrow> set c \<subseteq> {..<queue_size q}"
  unfolding vq_inv_def by (metis UN_upper Un_upper2 set_append set_concat subset_trans)

lemma vq_inv_sizes:
  "vq_inv q free cs \<Longrightarrow> 0 < queue_size q \<and> queue_size q \<le> 32 \<and> length (vq_desc q) = queue_size q
    \<and> length (avail_ring q) = 32 \<and> length (used_ring q) = 32 \<and> length (desc_shadow q) = 32"
  by (simp add: vq_inv_def)

lemma recycled_links:
  assumes inv: "vq_inv q free (as @ c # bs)" and rec: "recycled (q\<lparr> free_head := hd c \<rparr>) c (free_head q) q'"
  shows "\<exists>t. path (\<lambda>i. d_next (desc_shadow q' ! i)) (free_head q') (c @ free) t"
    and "\<forall>d \<in> set (as @ bs). vchain (desc_shadow q') d"
    and "\<And>d. d \<in> set (as @ bs) \<Longrightarrow>
      map (\<lambda>i. entry (desc_shadow q' ! i)) d = map (\<lambda>i. entry (desc_shadow q ! i)) d"
proof -
  note I = inv [unfolded vq_inv_def]
  have R: "desc_shadow q' = (desc_shadow q)[last c := (desc_shadow q ! last c)\<lparr> d_next := free_head q \<rparr>]"
      "free_head q' = hd c"
    using rec by (simp_all add: recycled_def)
  have ch: "vchain (desc_shadow q) c" using I by simp
  then have ne: "c \<noteq> []" by (simp add: vchain_def)
  have "distinct (free @ concat (as @ c # bs))" using I by blast
  then have dis: "distinct c" "set c \<inter> set free = {}" "set c \<inter> set (concat (as @ bs)) = {}"
    by auto
  have "set c \<subseteq> {..<queue_size q}" using vq_inv_below [OF inv, of c] by simp
  then have "last c < queue_size q" using last_in_set [OF ne] by blast
  then have lst: "last c < length (desc_shadow q)" "last c \<in> set c"
    using vq_inv_sizes [OF inv] last_in_set [OF ne] by auto
  have keep: "desc_shadow q' ! i = desc_shadow q ! i" if "i \<noteq> last c" for i
    using that by (simp add: R(1))
  have notin: "last c \<notin> set free" "\<And>d. d \<in> set (as @ bs) \<Longrightarrow> last c \<notin> set d"
    using dis lst(2) by auto
  then show "\<And>d. d \<in> set (as @ bs) \<Longrightarrow>
      map (\<lambda>i. entry (desc_shadow q' ! i)) d = map (\<lambda>i. entry (desc_shadow q ! i)) d"
    using keep by (metis (mono_tags, lifting) map_eq_conv)
  have "path (\<lambda>i. d_next (desc_shadow q ! i)) (hd c) (butlast c) (last c)"
    using ch by (simp add: vchain_def)
  then have "path (\<lambda>i. d_next (desc_shadow q' ! i)) (hd c) (butlast c) (last c)"
    by (rule path_cong [THEN iffD1, rotated]) (use keep last_notin_butlast [OF dis(1) ne] in metis)
  moreover have "d_next (desc_shadow q' ! last c) = free_head q" using lst by (simp add: R(1))
  ultimately have "path (\<lambda>i. d_next (desc_shadow q' ! i)) (hd c) (butlast c @ [last c]) (free_head q)"
    by (auto simp: path_append)
  then have pc: "path (\<lambda>i. d_next (desc_shadow q' ! i)) (hd c) c (free_head q)" using ne by simp
  obtain t where "path (\<lambda>i. d_next (desc_shadow q ! i)) (free_head q) free t" using I by blast
  then have "path (\<lambda>i. d_next (desc_shadow q' ! i)) (free_head q) free t"
    by (rule path_cong [THEN iffD1, rotated]) (use keep notin(1) in metis)
  with pc show "\<exists>t. path (\<lambda>i. d_next (desc_shadow q' ! i)) (free_head q') (c @ free) t"
    using R(2) by (auto simp: path_append)
  show "\<forall>d \<in> set (as @ bs). vchain (desc_shadow q') d"
  proof
    fix d
    assume d: "d \<in> set (as @ bs)"
    have "desc_shadow q ! i = desc_shadow q' ! i" if "i \<in> set d" for i
      using keep notin(2) [OF d] that by metis
    from vchain_cong [OF this] have "vchain (desc_shadow q) d = vchain (desc_shadow q') d" .
    moreover have "d \<in> set (as @ c # bs)" using d by auto
    ultimately show "vchain (desc_shadow q') d" using I by blast
  qed
qed

lemma recycled_inv:
  assumes inv: "vq_inv q free (as @ c # bs)" and rec: "recycled (q\<lparr> free_head := hd c \<rparr>) c (free_head q) q'"
  shows "vq_inv q' (c @ free) (as @ bs)"
proof -
  note I = inv [unfolded vq_inv_def] and links = recycled_links [OF assms]
  have R: "desc_shadow q' = (desc_shadow q)[last c := (desc_shadow q ! last c)\<lparr> d_next := free_head q \<rparr>]"
      "length (vq_desc q') = length (vq_desc q)" "avail_ring q' = avail_ring q" "used_ring q' = used_ring q"
      "queue_size q' = queue_size q" "num_used q' = num_used q - length c"
      "\<And>i. bit (in_use q') i \<longleftrightarrow> bit (in_use q) i \<and> i \<notin> set c"
      "\<And>i. bit (is_head q') i \<longleftrightarrow> bit (is_head q) i \<and> i \<notin> set c"
    using rec by (simp_all add: recycled_def)
  have slots: "distinct (free @ concat (as @ c # bs))" "set (free @ concat (as @ c # bs)) = {..<queue_size q}"
    using I by blast+
  have "vchain (desc_shadow q) c" using I by simp
  then have ne: "c \<noteq> []" by (simp add: vchain_def)
  have dis: "set c \<inter> set (concat (as @ bs)) = {}" using slots(1) by auto
  have use: "\<forall>i. bit (in_use q') i \<longleftrightarrow> i \<in> set (concat (as @ bs))"
  proof (intro allI)
    fix i
    have "bit (in_use q) i \<longleftrightarrow> i \<in> set (concat (as @ c # bs))" using I by blast
    then show "bit (in_use q') i \<longleftrightarrow> i \<in> set (concat (as @ bs))" using R(7) [of i] dis by auto
  qed
  have hdc: "hd d \<notin> set c" if "d \<in> set (as @ bs)" for d
    using dis that links(2) by (metis UN_I disjoint_iff hd_in_set set_concat vchain_Nil)
  have hds: "\<forall>i. bit (is_head q') i \<longleftrightarrow> i \<in> hd ` set (as @ bs)"
  proof (intro allI)
    fix i
    have "bit (is_head q) i \<longleftrightarrow> i \<in> hd ` set (as @ c # bs)" using I by blast
    then show "bit (is_head q') i \<longleftrightarrow> i \<in> hd ` set (as @ bs)"
      using R(8) [of i] hd_in_set [OF ne] hdc by auto
  qed
  have all: "distinct ((c @ free) @ concat (as @ bs))"
      "set ((c @ free) @ concat (as @ bs)) = {..<queue_size q'}"
    using slots R(5) by auto
  have "num_used q = length (concat (as @ c # bs))" using I by blast
  then have num: "num_used q' = length (concat (as @ bs))" using R(6) by simp
  show "vq_inv q' (c @ free) (as @ bs)"
    unfolding vq_inv_def using vq_inv_sizes [OF inv] R(1-5) links(1,2) use hds all num by simp
qed

lemma outstanding_cong:
  assumes "vq_inv q free cs" and "vq_inv q' free' cs'" and "c \<in> set cs" "c \<in> set cs'"
    and "map (\<lambda>i. entry (desc_shadow q' ! i)) c = map (\<lambda>i. entry (desc_shadow q ! i)) c"
  shows "outstanding q' (hd c) = outstanding q (hd c)"
  using outstanding_chain [OF assms(1,3)] outstanding_chain [OF assms(2,4)] assms(5) by simp

lemma add_outstanding:
  assumes inv: "vq_inv q free cs" and "g2h \<noteq> [] \<or> h2g \<noteq> []"
    and "length g2h + length h2g + num_used q \<le> queue_size q"
  shows "\<exists>q' free' cs'. add g2h h2g q = (Ok (free_head q), q') \<and> vq_inv q' free' cs'
    \<and> outstanding q (free_head q) = None
    \<and> outstanding q' = (outstanding q)(free_head q \<mapsto>
        map (\<lambda>b. (b, False)) g2h @ map (\<lambda>b. (b, True)) h2g)"
proof -
  from add_ok [OF assms] obtain q' xs free' where run: "add g2h h2g q = (Ok (free_head q), q')"
    and xs: "free = xs @ free'" "xs \<noteq> []" "hd xs = free_head q"
    and inv': "vq_inv q' free' (cs @ [xs])"
    and es: "map (\<lambda>i. entry (desc_shadow q' ! i)) xs
        = map (\<lambda>b. (b, False)) g2h @ map (\<lambda>b. (b, True)) h2g"
    and keep: "\<forall>i. i \<notin> set xs \<longrightarrow> desc_shadow q' ! i = desc_shadow q ! i" by blast
  have "distinct (free @ concat cs)" using inv by (simp add: vq_inv_def)
  then have dis: "c \<in> set cs \<Longrightarrow> set c \<inter> set xs = {}" for c using xs(1) by auto
  have ne: "c \<in> set cs \<Longrightarrow> c \<noteq> []" for c using inv by (auto simp: vq_inv_def)
  have fresh: "free_head q \<notin> hd ` set cs"
  proof
    assume "free_head q \<in> hd ` set cs"
    then obtain c where "c \<in> set cs" "hd c = hd xs" using xs(3) by auto
    with dis ne xs(2) show False by (metis disjoint_iff hd_in_set)
  qed
  have "outstanding q' h = ((outstanding q)(free_head q \<mapsto>
        map (\<lambda>b. (b, False)) g2h @ map (\<lambda>b. (b, True)) h2g)) h" for h
  proof (cases "h = free_head q")
    case True
    then show ?thesis using outstanding_chain [OF inv', of xs] es xs(3) by simp
  next
    case False
    show ?thesis
    proof (cases "h \<in> hd ` set cs")
      case True
      then obtain c where c: "c \<in> set cs" "h = hd c" by auto
      have "map (\<lambda>i. entry (desc_shadow q' ! i)) c = map (\<lambda>i. entry (desc_shadow q ! i)) c"
        using dis [OF c(1)] keep by auto
      with outstanding_cong [OF inv inv' c(1)] c False show ?thesis by simp
    next
      case none: False
      then have "outstanding q h = None" "outstanding q' h = None"
        using outstanding_None [OF inv] outstanding_None [OF inv'] False xs(3) by auto
      with False show ?thesis by simp
    qed
  qed
  then show ?thesis using run inv' fresh outstanding_None [OF inv] by blast
qed

lemma pop_outstanding:
  assumes inv: "vq_inv q free cs" and t: "outstanding q t = Some es"
  shows "\<exists>q' free' cs'. recycle_descriptors t g2h h2g q
      = (Ok (total_len 0 es), g2h @ buffers_to False es, h2g @ buffers_to True es, q')
    \<and> vq_inv q' free' cs' \<and> outstanding q' = (outstanding q)(t := None)
    \<and> last_used_idx q' = last_used_idx q"
proof -
  have "t \<in> hd ` set cs" using outstanding_None [OF inv, of t] t by auto
  then obtain c where c: "c \<in> set cs" "hd c = t" by auto
  then obtain as bs where cs: "cs = as @ c # bs" by (meson split_list)
  have es: "es = map (\<lambda>i. entry (desc_shadow q ! i)) c" using outstanding_chain [OF inv c(1)] c(2) t by simp
  let ?q = "q\<lparr> free_head := hd c \<rparr>"
  note sizes = vq_inv_sizes [OF inv]
  have slots: "distinct (concat cs)" "vchain (desc_shadow q) c" "\<forall>i. bit (in_use q) i \<longleftrightarrow> i \<in> set (concat cs)"
      "num_used q = length (concat cs)"
    using inv c(1) by (simp_all add: vq_inv_def)
  have "distinct c" "\<forall>i \<in> set c. bit (in_use q) i" "length c \<le> num_used q"
    using slots c(1) length_chain_le [OF c(1)] by (auto simp: cs)
  then obtain q' where run: "recycle_loop (hd c) (free_head q) 0 g2h h2g ?q
      = (Ok (total_len 0 es), g2h @ buffers_to False es, h2g @ buffers_to True es, q')"
    and rec: "recycled ?q c (free_head q) q'"
    using recycle_loop_chain [of ?q c "free_head q" 0 g2h h2g] slots(2) vq_inv_below [OF inv c(1)] sizes
    by (auto simp: es)
  note inv' = recycled_inv [OF inv [unfolded cs] rec] and keep = recycled_links(3) [OF inv [unfolded cs] rec]
  have sub: "d \<in> set cs \<and> hd d \<noteq> t" if d: "d \<in> set (as @ bs)" for d
  proof -
    have "set c \<inter> set d = {}" using slots(1) d by (auto simp: cs)
    moreover have "c \<noteq> []" "d \<noteq> []"
      using slots(2) recycled_links(2) [OF inv [unfolded cs] rec] d by (metis vchain_Nil)+
    ultimately show ?thesis using c(2) d by (metis UnE UnI1 UnI2 cs disjoint_iff hd_in_set list.set_intros(2) set_append)
  qed
  have "outstanding q' h = ((outstanding q)(t := None)) h" for h
  proof (cases "h \<in> hd ` set (as @ bs)")
    case True
    then obtain d where d: "d \<in> set (as @ bs)" "h = hd d" by blast
    from outstanding_cong [OF inv inv' _ d(1) keep [OF d(1)]] sub [OF d(1)] d(2) show ?thesis by simp
  next
    case False
    then have "outstanding q' h = None" using outstanding_None [OF inv'] by simp
    moreover have "h \<noteq> t \<Longrightarrow> outstanding q h = None" using outstanding_None [OF inv, of h] False c(2) by (auto simp: cs)
    ultimately show ?thesis by simp
  qed
  then show ?thesis using run inv' rec c(2) unfolding recycle_descriptors_def recycled_def by auto
qed


section \<open>A contract for handing out buffers\<close>

text \<open>
  What a driver relies on: \<open>held\<close> gives, for each token, the buffers handed over under it.  Giving
  uses a fresh token, getting returns what was given under one token, and nothing else
  changes what is held.  A run of such steps neither loses nor duplicates a buffer.
\<close>

datatype ('t, 'e) exchange_event = Gave 't "'e list" | Got 't "'e list" | Quiet

definition held_buffers :: "('t \<Rightarrow> 'e list option) \<Rightarrow> 'e multiset" where
  "held_buffers held = (\<Sum>t \<in> dom held. mset (the (held t)))"

inductive exchange_run ::
    "('q \<Rightarrow> ('t, 'e) exchange_event \<Rightarrow> 'q \<Rightarrow> bool) \<Rightarrow> 'q \<Rightarrow> 'e multiset \<Rightarrow> 'e multiset \<Rightarrow> 'q \<Rightarrow> bool"
  for step and q0 where
  run_start: "exchange_run step q0 {#} {#} q0"
| run_gave: "exchange_run step q0 given returned q \<Longrightarrow> step q (Gave t es) q'
    \<Longrightarrow> exchange_run step q0 (given + mset es) returned q'"
| run_got: "exchange_run step q0 given returned q \<Longrightarrow> step q (Got t es) q'
    \<Longrightarrow> exchange_run step q0 given (returned + mset es) q'"
| run_quiet: "exchange_run step q0 given returned q \<Longrightarrow> step q Quiet q'
    \<Longrightarrow> exchange_run step q0 given returned q'"

locale buffer_exchange =
  fixes ok :: "'q \<Rightarrow> bool" and held :: "'q \<Rightarrow> 't \<Rightarrow> 'e list option"
    and step :: "'q \<Rightarrow> ('t, 'e) exchange_event \<Rightarrow> 'q \<Rightarrow> bool"
  assumes finite_held: "ok q \<Longrightarrow> finite (dom (held q))"
    and gave: "ok q \<Longrightarrow> step q (Gave t es) q'
      \<Longrightarrow> ok q' \<and> held q t = None \<and> held q' = (held q)(t \<mapsto> es)"
    and got: "ok q \<Longrightarrow> step q (Got t es) q'
      \<Longrightarrow> ok q' \<and> map_option mset (held q t) = Some (mset es) \<and> held q' = (held q)(t := None)"
    and quiet: "ok q \<Longrightarrow> step q Quiet q' \<Longrightarrow> ok q' \<and> held q' = held q"
begin

lemma held_gave:
  assumes "ok q" and "step q (Gave t es) q'"
  shows "held_buffers (held q') = held_buffers (held q) + mset es"
proof -
  note g = gave [OF assms]
  have "(\<Sum>u \<in> dom (held q). mset (the (held q' u))) = (\<Sum>u \<in> dom (held q). mset (the (held q u)))"
    using g by (intro sum.cong) auto
  moreover have "t \<notin> dom (held q)" using g by auto
  ultimately show ?thesis using g finite_held [OF assms(1)] by (simp add: held_buffers_def)
qed

lemma held_got:
  assumes "ok q" and "step q (Got t es) q'"
  shows "held_buffers (held q) = held_buffers (held q') + mset es"
proof -
  note g = got [OF assms]
  have "(\<Sum>u \<in> dom (held q) - {t}. mset (the (held q' u))) = (\<Sum>u \<in> dom (held q) - {t}. mset (the (held q u)))"
    using g by (intro sum.cong) auto
  moreover have "dom (held q') = dom (held q) - {t}" "t \<in> dom (held q)" using g by auto
  ultimately show ?thesis
    using g finite_held [OF assms(1)] by (auto simp: held_buffers_def sum.remove [of _ t])
qed

lemma conservation:
  assumes "exchange_run step q0 given returned q" and "ok q0" and "held q0 = Map.empty"
  shows "ok q \<and> given = returned + held_buffers (held q)"
  using assms
proof (induction rule: exchange_run.induct)
  case run_start
  then show ?case by (simp add: held_buffers_def)
next
  case (run_gave given returned q t es q')
  then have "ok q" and "given = returned + held_buffers (held q)" by auto
  with held_gave [OF \<open>ok q\<close> run_gave.hyps(2)] gave [OF \<open>ok q\<close> run_gave.hyps(2)] show ?case
    by (metis union_assoc)
next
  case (run_got given returned q t es q')
  then have "ok q" and "given = returned + held_buffers (held q)" by auto
  with held_got [OF \<open>ok q\<close> run_got.hyps(2)] got [OF \<open>ok q\<close> run_got.hyps(2)] show ?case
    by (metis union_assoc union_commute)
next
  case (run_quiet given returned q q')
  then show ?case using quiet [OF _ run_quiet.hyps(2)] by auto
qed

end

section \<open>The queue keeps the contract\<close>

text \<open>
  A step of the queue against an arbitrary host.  The host may replace every byte of the shared
  memory, at any time, but not its size.
\<close>

definition host_writes :: "virtqueue \<Rightarrow> virtqueue \<Rightarrow> bool" where
  "host_writes q q' \<longleftrightarrow> (\<exists>D A ai ue ui U.
     q' = q\<lparr> vq_desc := D, avail_ring := A, avail_shared_idx := ai, used_event := ue,
             used_idx := ui, used_ring := U \<rparr>
     \<and> length D = length (vq_desc q) \<and> length A = length (avail_ring q)
     \<and> length U = length (used_ring q))"

text \<open>What the host says in the used ring: the token and the length of the next completion.\<close>

definition used_slot :: "virtqueue \<Rightarrow> nat" where
  "used_slot q = unat (last_used_idx q AND word_of_nat (queue_size q - 1))"

definition used_token :: "virtqueue \<Rightarrow> nat" where
  "used_token q = unat (fst (used_ring q ! used_slot q)) mod 2 ^ 16"

definition used_len :: "virtqueue \<Rightarrow> 32 word" where
  "used_len q = snd (used_ring q ! used_slot q)"

inductive vq_step ::
    "virtqueue \<Rightarrow> (nat, virtqueue_buf \<times> bool) exchange_event \<Rightarrow> virtqueue \<Rightarrow> bool" where
  step_add: "add g2h h2g q = (Ok t, q')
    \<Longrightarrow> vq_step q (Gave t (map (\<lambda>b. (b, False)) g2h @ map (\<lambda>b. (b, True)) h2g)) q'"
| step_pop: "pop_used [] [] q = (Ok len, g2h, h2g, q')
    \<Longrightarrow> vq_step q (Got (used_token q) (map (\<lambda>b. (b, False)) g2h @ map (\<lambda>b. (b, True)) h2g)) q'"
| step_add_err: "add g2h h2g q = (Err e, q') \<Longrightarrow> vq_step q Quiet q'"
| step_pop_err: "pop_used [] [] q = (Err e, g2h, h2g, q') \<Longrightarrow> vq_step q Quiet q'"
| step_host: "host_writes q q' \<Longrightarrow> vq_step q Quiet q'"

inductive_cases vq_step_GaveE: "vq_step q (Gave t es) q'"
inductive_cases vq_step_GotE: "vq_step q (Got t es) q'"
inductive_cases vq_step_QuietE: "vq_step q Quiet q'"

lemma add_cases:
  assumes "vq_wf q"
  shows "(\<exists>q'. add g2h h2g q = (Ok (free_head q), q') \<and> vq_wf q'
      \<and> (g2h \<noteq> [] \<or> h2g \<noteq> []) \<and> length g2h + length h2g + num_used q \<le> queue_size q
      \<and> outstanding q (free_head q) = None
      \<and> outstanding q' = (outstanding q)(free_head q \<mapsto>
          map (\<lambda>b. (b, False)) g2h @ map (\<lambda>b. (b, True)) h2g))
    \<or> add g2h h2g q = (Err VqInvalidParameter, q) \<and> g2h = [] \<and> h2g = []
    \<or> add g2h h2g q = (Err BufferTooSmall, q)
      \<and> (g2h \<noteq> [] \<or> h2g \<noteq> []) \<and> queue_size q < length g2h + length h2g + num_used q"
proof -
  from assms obtain free cs where inv: "vq_inv q free cs" by (auto simp: vq_wf_def)
  consider "g2h = [] \<and> h2g = []" | "g2h \<noteq> [] \<or> h2g \<noteq> []" "queue_size q < length g2h + length h2g + num_used q"
    | "g2h \<noteq> [] \<or> h2g \<noteq> []" "length g2h + length h2g + num_used q \<le> queue_size q"
    by linarith
  then show ?thesis
  proof cases
    case 3
    with add_outstanding [OF inv 3] show ?thesis by (auto simp: vq_wf_def)
  qed (auto simp: add_def)
qed

lemma pop_used_eq:
  "pop_used g2h h2g q =
     (if \<not> can_pop q then (Err VqNotReady, g2h, h2g, q)
      else if length (used_ring q) \<le> used_slot q then (Err InvalidRingIndex, g2h, h2g, q)
      else if queue_size q \<le> used_token q then (Err InvalidDescriptor, g2h, h2g, q)
      else if 32 \<le> used_token q then (Panic, g2h, h2g, q)
      else if in_use q AND bit_mask (used_token q) = 0 \<or> is_head q AND bit_mask (used_token q) = 0
        then (Err InvalidDescriptor, g2h, h2g, q)
      else (case recycle_descriptors (used_token q) g2h h2g q of
               (Ok recorded_len, g2h', h2g', q') \<Rightarrow>
                 (Ok (min (used_len q) recorded_len), g2h', h2g',
                  q'\<lparr> last_used_idx := last_used_idx q' + 1 \<rparr>)
             | r \<Rightarrow> r))"
  by (simp only: pop_used_def used_token_def used_len_def used_slot_def Let_def)

lemma vq_inv_nonempty: "vq_inv q free cs \<Longrightarrow> c \<in> set cs \<Longrightarrow> c \<noteq> []"
  unfolding vq_inv_def by (metis vchain_Nil)

lemma outstanding_bits:
  assumes "vq_inv q free cs"
  shows "outstanding q t = None \<longleftrightarrow> \<not> (t < queue_size q \<and> bit (in_use q) t \<and> bit (is_head q) t)"
proof -
  have "bit (is_head q) t \<longleftrightarrow> t \<in> hd ` set cs" "bit (in_use q) t \<longleftrightarrow> t \<in> set (concat cs)"
    using assms by (simp_all add: vq_inv_def)
  moreover have "hd c < queue_size q" "hd c \<in> set c" if "c \<in> set cs" for c
    using vq_inv_below [OF assms that] hd_in_set [OF vq_inv_nonempty [OF assms that]] by auto
  ultimately show ?thesis using outstanding_None [OF assms, of t] by auto
qed

lemma pop_used_cases:
  assumes "vq_wf q"
  shows "(\<exists>q' es. can_pop q \<and> outstanding q (used_token q) = Some es
      \<and> pop_used g2h h2g q = (Ok (min (used_len q) (total_len 0 es)),
          g2h @ buffers_to False es, h2g @ buffers_to True es, q')
      \<and> vq_wf q' \<and> outstanding q' = (outstanding q)(used_token q := None))
    \<or> pop_used g2h h2g q = (Err VqNotReady, g2h, h2g, q) \<and> \<not> can_pop q
    \<or> pop_used g2h h2g q = (Err InvalidDescriptor, g2h, h2g, q)
      \<and> can_pop q \<and> outstanding q (used_token q) = None"
proof (cases "can_pop q")
  case True
  from assms obtain free cs where inv: "vq_inv q free cs" by (auto simp: vq_wf_def)
  note sizes = vq_inv_sizes [OF inv]
  have slot: "\<not> length (used_ring q) \<le> used_slot q"
    using ring_slot_less [of "queue_size q" "last_used_idx q"] sizes by (simp add: used_slot_def)
  show ?thesis
  proof (cases "outstanding q (used_token q)")
    case None
    have "used_token q < queue_size q \<longrightarrow> used_token q < 32" using sizes by linarith
    with None outstanding_bits [OF inv, of "used_token q"] slot True
    have "pop_used g2h h2g q = (Err InvalidDescriptor, g2h, h2g, q)"
      by (auto simp: pop_used_eq and_bit_mask_eq_0 not_le)
    with True None show ?thesis by blast
  next
    case (Some es)
    then have bits: "used_token q < queue_size q" "bit (in_use q) (used_token q)" "bit (is_head q) (used_token q)"
      using outstanding_bits [OF inv, of "used_token q"] by auto
    have "used_token q < 32" using bits(1) sizes by linarith
    from pop_outstanding [OF inv Some, of g2h h2g] obtain q' free' cs' where
      run: "recycle_descriptors (used_token q) g2h h2g q
        = (Ok (total_len 0 es), g2h @ buffers_to False es, h2g @ buffers_to True es, q')"
      and inv': "vq_inv q' free' cs'" and out: "outstanding q' = (outstanding q)(used_token q := None)" by blast
    let ?q = "q'\<lparr> last_used_idx := last_used_idx q' + 1 \<rparr>"
    have "pop_used g2h h2g q = (Ok (min (used_len q) (total_len 0 es)),
        g2h @ buffers_to False es, h2g @ buffers_to True es, ?q)"
      using True slot bits \<open>used_token q < 32\<close> run
      by (simp add: pop_used_eq and_bit_mask_eq_0)
    moreover have "outstanding ?q = outstanding q'" by (rule ext) (simp add: outstanding_def)
    moreover have "vq_inv ?q free' cs'" using inv' by (simp add: vq_inv_def)
    ultimately show ?thesis using True Some out by (auto simp: vq_wf_def)
  qed
qed (simp add: pop_used_def)

lemma host_writes_wf:
  assumes "vq_wf q" and "host_writes q q'"
  shows "vq_wf q' \<and> outstanding q' = outstanding q"
proof -
  obtain D A ai ue ui U where q': "q' = q\<lparr> vq_desc := D, avail_ring := A, avail_shared_idx := ai,
      used_event := ue, used_idx := ui, used_ring := U \<rparr>" and len: "length D = length (vq_desc q)"
      "length A = length (avail_ring q)" "length U = length (used_ring q)"
    using assms(2) by (auto simp: host_writes_def)
  have "vq_inv q' free cs" if "vq_inv q free cs" for free cs
    using that len by (simp add: q' vq_inv_def)
  then show ?thesis using assms(1) by (auto simp: vq_wf_def q' outstanding_def)
qed

lemma mset_buffers_to:
  "mset (map (\<lambda>b. (b, False)) (buffers_to False es) @ map (\<lambda>b. (b, True)) (buffers_to True es)) = mset es"
proof (induction es)
  case (Cons e es)
  then show ?case by (cases e) (auto split: bool.splits)
qed simp

interpretation vq: buffer_exchange vq_wf outstanding vq_step
proof (unfold_locales, goal_cases)
  case (1 q)
  have "dom (outstanding q) \<subseteq> {i. bit (is_head q) i}" by (auto simp: outstanding_def split: if_splits)
  also have "\<dots> \<subseteq> {..<32}" by (auto dest: bit_imp_le_length)
  finally have "dom (outstanding q) \<subseteq> {..<32}" .
  then show ?case using finite_subset by blast
next
  case (2 q t es q')
  from 2(2) obtain g2h h2g where run: "add g2h h2g q = (Ok t, q')"
    and es: "es = map (\<lambda>b. (b, False)) g2h @ map (\<lambda>b. (b, True)) h2g"
    by (rule vq_step_GaveE) blast
  from add_cases [OF 2(1), of g2h h2g] show ?case by (auto simp: run es)
next
  case (3 q t es q')
  from 3(2) obtain len g2h h2g where pop: "pop_used [] [] q = (Ok len, g2h, h2g, q')"
    and t: "t = used_token q" and es: "es = map (\<lambda>b. (b, False)) g2h @ map (\<lambda>b. (b, True)) h2g"
    by (rule vq_step_GotE) blast
  from pop_used_cases [OF 3(1), of "[]" "[]"] show ?case using mset_buffers_to by (auto simp: pop t es)
next
  case (4 q q')
  from 4(2) show ?case
  proof (elim vq_step_QuietE, goal_cases)
    case (1 g2h h2g e)
    with add_cases [OF 4(1), of g2h h2g] 4(1) show ?thesis by auto
  next
    case (2 e g2h h2g)
    with pop_used_cases [OF 4(1), of "[]" "[]"] 4(1) show ?thesis by auto
  next
    case 3
    with host_writes_wf [OF 4(1)] show ?thesis by blast
  qed
qed

section \<open>A new queue\<close>

lemma length_link_descriptors: "length (link_descriptors n ds) = length ds"
proof -
  have "length (fold (\<lambda>i ds. ds[i := (ds ! i)\<lparr> d_next := i + 1 \<rparr>]) js ds) = length ds" for js
    by (induction js arbitrary: ds) auto
  then show ?thesis by (simp add: link_descriptors_def)
qed

lemma nth_link_fold:
  fixes ds :: "descriptor list"
  shows "k \<le> length ds \<Longrightarrow> i < k \<Longrightarrow>
     d_next (fold (\<lambda>i ds. ds[i := (ds ! i)\<lparr> d_next := i + 1 \<rparr>]) [0..<k] ds ! i) = i + 1"
proof (induction k)
  case (Suc k)
  have "length (fold (\<lambda>i ds. ds[i := (ds ! i)\<lparr> d_next := i + 1 \<rparr>]) [0..<k] ds) = length ds"
    using length_link_descriptors [of "Suc k" ds] by (simp add: link_descriptors_def)
  with Suc show ?case by (auto simp: nth_list_update less_Suc_eq)
qed simp

lemma path_upt:
  assumes "\<And>i. k \<le> i \<Longrightarrow> Suc i < n \<Longrightarrow> nxt i = Suc i" and "k < n"
  shows "path nxt k [k..<n] (nxt (n - 1))"
  using assms
proof (induction "n - k" arbitrary: k)
  case (Suc m)
  show ?case
  proof (cases "Suc k = n")
    case True
    then show ?thesis by auto
  next
    case False
    with Suc.prems have "Suc k < n" by simp
    moreover have "path nxt (Suc k) [Suc k..<n] (nxt (n - 1))"
      using Suc.hyps(1) [of "Suc k"] Suc.hyps(2) Suc.prems \<open>Suc k < n\<close> by simp
    ultimately show ?thesis using Suc.prems by (simp add: upt_conv_Cons)
  qed
qed simp

lemma virtqueue_new_wf:
  assumes "virtqueue_new header idx dma_addr n mem = Ok q"
    and "n \<le> length (vq_desc mem)" and "length (avail_ring mem) = 32" and "length (used_ring mem) = 32"
  shows "vq_wf q \<and> outstanding q = Map.empty"
proof -
  have n: "is_power_of_two n" "n \<le> 32"
    and q: "vq_desc q = link_descriptors n (take n (vq_desc mem))"
      "desc_shadow q = link_descriptors n (replicate MAX_QUEUE_SIZE shadow_default)"
      "avail_ring q = avail_ring mem" "used_ring q = used_ring mem" "queue_size q = n"
      "num_used q = 0" "free_head q = 0" "in_use q = 0" "is_head q = 0"
    using assms(1) by (auto simp: virtqueue_new_def outcome_simps MAX_QUEUE_SIZE_def split: if_splits)
  have pos: "0 < n" using n(1) by (auto simp: is_power_of_two_def)
  have "d_next (desc_shadow q ! i) = Suc i" if "Suc i < n" for i
    using nth_link_fold [of "n - 1" "replicate MAX_QUEUE_SIZE shadow_default" i] that n(2)
    by (simp add: q link_descriptors_def MAX_QUEUE_SIZE_def)
  from path_upt [of 0 n "\<lambda>i. d_next (desc_shadow q ! i)", OF this pos]
  have "vq_inv q [0..<n] []"
    using n(2) pos assms(2-4) by (auto simp: vq_inv_def q length_link_descriptors MAX_QUEUE_SIZE_def)
  then show ?thesis by (auto simp: vq_wf_def outstanding_def q)
qed

lemma held_buffers_chains:
  assumes inv: "vq_inv q free cs"
  shows "size (held_buffers (outstanding q)) = num_used q"
proof -
  let ?E = "\<lambda>c. map (\<lambda>i. entry (desc_shadow q ! i)) c"
  have dom: "dom (outstanding q) = hd ` set cs" by (simp add: dom_def outstanding_None [OF inv])
  have inj: "inj_on hd (set cs)" using head_inj [OF inv] by (auto simp: inj_on_def)
  have "distinct (concat cs)" "num_used q = length (concat cs)"
    using inv by (simp_all add: vq_inv_def)
  moreover have "[] \<notin> set cs" using vq_inv_nonempty [OF inv] by blast
  ultimately have cs: "distinct cs" by (simp add: distinct_concat_iff removeAll_id)
  have "held_buffers (outstanding q) = (\<Sum>c \<in> set cs. mset (the (outstanding q (hd c))))"
    by (simp add: held_buffers_def dom sum.reindex [OF inj])
  also have "\<dots> = (\<Sum>c \<in> set cs. mset (?E c))"
    using outstanding_chain [OF inv] by (intro sum.cong) auto
  also have "\<dots> = (\<Sum>c \<leftarrow> cs. mset (?E c))" using cs by (simp add: sum_list_distinct_conv_sum_set)
  finally have "held_buffers (outstanding q) = (\<Sum>c \<leftarrow> cs. mset (?E c))" .
  moreover have "size (\<Sum>c \<leftarrow> ds. mset (?E c)) = length (concat ds)" for ds
    by (induction ds) auto
  ultimately show ?thesis using \<open>num_used q = length (concat cs)\<close> by simp
qed

lemma total_len_le:
  "unat (total_len len es) \<le> unat len + (\<Sum>e \<leftarrow> es. unat (buf_len (fst e)))"
proof (induction es arbitrary: len)
  case (Cons e es)
  have "unat (saturating_add_u32 len (buf_len (fst e))) \<le> unat len + unat (buf_len (fst e))"
    by (simp add: saturating_add_u32_def unsigned_of_nat take_bit_eq_mod)
  with Cons.IH [of "saturating_add_u32 len (buf_len (fst e))"] show ?case by (simp add: total_len_def)
qed (simp add: total_len_def)

section \<open>Properties\<close>

text \<open>A queue of two descriptors for concrete runs.\<close>

definition sample_memory :: vq_memory where
  "sample_memory = \<lparr> vq_desc = replicate 2 shadow_default, avail_ring = replicate 32 0,
     avail_shared_idx = 0, used_event = 0, used_idx = 0, used_ring = replicate 32 (0, 0) \<rparr>"

definition sample_transport :: virtio_transport where
  "sample_transport = \<lparr> get_queue_max_size = Ok 2, set_descriptors_address = \<lambda>_. Ok (),
     set_avail_ring = \<lambda>_. Ok (), set_used_ring = \<lambda>_. Ok () \<rparr>"

definition sample_queue :: virtqueue where
  "sample_queue = (case virtqueue_new sample_transport 0 0 2 sample_memory of Ok q \<Rightarrow> q)"

lemma sample_queue_new: "virtqueue_new sample_transport 0 0 2 sample_memory = Ok sample_queue"
  by (simp add: sample_queue_def virtqueue_new_def sample_transport_def is_power_of_two_def
        MAX_QUEUE_SIZE_def virtqueue_layout_new_def Let_def dma_offset_def vq_align_up_def
        VQ_PAGE_SIZE_def outcome_simps upt_rec)

lemma sample_queue_wf: "vq_wf sample_queue \<and> outstanding sample_queue = Map.empty"
  by (rule virtqueue_new_wf [OF sample_queue_new]) (simp_all add: sample_memory_def)

lemma virtqueue_new_fields:
  "virtqueue_new header idx dma_addr n mem = Ok q \<Longrightarrow> queue_size q = n \<and> num_used q = 0 \<and> free_head q = 0"
  by (auto simp: virtqueue_new_def outcome_simps split: if_splits)

lemmas sample_queue_fields = virtqueue_new_fields [OF sample_queue_new]

definition sample_buf :: virtqueue_buf where
  "sample_buf = \<lparr> buf_addr = 0x1000, buf_len = 8 \<rparr>"

lemma sample_add:
  "\<exists>q'. add [sample_buf] [] sample_queue = (Ok 0, q') \<and> vq_wf q'
     \<and> outstanding q' = [0 \<mapsto> [(sample_buf, False)]]"
  using add_cases [OF conjunct1 [OF sample_queue_wf], of "[sample_buf]" "[]"]
  by (auto simp: sample_queue_fields conjunct2 [OF sample_queue_wf])

text \<open>
  C10: Adding buffers to a queue refines the abstract map of outstanding chains.  On a well-formed
  queue it never panics; it fails exactly for an empty request, and for one that does not fit the
  free descriptors, and then changes nothing; otherwise the token is fresh and exactly the given
  buffers, in order and with their direction, are recorded under it.
\<close>

theorem add_refines:
  assumes "vq_wf q"
  shows "case add g2h h2g q of
      (Ok t, q') \<Rightarrow> vq_wf q' \<and> outstanding q t = None
        \<and> outstanding q' = (outstanding q)(t \<mapsto> map (\<lambda>b. (b, False)) g2h @ map (\<lambda>b. (b, True)) h2g)
        \<and> 0 < length g2h + length h2g
        \<and> length g2h + length h2g + size (held_buffers (outstanding q)) \<le> queue_size q
    | (Err e, q') \<Rightarrow> q' = q \<and> (e = VqInvalidParameter \<and> g2h = [] \<and> h2g = []
        \<or> e = BufferTooSmall \<and> queue_size q < length g2h + length h2g + size (held_buffers (outstanding q)))
    | (Panic, q') \<Rightarrow> False"
proof -
  have "size (held_buffers (outstanding q)) = num_used q"
    using assms held_buffers_chains by (auto simp: vq_wf_def)
  with add_cases [OF assms, of g2h h2g] show ?thesis by auto
qed

theorem add_refines_witness:
  "vq_wf sample_queue
   \<and> (\<exists>t q'. add [sample_buf] [] sample_queue = (Ok t, q') \<and> outstanding q' t = Some [(sample_buf, False)])"
  using add_refines [OF conjunct1 [OF sample_queue_wf], of "[sample_buf]" "[]"] sample_queue_wf sample_add
  by auto

text \<open>
  C11: Taking a completion is safe against any contents of the used ring.  The operation never
  panics; it succeeds exactly if the host has advanced its index and names an outstanding chain, and
  then returns exactly the buffers recorded for that chain, forgets that chain only, and reports no
  more bytes than the host claimed and than the chain holds.  In every other case nothing changes.
\<close>

theorem pop_used_refines:
  assumes "vq_wf q"
  shows "case pop_used g2h h2g q of
      (Ok len, g2h', h2g', q') \<Rightarrow> vq_wf q' \<and> can_pop q
        \<and> (\<exists>es. outstanding q (used_token q) = Some es
            \<and> outstanding q' = (outstanding q)(used_token q := None)
            \<and> g2h' = g2h @ buffers_to False es \<and> h2g' = h2g @ buffers_to True es
            \<and> len = min (used_len q) (total_len 0 es)
            \<and> unat len \<le> (\<Sum>e \<leftarrow> es. unat (buf_len (fst e))))
    | (Err e, g2h', h2g', q') \<Rightarrow> q' = q \<and> g2h' = g2h \<and> h2g' = h2g
        \<and> (\<not> can_pop q \<or> outstanding q (used_token q) = None)
    | (Panic, g2h', h2g', q') \<Rightarrow> False"
proof -
  have "unat (min a (total_len 0 es)) \<le> (\<Sum>e \<leftarrow> es. unat (buf_len (fst e)))" for a and es :: "(virtqueue_buf \<times> bool) list"
    using total_len_le [of 0 es] by (auto simp: min_def word_le_nat_alt)
  with pop_used_cases [OF assms, of g2h h2g] show ?thesis by auto
qed

theorem pop_used_refines_witness:
  "\<exists>q. vq_wf q \<and> outstanding q \<noteq> Map.empty
     \<and> (\<exists>len g2h h2g q'. pop_used [] [] q = (Ok len, g2h, h2g, q')
         \<and> g2h = [sample_buf] \<and> h2g = [] \<and> unat len \<le> 8)"
proof -
  obtain q1 where q1: "vq_wf q1" "outstanding q1 = [0 \<mapsto> [(sample_buf, False)]]" using sample_add by blast
  then obtain free cs where inv: "vq_inv q1 free cs" by (auto simp: vq_wf_def)
  define q where "q = q1\<lparr> used_idx := last_used_idx q1 + 1, used_ring := replicate 32 (0, 5) \<rparr>"
  have len: "length (used_ring q1) = 32" "0 < queue_size q1" "queue_size q1 \<le> 32"
    using vq_inv_sizes [OF inv] by auto
  have hw: "host_writes q1 q"
    unfolding host_writes_def using len(1)
    by (intro exI [of _ "vq_desc q1"] exI [of _ "avail_ring q1"] exI [of _ "avail_shared_idx q1"]
          exI [of _ "used_event q1"] exI [of _ "last_used_idx q1 + 1"] exI [of _ "replicate 32 (0, 5)"])
       (simp add: q_def)
  have q: "vq_wf q" "outstanding q = [0 \<mapsto> [(sample_buf, False)]]"
    using host_writes_wf [OF q1(1) hw] q1(2) by simp_all
  have slot: "used_slot q < 32" using ring_slot_less [OF len(2,3)] by (simp add: used_slot_def q_def)
  then have tok: "used_token q = 0" by (simp add: used_token_def q_def)
  have pop: "can_pop q" by (simp add: can_pop_def q_def)
  show ?thesis
    using pop_used_refines [OF q(1), of "[]" "[]"] pop tok q
    by (intro exI [of _ q])
       (auto simp: sample_buf_def split: prod.splits outcome.splits)
qed

text \<open>
  C9: The host cannot make the driver lose, duplicate or invent a buffer.  After any sequence of
  additions, completions and host writes to the whole shared memory, starting from a new queue, the
  buffers given are the buffers returned together with the buffers still recorded, as multisets, and
  the number of descriptors in use is the number of those.
\<close>

theorem virtqueue_conservation:
  assumes "virtqueue_new header idx dma_addr n mem = Ok q0"
    and "n \<le> length (vq_desc mem)" and "length (avail_ring mem) = 32" and "length (used_ring mem) = 32"
    and "exchange_run vq_step q0 given returned q"
  shows "vq_wf q \<and> given = returned + held_buffers (outstanding q)
    \<and> num_used q = size (held_buffers (outstanding q))"
  using virtqueue_new_wf [OF assms(1-4)] vq.conservation [OF assms(5)] held_buffers_chains
  by (auto simp: vq_wf_def)

theorem virtqueue_conservation_witness:
  "\<exists>q. exchange_run vq_step sample_queue {#(sample_buf, False)#} {#} q
     \<and> held_buffers (outstanding q) = {#(sample_buf, False)#} \<and> num_used q = 1"
proof -
  obtain q where q: "add [sample_buf] [] sample_queue = (Ok 0, q)" using sample_add by blast
  have "vq_step sample_queue (Gave 0 [(sample_buf, False)]) q" using step_add [OF q] by simp
  from run_gave [OF run_start [of vq_step sample_queue] this]
  have run: "exchange_run vq_step sample_queue {#(sample_buf, False)#} {#} q" by simp
  from virtqueue_conservation [OF sample_queue_new _ _ _ this]
  have "{#(sample_buf, False)#} = held_buffers (outstanding q)"
    and "num_used q = size (held_buffers (outstanding q))"
    by (auto simp: sample_memory_def)
  with run show ?thesis by (metis One_nat_def size_single)
qed

end
