(* ===== verification/EventLog.thy ===== *)
theory EventLog
  imports MigPrelude
begin

text \<open>
  Measurement: the event log of \<open>src/migtd/src/event_log.rs\<close> and the digest of
  \<open>src/crypto/src/rustls_impl/hash.rs\<close>.  Appending a tagged event, parsing a log into the events the
  policy code looks at, and replaying a log against the measurement registers of a report.
  The hash function, the iterator over the events of a log (crate \<open>cc_measurement\<close>) and the
  register-extend instruction are parameters.
\<close>

section \<open>Model\<close>

definition SHA384_DIGEST_SIZE :: nat where "SHA384_DIGEST_SIZE = 48"

text \<open>\<open>digest_sha384\<close> over the hash of the crypto library.\<close>

definition digest_sha384 :: "(bytes \<Rightarrow> bytes) \<Rightarrow> bytes \<Rightarrow> (unit, bytes) outcome" where
  "digest_sha384 sha data =
     (if length (sha data) \<noteq> SHA384_DIGEST_SIZE then Err () else Ok (sha data))"

datatype event_name =
    TdShim | SecureBootKey | MigTdCore | MigTdCoreSvn | MigTdPolicy | SgxRootKey
  | MigTdPolicySigner | UnknownEvent

record cc_event_header =
  mr_index :: "32 word"
  event_type :: "32 word"
  digest :: bytes
  event_size :: "32 word"

record cc_event =
  ev_header :: cc_event_header
  ev_data :: "bytes option"

text \<open>
  What \<open>cc_measurement\<close> provides: the reader of a log (the size of the first event, and the events
  after it), the size and bytes of an event header, and the event types of the specification.
\<close>

record cc_measurement =
  reader :: "bytes \<Rightarrow> (32 word \<times> (cc_event_header \<times> bytes) list) option"
  pcr_header_size :: nat
  header_size :: nat
  header_bytes :: "cc_event_header \<Rightarrow> bytes"
  ev_firmware_blob2 :: "32 word"
  ev_config_flags :: "32 word"

definition EV_EVENT_TAG :: "32 word" where "EV_EVENT_TAG = 6"
definition TAGGED_EVENT_ID_POLICY :: "32 word" where "TAGGED_EVENT_ID_POLICY = 1"
definition TAGGED_EVENT_ID_ROOT_CA :: "32 word" where "TAGGED_EVENT_ID_ROOT_CA = 2"
definition TAGGED_EVENT_ID_POLICY_ISSUER_CHAIN :: "32 word" where
  "TAGGED_EVENT_ID_POLICY_ISSUER_CHAIN = 3"
definition MAX_RTMR_INDEX :: nat where "MAX_RTMR_INDEX = 3"

definition ascii_bytes :: "string \<Rightarrow> bytes" where
  "ascii_bytes s = map (\<lambda>c. word_of_nat (of_char c)) s"

definition PLATFORM_CONFIG_SECURE_AUTHORITY :: bytes where
  "PLATFORM_CONFIG_SECURE_AUTHORITY = ascii_bytes ''secure_authority''"
definition PLATFORM_CONFIG_SVN :: bytes where
  "PLATFORM_CONFIG_SVN = ascii_bytes ''td_payload_svn'' @ [0]"
definition PLATFORM_FIRMWARE_BLOB2_PAYLOAD :: bytes where
  "PLATFORM_FIRMWARE_BLOB2_PAYLOAD = ascii_bytes ''td_payload'' @ [0]"

definition starts_with :: "bytes \<Rightarrow> bytes \<Rightarrow> bool" where
  "starts_with data pre \<longleftrightarrow> take (length pre) data = pre"

definition tagged_event_new :: "32 word \<Rightarrow> bytes \<Rightarrow> bytes" where
  "tagged_event_new tag_id data = u32_le tag_id @ u32_le (word_of_nat (length data)) @ data"

definition event_log_size :: "cc_measurement \<Rightarrow> bytes \<Rightarrow> nat option" where
  "event_log_size cc event_log =
     map_option (\<lambda>(pcr_size, events).
         foldl (\<lambda>n (header, data). n + (header_size cc + unat (event_size header)))
           (pcr_header_size cc + unat pcr_size) events)
       (reader cc event_log)"

text \<open>The slice is one byte longer than the events; it panics when that byte is missing.\<close>

definition get_event_log :: "cc_measurement \<Rightarrow> bytes option \<Rightarrow> (unit, bytes) outcome" where
  "get_event_log cc raw =
     rbind (ok_or () raw) (\<lambda>raw.
     rbind (ok_or () (event_log_size cc raw)) (\<lambda>n. index_range 0 (n + 1) raw))"

definition calculate_digest :: "(bytes \<Rightarrow> bytes) \<Rightarrow> bytes \<Rightarrow> (unit, bytes) outcome" where
  "calculate_digest sha hash_data = digest_sha384 sha hash_data"

text \<open>\<open>tdcall_extend r digest i\<close> is the instruction that extends register \<open>i\<close>; it may fail.\<close>

definition extend_rtmr ::
    "('r \<Rightarrow> bytes \<Rightarrow> nat \<Rightarrow> 'r option) \<Rightarrow> bytes \<Rightarrow> 32 word \<Rightarrow> 'r \<Rightarrow> (unit, unit) outcome \<times> 'r" where
  "extend_rtmr tdcall_extend dig mr r =
     (if 1 \<le> mr \<and> mr \<le> 4
      then (case tdcall_extend r dig (unat (mr - 1)) of Some r' \<Rightarrow> (Ok (), r') | None \<Rightarrow> (Err (), r))
      else (Err (), r))"

definition write_tagged_event_log ::
    "cc_measurement \<Rightarrow> (bytes \<Rightarrow> bytes) \<Rightarrow> ('r \<Rightarrow> bytes \<Rightarrow> nat \<Rightarrow> 'r option)
     \<Rightarrow> 32 word \<Rightarrow> bytes \<Rightarrow> 32 word \<Rightarrow> bytes \<Rightarrow> bytes \<times> 'r \<Rightarrow> (unit, nat) outcome \<times> bytes \<times> 'r" where
  "write_tagged_event_log cc sha tdcall_extend mr hash_data tag_id tag_data st =
     (case st of (event_log, r) \<Rightarrow>
      case event_log_size cc event_log of
        None \<Rightarrow> (Err (), event_log, r)
      | Some log_size \<Rightarrow>
          let event = tagged_event_new tag_id tag_data in
          case calculate_digest sha hash_data of
            Err e \<Rightarrow> (Err e, event_log, r)
          | Panic \<Rightarrow> (Panic, event_log, r)
          | Ok dig \<Rightarrow>
              case extend_rtmr tdcall_extend dig mr r of
                (Err e, r') \<Rightarrow> (Err e, event_log, r')
              | (Panic, r') \<Rightarrow> (Panic, event_log, r')
              | (Ok _, r') \<Rightarrow>
                  let event_header = \<lparr> mr_index = mr, event_type = EV_EVENT_TAG, digest = dig,
                        event_size = word_of_nat (length event) \<rparr> in
                  if length event_log < log_size + header_size cc + length event
                  then (Err (), event_log, r')
                  else (Ok (log_size + header_size cc + length event),
                        overwrite (log_size + header_size cc) event
                          (overwrite log_size (header_bytes cc event_header) event_log), r'))"

text \<open>One event of \<open>parse_events\<close>; \<open>Err\<close> is the early \<open>None\<close>.\<close>

definition parse_event ::
    "cc_measurement \<Rightarrow> cc_event_header \<Rightarrow> bytes \<Rightarrow> (event_name \<rightharpoonup> cc_event)
     \<Rightarrow> (unit, event_name \<rightharpoonup> cc_event) outcome" where
  "parse_event cc header data events =
     (let plain = \<lparr> ev_header = header, ev_data = None \<rparr> in
      if event_type header = ev_firmware_blob2 cc then
        rbind (index_at 0 data) (\<lambda>desc_size.
        rbind (ok_or () (get_range 1 (1 + unat desc_size) data)) (\<lambda>desc.
          Ok (if desc = PLATFORM_FIRMWARE_BLOB2_PAYLOAD then events(MigTdCore \<mapsto> plain) else events)))
      else if event_type header = ev_config_flags cc then
        (if starts_with data PLATFORM_CONFIG_SECURE_AUTHORITY
         then Ok (events(SecureBootKey \<mapsto> plain))
         else if starts_with data PLATFORM_CONFIG_SVN
         then
           (if length data < 20 then Err ()
            else
              let info_size = unat (u32_of (slice 16 20 data)) in
              if length data < 20 + info_size then Err ()
              else Ok (events(MigTdCoreSvn \<mapsto>
                     \<lparr> ev_header = header, ev_data = Some (slice 20 (20 + info_size) data) \<rparr>)))
         else Ok events)
      else if event_type header = EV_EVENT_TAG then
        rbind (ok_or () (get_range 0 4 data)) (\<lambda>tag.
          let tag_id = u32_of tag in
          Ok (if tag_id = TAGGED_EVENT_ID_POLICY then events(MigTdPolicy \<mapsto> plain)
              else if tag_id = TAGGED_EVENT_ID_ROOT_CA then events(SgxRootKey \<mapsto> plain)
              else if tag_id = TAGGED_EVENT_ID_POLICY_ISSUER_CHAIN
                then events(MigTdPolicySigner \<mapsto> plain)
              else events))
      else Ok events)"

fun parse_event_list ::
    "cc_measurement \<Rightarrow> (cc_event_header \<times> bytes) list \<Rightarrow> (event_name \<rightharpoonup> cc_event)
     \<Rightarrow> (unit, event_name \<rightharpoonup> cc_event) outcome" where
  "parse_event_list cc [] events = Ok events"
| "parse_event_list cc ((header, data) # rest) events =
     rbind (parse_event cc header data events) (parse_event_list cc rest)"

definition parse_events ::
    "cc_measurement \<Rightarrow> bytes \<Rightarrow> (unit, event_name \<rightharpoonup> cc_event) outcome" where
  "parse_events cc event_log =
     rbind (ok_or () (reader cc event_log)) (\<lambda>(pcr_size, events). parse_event_list cc events Map.empty)"

text \<open>
  The replay.  The four registers are 96-byte buffers: the current value, then the digest that
  extends it.
\<close>

fun replay_events ::
    "(bytes \<Rightarrow> bytes) \<Rightarrow> (cc_event_header \<times> bytes) list \<Rightarrow> bytes list \<Rightarrow> (unit, bytes list) outcome" where
  "replay_events sha [] rtmrs = Ok rtmrs"
| "replay_events sha ((header, data) # rest) rtmrs =
     (let rtmr_index = (if 1 \<le> mr_index header \<and> mr_index header \<le> 4
                        then unat (mr_index header - 1) else 0xFF) in
      if rtmr_index \<le> MAX_RTMR_INDEX
      then
        let buf = overwrite 48 (digest header) (rtmrs ! rtmr_index) in
        rbind (digest_sha384 sha buf) (\<lambda>dig.
          replay_events sha rest (rtmrs[rtmr_index := overwrite 0 dig buf]))
      else Err ())"

text \<open>\<open>bypass\<close> is set in the two development builds that accept any registers.\<close>

definition replay_event_log_with_report ::
    "bool \<Rightarrow> cc_measurement \<Rightarrow> (bytes \<Rightarrow> bytes) \<Rightarrow> bytes \<Rightarrow> bytes list \<Rightarrow> (unit, unit) outcome" where
  "replay_event_log_with_report bypass cc sha event_log report_rtmrs =
     rbind (ok_or () (reader cc event_log)) (\<lambda>(pcr_size, events).
     rbind (replay_events sha events (replicate 4 (replicate 96 0))) (\<lambda>rtmrs.
       if report_rtmrs ! 0 = slice 0 48 (rtmrs ! 0) \<and> report_rtmrs ! 1 = slice 0 48 (rtmrs ! 1)
          \<and> report_rtmrs ! 2 = slice 0 48 (rtmrs ! 2) \<and> report_rtmrs ! 3 = slice 0 48 (rtmrs ! 3)
          \<or> bypass
       then Ok () else Err ()))"

definition verify_event_log ::
    "bool \<Rightarrow> cc_measurement \<Rightarrow> (bytes \<Rightarrow> bytes) \<Rightarrow> bytes \<Rightarrow> bytes list \<Rightarrow> (unit, unit) outcome" where
  "verify_event_log bypass cc sha event_log report_rtmrs =
     replay_event_log_with_report bypass cc sha event_log report_rtmrs"

section \<open>The registers a log stands for\<close>

text \<open>The digests a log measures into register \<open>i\<close>, and the value they extend a register to.\<close>

definition measured :: "nat \<Rightarrow> (cc_event_header \<times> bytes) list \<Rightarrow> bytes list" where
  "measured i events =
     map (\<lambda>e. digest (fst e)) (filter (\<lambda>e. unat (mr_index (fst e)) = i + 1) events)"

definition extended :: "(bytes \<Rightarrow> bytes) \<Rightarrow> bytes \<Rightarrow> bytes list \<Rightarrow> bytes" where
  "extended sha v ds = foldl (\<lambda>v d. sha (v @ d)) v ds"

definition zero_digest :: bytes where "zero_digest = replicate 48 0"

definition well_indexed :: "(cc_event_header \<times> bytes) list \<Rightarrow> bool" where
  "well_indexed events \<longleftrightarrow> (\<forall>e \<in> set events. 1 \<le> mr_index (fst e) \<and> mr_index (fst e) \<le> 4)"

text \<open>The digest field of a header is an array of 48 bytes.\<close>

definition digests_typed :: "(cc_event_header \<times> bytes) list \<Rightarrow> bool" where
  "digests_typed events \<longleftrightarrow> (\<forall>e \<in> set events. length (digest (fst e)) = 48)"

lemma measured_simps [simp]:
  "measured i [] = []"
  "measured i ((h, d) # es) = (if unat (mr_index h) = i + 1 then digest h # measured i es else measured i es)"
  by (simp_all add: measured_def)

lemma extended_simps [simp]: "extended sha v [] = v" "extended sha v (d # ds) = extended sha (sha (v @ d)) ds"
  by (simp_all add: extended_def)

lemma extended_append: "extended sha v (ds @ es) = extended sha (extended sha v ds) es"
  by (simp add: extended_def)

lemma mr_index_range:
  assumes "1 \<le> (w :: 32 word)" and "w \<le> 4"
  shows "unat (w - 1) < 4" and "unat w = unat (w - 1) + 1"
proof -
  have "1 \<le> unat w" "unat w \<le> 4" using assms by (simp_all add: word_le_nat_alt)
  moreover have "unat (w - 1) = unat w - 1" using assms(1) by (simp add: unat_sub word_le_nat_alt)
  ultimately show "unat (w - 1) < 4" "unat w = unat (w - 1) + 1" by simp_all
qed

lemma extend_buffer:
  assumes "length r = 96" and "length d = 48" and "length g = 48"
  shows "overwrite 48 d r = take 48 r @ d"
    and "length (overwrite 0 g (take 48 r @ d)) = 96" and "take 48 (overwrite 0 g (take 48 r @ d)) = g"
  using assms by (simp_all add: overwrite_def)

lemma replay_events_eq:
  assumes "\<And>x. length (sha x) = 48" and "digests_typed events"
    and "length rtmrs = 4" and "\<forall>r \<in> set rtmrs. length r = 96"
  shows "(well_indexed events \<longrightarrow> (\<exists>out. replay_events sha events rtmrs = Ok out \<and> length out = 4
      \<and> (\<forall>i < 4. take 48 (out ! i) = extended sha (take 48 (rtmrs ! i)) (measured i events))))
    \<and> (\<not> well_indexed events \<longrightarrow> replay_events sha events rtmrs = Err ())"
  using assms(2-4)
proof (induction events arbitrary: rtmrs)
  case Nil
  then show ?case by (simp add: well_indexed_def)
next
  case (Cons e events)
  obtain h d where e: "e = (h, d)" by (cases e)
  have len: "length (digest h) = 48" and typed: "digests_typed events"
    using Cons.prems by (auto simp: digests_typed_def e)
  show ?case
  proof (cases "1 \<le> mr_index h \<and> mr_index h \<le> 4")
    case False
    then show ?thesis by (auto simp: e well_indexed_def MAX_RTMR_INDEX_def)
  next
    case True
    let ?k = "unat (mr_index h - 1)"
    have k: "?k < 4" "unat (mr_index h) = ?k + 1" using mr_index_range True by blast+
    have r: "length (rtmrs ! ?k) = 96" using Cons.prems k(1) by (simp add: nth_mem)
    let ?buf = "take 48 (rtmrs ! ?k) @ digest h"
    let ?out = "rtmrs[?k := overwrite 0 (sha ?buf) ?buf]"
    note ext = extend_buffer [OF r len, OF assms(1)]
    have step: "replay_events sha (e # events) rtmrs = replay_events sha events ?out"
      using True k(1) assms(1) by (simp add: e MAX_RTMR_INDEX_def Let_def ext(1) digest_sha384_def
            SHA384_DIGEST_SIZE_def)
    have "length ?out = 4" "\<forall>r \<in> set ?out. length r = 96"
      using Cons.prems ext(2) by (auto dest!: set_update_subset_insert [THEN subsetD])
    note IH = Cons.IH [OF typed this]
    have cur: "take 48 (?out ! i) = (if i = ?k then sha (take 48 (rtmrs ! i) @ digest h) else take 48 (rtmrs ! i))"
      if "i < 4" for i
      using that Cons.prems(2) ext(3) by (simp add: nth_list_update)
    have wi: "well_indexed (e # events) = well_indexed events" using True by (simp add: well_indexed_def e)
    show ?thesis
      using IH unfolding step wi by (auto simp: e cur k(2))
  qed
qed


lemma verify_event_log_eq:
  assumes "\<And>x. length (sha x) = 48" and "reader cc event_log = Some (pcr, events)" and "digests_typed events"
    and "length regs = 4"
  shows "verify_event_log False cc sha event_log regs =
    (if well_indexed events \<and> regs = map (\<lambda>i. extended sha zero_digest (measured i events)) [0..<4]
     then Ok () else Err ())"
proof -
  let ?z = "replicate 4 (replicate 96 0) :: bytes list"
  have z: "take 48 (?z ! i) = zero_digest" if "i < 4" for i using that by (simp add: zero_digest_def)
  have regs: "regs = map f [0..<4] \<longleftrightarrow> regs ! 0 = f 0 \<and> regs ! 1 = f 1 \<and> regs ! 2 = f 2 \<and> regs ! 3 = f 3" for f
    using assms(4) by (auto simp: list_eq_iff_nth_eq less_Suc_eq numeral_eq_Suc)
  show ?thesis
  proof (cases "well_indexed events")
    case True
    then obtain out where out: "replay_events sha events ?z = Ok out"
      "\<forall>i < 4. take 48 (out ! i) = extended sha zero_digest (measured i events)"
      using replay_events_eq [of sha events ?z, OF assms(1,3)] z by auto
    then show ?thesis
      using True by (simp add: verify_event_log_def replay_event_log_with_report_def assms(2) regs slice_def)
  next
    case False
    then show ?thesis
      using replay_events_eq [of sha events ?z, OF assms(1,3)]
      by (simp add: verify_event_log_def replay_event_log_with_report_def assms(2))
  qed
qed

text \<open>
  The inputs that are hashed while a register is extended.  Two histories of digests that end in the
  same value are equal, or two of these inputs collide, or one of them hashes to the start value.
\<close>

fun hashed_inputs :: "(bytes \<Rightarrow> bytes) \<Rightarrow> bytes \<Rightarrow> bytes list \<Rightarrow> bytes list" where
  "hashed_inputs sha v [] = []"
| "hashed_inputs sha v (d # ds) = (v @ d) # hashed_inputs sha (sha (v @ d)) ds"

definition collide_in :: "(bytes \<Rightarrow> bytes) \<Rightarrow> bytes list \<Rightarrow> bytes list \<Rightarrow> bool" where
  "collide_in sha xs ys \<longleftrightarrow> (\<exists>x \<in> set xs. \<exists>y \<in> set ys. x \<noteq> y \<and> sha x = sha y)"

definition zero_in :: "(bytes \<Rightarrow> bytes) \<Rightarrow> bytes list \<Rightarrow> bool" where
  "zero_in sha xs \<longleftrightarrow> (\<exists>x \<in> set xs. sha x = zero_digest)"

abbreviation register_inputs :: "(bytes \<Rightarrow> bytes) \<Rightarrow> bytes list \<Rightarrow> bytes list" where
  "register_inputs sha \<equiv> hashed_inputs sha zero_digest"

lemma length_extended:
  "(\<And>x. length (sha x) = 48) \<Longrightarrow> length v = 48 \<Longrightarrow> length (extended sha v ds) = 48"
  by (induction ds arbitrary: v) auto

lemma hashed_inputs_snoc:
  "hashed_inputs sha v (ds @ [d]) = hashed_inputs sha v ds @ [extended sha v ds @ d]"
  by (induction ds arbitrary: v) auto

lemma extended_inj:
  assumes "\<And>x. length (sha x) = 48"
    and "\<not> collide_in sha (register_inputs sha ds) (register_inputs sha es)"
    and "\<not> zero_in sha (register_inputs sha ds @ register_inputs sha es)"
    and "\<forall>d \<in> set ds. length d = 48" and "\<forall>d \<in> set es. length d = 48"
    and "extended sha zero_digest ds = extended sha zero_digest es"
  shows "ds = es"
  using assms(2-6)
proof (induction ds arbitrary: es rule: rev_induct)
  case Nil
  then show ?case
    by (cases es rule: rev_cases) (auto simp: zero_in_def hashed_inputs_snoc extended_append)
next
  case (snoc d ds)
  note prems = snoc.prems and IH = snoc.IH
  let ?x = "extended sha zero_digest ds @ d"
  show ?case
  proof (cases es rule: rev_cases)
    case Nil
    then show ?thesis using prems(2,5) by (auto simp: zero_in_def hashed_inputs_snoc extended_append)
  next
    case (snoc ys y)
    let ?y = "extended sha zero_digest ys @ y"
    have "sha ?x = sha ?y" using snoc prems(5) by (simp add: extended_append)
    then have "?x = ?y" using snoc prems(1) by (auto simp: collide_in_def hashed_inputs_snoc)
    then have "extended sha zero_digest ds = extended sha zero_digest ys" "d = y"
      using snoc prems(3,4) by (auto simp: append_eq_append_conv)
    then show ?thesis
      using IH [of ys] prems snoc by (auto simp: collide_in_def zero_in_def hashed_inputs_snoc)
  qed
qed

lemma measured_typed: "digests_typed events \<Longrightarrow> \<forall>d \<in> set (measured i events). length d = 48"
  by (auto simp: measured_def digests_typed_def)

lemma parse_event_panic:
  "parse_event cc h d events = Panic \<longleftrightarrow> event_type h = ev_firmware_blob2 cc \<and> d = []"
  by (auto simp: parse_event_def Let_def outcome_simps index_at_def split: if_splits)

lemma parse_event_list_panicD:
  "parse_event_list cc es events = Panic
     \<Longrightarrow> \<exists>h. (h, []) \<in> set es \<and> event_type h = ev_firmware_blob2 cc"
  by (induction cc es events rule: parse_event_list.induct)
     (auto simp: outcome_simps parse_event_panic)

lemma parse_event_list_append:
  "parse_event_list cc (es @ fs) events = rbind (parse_event_list cc es events) (parse_event_list cc fs)"
proof (induction cc es events rule: parse_event_list.induct)
  case (2 cc header data rest events)
  then show ?case by (cases "parse_event cc header data events") auto
qed simp

section \<open>Properties\<close>

text \<open>
  C12: Replaying an event log is the register arithmetic of the platform: verification accepts exactly
  the logs whose events all name one of the four registers and whose digests, in order, extend each
  register from zero to the value in the report.
\<close>

theorem verify_event_log_exact:
  assumes "\<And>x. length (sha x) = 48" and "\<And>pcr events. reader cc event_log = Some (pcr, events) \<Longrightarrow> digests_typed events"
    and "length regs = 4"
  shows "verify_event_log False cc sha event_log regs = Ok () \<longleftrightarrow>
    (\<exists>pcr events. reader cc event_log = Some (pcr, events) \<and> well_indexed events
      \<and> regs = map (\<lambda>i. extended sha zero_digest (measured i events)) [0..<4])"
proof (cases "reader cc event_log")
  case None
  then show ?thesis by (simp add: verify_event_log_def replay_event_log_with_report_def)
next
  case (Some r)
  obtain pcr events where r: "r = (pcr, events)" by (cases r)
  show ?thesis
    using verify_event_log_eq [of sha cc event_log pcr events regs, OF assms(1)] Some r assms(2,3) by auto
qed

text \<open>A log reader and a hash for concrete runs.\<close>

definition sample_header :: "32 word \<Rightarrow> bytes \<Rightarrow> cc_event_header" where
  "sample_header mr dig =
     \<lparr> mr_index = mr, event_type = EV_EVENT_TAG, digest = dig, event_size = 4 \<rparr>"

definition sample_events :: "(cc_event_header \<times> bytes) list" where
  "sample_events = [(sample_header 3 (replicate 48 5), u32_le 1), (sample_header 4 (replicate 48 6), u32_le 2)]"

definition sample_cc :: cc_measurement where
  "sample_cc = \<lparr> reader = (\<lambda>log. if log = [] then None else Some (0, take (unat (hd log)) sample_events)),
     pcr_header_size = 32, header_size = 66, header_bytes = (\<lambda>h. replicate 66 0),
     ev_firmware_blob2 = 0x8000000A, ev_config_flags = 0xA \<rparr>"

definition sample_sha :: "bytes \<Rightarrow> bytes" where
  "sample_sha data = replicate 48 (hd (drop 48 data @ [0]))"

lemma sample_typed: "reader sample_cc log = Some (pcr, events) \<Longrightarrow> digests_typed events"
  by (auto simp: sample_cc_def digests_typed_def sample_events_def sample_header_def
        split: if_splits dest!: in_set_takeD)

theorem verify_event_log_exact_witness:
  "verify_event_log False sample_cc sample_sha [2]
     [zero_digest, zero_digest, replicate 48 5, replicate 48 6] = Ok ()"
proof -
  have "well_indexed sample_events
      \<and> [zero_digest, zero_digest, replicate 48 5, replicate 48 6]
        = map (\<lambda>i. extended sample_sha zero_digest (measured i sample_events)) [0..<4]"
    by (simp add: well_indexed_def sample_events_def sample_header_def sample_sha_def zero_digest_def upt_rec)
  moreover have "reader sample_cc [2] = Some (0, sample_events)"
    by (simp add: sample_cc_def sample_events_def)
  ultimately show ?thesis
    using verify_event_log_exact [of sample_sha sample_cc "[2]" "[zero_digest, zero_digest, replicate 48 5, replicate 48 6]"]
      sample_typed by (auto simp: sample_sha_def)
qed

text \<open>
  C13: A report's registers determine the measured history.  If two event logs both verify against
  the same registers, then for each register they measure the same digests in the same order; if the
  histories differ, the inputs hashed while extending that register in the two runs contain a
  collision of the hash function, or one that hashes to the start value of the register.
\<close>

theorem verify_event_log_binding:
  assumes "\<And>x. length (sha x) = 48" and "length regs = 4" and "i < 4"
    and "reader cc log1 = Some (pcr1, events1)" and "digests_typed events1"
    and "reader cc log2 = Some (pcr2, events2)" and "digests_typed events2"
    and "verify_event_log False cc sha log1 regs = Ok ()"
    and "verify_event_log False cc sha log2 regs = Ok ()"
  shows "measured i events1 = measured i events2
    \<or> collide_in sha (register_inputs sha (measured i events1)) (register_inputs sha (measured i events2))
    \<or> zero_in sha (register_inputs sha (measured i events1) @ register_inputs sha (measured i events2))"
proof -
  have "regs = map (\<lambda>i. extended sha zero_digest (measured i events1)) [0..<4]"
    "regs = map (\<lambda>i. extended sha zero_digest (measured i events2)) [0..<4]"
    using assms(8,9) verify_event_log_eq [of sha cc log1 pcr1 events1 regs, OF assms(1,4,5,2)]
      verify_event_log_eq [of sha cc log2 pcr2 events2 regs, OF assms(1,6,7,2)]
    by (auto split: if_splits)
  then have "extended sha zero_digest (measured i events1) = extended sha zero_digest (measured i events2)"
    using assms(3) by (metis (no_types, lifting) add_0 diff_zero length_upt nth_map nth_upt)
  then show ?thesis
    using extended_inj [of sha "measured i events1" "measured i events2", OF assms(1)]
      measured_typed assms(5,7) by blast
qed

theorem verify_event_log_binding_witness:
  "reader sample_cc [2] = Some (0, sample_events) \<and> reader sample_cc [3] = Some (0, sample_events)
   \<and> (measured 2 sample_events = measured 2 sample_events
    \<or> collide_in sample_sha (register_inputs sample_sha (measured 2 sample_events))
        (register_inputs sample_sha (measured 2 sample_events))
    \<or> zero_in sample_sha (register_inputs sample_sha (measured 2 sample_events)
        @ register_inputs sample_sha (measured 2 sample_events)))"
proof -
  have len: "length (sample_sha x) = 48" for x by (simp add: sample_sha_def)
  have rd: "reader sample_cc [2] = Some (0, sample_events)" "reader sample_cc [3] = Some (0, sample_events)"
    by (simp_all add: sample_cc_def sample_events_def)
  let ?regs = "[zero_digest, zero_digest, replicate 48 5, replicate 48 6]"
  have ok: "verify_event_log False sample_cc sample_sha log ?regs = Ok ()"
    if "reader sample_cc log = Some (0, sample_events)" for log
    using verify_event_log_eq [of sample_sha sample_cc log 0 sample_events ?regs, OF len that sample_typed [OF that]]
    by (simp add: well_indexed_def sample_events_def sample_header_def sample_sha_def zero_digest_def upt_rec)
  show ?thesis
    using verify_event_log_binding [of sample_sha ?regs 2 sample_cc "[2]" 0 sample_events "[3]" 0 sample_events,
        OF len _ _ rd(1) sample_typed [OF rd(1)] rd(2) sample_typed [OF rd(2)] ok [OF rd(1)] ok [OF rd(2)]] rd
    by simp
qed

lemma measured_snoc:
  assumes "mr_index h = mr" and "1 \<le> mr" and "mr \<le> 4"
  shows "measured i (events @ [(h, d)]) = measured i events @ (if i = unat (mr - 1) then [digest h] else [])"
  using mr_index_range [OF assms(2,3)] assms(1) by (auto simp: measured_def)

lemma upt_four_update:
  "(map f [0..<4])[k := x] = map (f(k := x)) [0..<4]"
  by (auto simp: list_eq_iff_nth_eq nth_list_update)

lemma write_tagged_Ok:
  assumes "write_tagged_event_log cc sha tdcall_extend mr hash_data tag_id tag_data (event_log, regs) = (Ok n, event_log', regs')"
  shows "\<exists>size. event_log_size cc event_log = Some size \<and> 1 \<le> mr \<and> mr \<le> 4 \<and> length (sha hash_data) = 48
    \<and> tdcall_extend regs (sha hash_data) (unat (mr - 1)) = Some regs'
    \<and> n = size + header_size cc + length (tagged_event_new tag_id tag_data) \<and> n \<le> length event_log"
  using assms
  by (auto simp: write_tagged_event_log_def calculate_digest_def digest_sha384_def extend_rtmr_def Let_def
        SHA384_DIGEST_SIZE_def split: option.splits outcome.splits if_splits prod.splits)

text \<open>The header \<open>write_tagged_event_log\<close> writes.\<close>

definition tagged_header :: "(bytes \<Rightarrow> bytes) \<Rightarrow> 32 word \<Rightarrow> bytes \<Rightarrow> 32 word \<Rightarrow> bytes \<Rightarrow> cc_event_header" where
  "tagged_header sha mr hash_data tag_id tag_data =
     \<lparr> mr_index = mr, event_type = EV_EVENT_TAG, digest = sha hash_data,
       event_size = word_of_nat (length (tagged_event_new tag_id tag_data)) \<rparr>"

lemma parse_tagged_policy:
  assumes "ev_firmware_blob2 cc \<noteq> EV_EVENT_TAG" and "ev_config_flags cc \<noteq> EV_EVENT_TAG"
  shows "parse_event cc (tagged_header sha mr hash_data TAGGED_EVENT_ID_POLICY tag_data)
      (tagged_event_new TAGGED_EVENT_ID_POLICY tag_data) events
    = Ok (events(MigTdPolicy \<mapsto>
        \<lparr> ev_header = tagged_header sha mr hash_data TAGGED_EVENT_ID_POLICY tag_data, ev_data = None \<rparr>))"
  using assms
  by (simp add: parse_event_def tagged_header_def Let_def tagged_event_new_def get_range_def slice_def
        outcome_simps)


text \<open>A reader that sees one policy event once byte 32 of the log is set.\<close>

definition sample_cc_tag :: cc_measurement where
  "sample_cc_tag = \<lparr> reader = (\<lambda>log. Some (0, if log ! 32 = 0 then []
       else [(tagged_header sample_sha 4 [7] TAGGED_EVENT_ID_POLICY [], tagged_event_new TAGGED_EVENT_ID_POLICY [])])),
     pcr_header_size = 32, header_size = 66, header_bytes = (\<lambda>h. replicate 66 1),
     ev_firmware_blob2 = 0x8000000A, ev_config_flags = 0xA \<rparr>"

definition sample_extend :: "bytes list \<Rightarrow> bytes \<Rightarrow> nat \<Rightarrow> bytes list option" where
  "sample_extend r d i = Some (r[i := sample_sha (r ! i @ d)])"

lemma sample_cc_tag_start:
  assumes "32 < k"
  shows "reader sample_cc_tag (replicate k 0) = Some (0, [])"
    and "verify_event_log False sample_cc_tag sample_sha (replicate k 0) (replicate 4 zero_digest) = Ok ()"
    and "event_log_size sample_cc_tag (replicate k 0) = Some 32"
    and "parse_events sample_cc_tag (replicate k 0) = Ok Map.empty"
proof -
  show rd: "reader sample_cc_tag (replicate k 0) = Some (0, [])" using assms by (simp add: sample_cc_tag_def)
  show "verify_event_log False sample_cc_tag sample_sha (replicate k 0) (replicate 4 zero_digest) = Ok ()"
    using verify_event_log_eq [of sample_sha sample_cc_tag "replicate k 0" 0 "[]" "replicate 4 zero_digest", OF _ rd]
    by (simp add: sample_sha_def digests_typed_def well_indexed_def map_replicate_const)
  show "event_log_size sample_cc_tag (replicate k 0) = Some 32"
    using rd by (simp add: event_log_size_def) (simp add: sample_cc_tag_def)
  show "parse_events sample_cc_tag (replicate k 0) = Ok Map.empty"
    using rd by (simp add: parse_events_def)
qed

lemmas sample_write_defs = write_tagged_event_log_def calculate_digest_def digest_sha384_def extend_rtmr_def
  SHA384_DIGEST_SIZE_def sample_extend_def tagged_event_new_def


text \<open>
  C39: A full event log breaks the measurement.  When the new event does not fit, the log is left as
  it was but the register has already been extended, so that the log no longer verifies against the
  registers (unless the extension is a fixed point of the hash).
\<close>

theorem write_tagged_event_no_room:
  assumes "\<And>x. length (sha x) = 48" and "\<And>r d i. tdcall_extend r d i = Some (r[i := sha (r ! i @ d)])"
    and "1 \<le> mr" and "mr \<le> 4"
    and "reader cc event_log = Some (pcr, events)" and "digests_typed events" and "length regs = 4"
    and "verify_event_log False cc sha event_log regs = Ok ()"
    and "event_log_size cc event_log = Some log_size"
    and "length event_log < log_size + header_size cc + length (tagged_event_new tag_id data)"
  shows "\<exists>regs'. write_tagged_event_log cc sha tdcall_extend mr hash_data tag_id data (event_log, regs)
      = (Err (), event_log, regs')
    \<and> (verify_event_log False cc sha event_log regs' = Err ()
       \<or> sha (regs ! unat (mr - 1) @ sha hash_data) = regs ! unat (mr - 1))"
proof -
  let ?k = "unat (mr - 1)"
  let ?regs = "regs[?k := sha (regs ! ?k @ sha hash_data)]"
  have k: "?k < 4" using mr_index_range(1) [OF assms(3,4)] .
  have run: "write_tagged_event_log cc sha tdcall_extend mr hash_data tag_id data (event_log, regs)
      = (Err (), event_log, ?regs)"
    using assms(1-4,9,10)
    by (simp add: write_tagged_event_log_def calculate_digest_def digest_sha384_def extend_rtmr_def Let_def
          SHA384_DIGEST_SIZE_def)
  note eqs = verify_event_log_eq [of sha cc event_log pcr events, OF assms(1,5,6)]
  have "verify_event_log False cc sha event_log ?regs = Err () \<or> ?regs = regs"
    using eqs [of regs] eqs [of ?regs] assms(7,8) by (auto split: if_splits)
  moreover have "?regs = regs \<Longrightarrow> sha (regs ! ?k @ sha hash_data) = regs ! ?k"
    using k assms(7) by (metis nth_list_update_eq)
  ultimately show ?thesis using run by blast
qed

lemma sample_header_size: "header_size sample_cc_tag = 66"
  by (simp add: sample_cc_tag_def)

theorem write_tagged_event_no_room_witness:
  "\<exists>regs'. write_tagged_event_log sample_cc_tag sample_sha sample_extend 4 [7] 1 [] (replicate 40 0, replicate 4 zero_digest)
       = (Err (), replicate 40 0, regs')
     \<and> (verify_event_log False sample_cc_tag sample_sha (replicate 40 0) regs' = Err ()
        \<or> sample_sha (zero_digest @ sample_sha [7]) = zero_digest)"
  using write_tagged_event_no_room [of sample_sha sample_extend 4 sample_cc_tag "replicate 40 0" 0 "[]"
      "replicate 4 zero_digest" 32 1 "[]" "[7]"] sample_cc_tag_start [of 40]
  by (simp add: sample_extend_def sample_sha_def digests_typed_def sample_header_size)

text \<open>
  C40: Parsing an event log panics exactly because of an empty firmware event: if no event of the
  firmware type has empty data, every log is parsed or rejected, and a log with such an event first
  brings the parser down.
\<close>

theorem parse_events_panic:
  "(parse_events cc event_log = Panic \<longrightarrow>
      (\<exists>pcr events h. reader cc event_log = Some (pcr, events)
        \<and> (h, []) \<in> set events \<and> event_type h = ev_firmware_blob2 cc))
   \<and> (reader cc event_log = Some (pcr, (h, []) # events) \<and> event_type h = ev_firmware_blob2 cc
      \<longrightarrow> parse_events cc event_log = Panic)"
  by (auto simp: parse_events_def outcome_simps parse_event_panic
        split: prod.splits dest: parse_event_list_panicD)

definition sample_cc_empty :: cc_measurement where
  "sample_cc_empty = sample_cc_tag\<lparr> reader := \<lambda>log. Some (0,
     [(\<lparr> mr_index = 1, event_type = 0x8000000A, digest = zero_digest, event_size = 0 \<rparr>, [])]) \<rparr>"

theorem parse_events_panic_witness: "parse_events sample_cc_empty [] = Panic"
  using parse_events_panic [of sample_cc_empty "[]" 0
      "\<lparr> mr_index = 1, event_type = 0x8000000A, digest = zero_digest, event_size = 0 \<rparr>" "[]"]
  by (simp add: sample_cc_empty_def) (simp add: sample_cc_tag_def)

end
