(* ===== verification/CertChain.thy ===== *)
theory CertChain
  imports EventLog MigTypes
begin

text \<open>
  Certificate chains, from \<open>src/crypto/src/lib.rs\<close>: extracting a chain from PEM, verifying it from the
  leaf to the root, verifying a message against the leaf's key, comparing a peer's chain with the
  local one, the hash of the policy signer's key, and the number of a revocation list
  (\<open>src/crypto/src/crl.rs\<close>).  PEM and DER decoding and the signature primitive are parameters.
\<close>

section \<open>Model\<close>

text \<open>The structures of \<open>x509.rs\<close>; an object identifier is its list of arcs, an ASN.1 value its tag and content.\<close>

type_synonym oid = "nat list"
type_synonym any = "8 word \<times> bytes"

record bit_string =
  unused_bits :: "8 word"
  inner :: bytes

record algorithm_identifier =
  algorithm :: oid
  parameters :: "any option"

record distinguished_name =
  attribute_type :: oid
  dn_value :: any

datatype time = Utc nat | Generalized nat

record validity =
  not_before :: time
  not_after :: time

record subject_public_key_info =
  spki_algorithm :: algorithm_identifier
  subject_public_key :: bit_string

record extension =
  extn_id :: oid
  critical :: "bool option"
  extn_value :: "bytes option"

record tbs_certificate =
  version :: bytes
  serial_number :: bytes
  tbs_signature :: algorithm_identifier
  issuer :: "distinguished_name list list"
  tbs_validity :: validity
  subject :: "distinguished_name list list"
  spki :: subject_public_key_info
  issuer_unique_id :: "bit_string option"
  subject_unique_id :: "bit_string option"
  extensions :: "extension list option"

record certificate =
  tbs :: tbs_certificate
  signature_algorithm :: algorithm_identifier
  signature_value :: bit_string

record basic_constraints =
  ca :: "bool option"
  path_len :: "32 word option"

text \<open>
  What the crates \<open>der\<close>, \<open>rustls-pki-types\<close> and \<open>ring\<close> provide: PEM and DER decoding and encoding,
  the constructor of a bit string and of a time, signature verification and the hash.
\<close>

record crypto_env =
  pem_slice_iter :: "bytes \<Rightarrow> bytes option list"
  from_der :: "bytes \<Rightarrow> certificate option"
  tbs_to_der :: "tbs_certificate \<Rightarrow> bytes option"
  basic_constraints_from_der :: "bytes \<Rightarrow> basic_constraints option"
  bit_string_new :: "8 word \<Rightarrow> bytes \<Rightarrow> bit_string option"
  octet_string_new :: "bytes \<Rightarrow> bytes option"
  generalized_time :: "nat \<Rightarrow> nat option"
  ecdsa_p384_verify :: "bytes \<Rightarrow> bytes \<Rightarrow> bytes \<Rightarrow> bool"
  sha384 :: "bytes \<Rightarrow> bytes"

text \<open>\<open>BitStringRef::as_bytes\<close>: only a whole number of bytes can be read as bytes.\<close>

definition as_bytes :: "bit_string \<Rightarrow> bytes option" where
  "as_bytes b = (if unused_bits b = 0 then Some (inner b) else None)"

subsection \<open>Building a certificate\<close>

definition default_name :: "distinguished_name list list" where
  "default_name =
     [[\<lparr> attribute_type = [2, 5, 4, 6], dn_value = (0x13, ascii_bytes ''XX'') \<rparr>],
      [\<lparr> attribute_type = [2, 5, 4, 7], dn_value = (0x0C, ascii_bytes ''Default City'') \<rparr>],
      [\<lparr> attribute_type = [2, 5, 4, 10], dn_value = (0x0C, ascii_bytes ''Default Company Ltd'') \<rparr>]]"

definition certificate_new ::
    "crypto_env \<Rightarrow> algorithm_identifier \<Rightarrow> algorithm_identifier \<Rightarrow> bytes \<Rightarrow> (unit, certificate) outcome" where
  "certificate_new env signature alg public_key =
     rbind (ok_or () (generalized_time env 0)) (\<lambda>t0.
     rbind (ok_or () (generalized_time env 0)) (\<lambda>t1.
     rbind (ok_or () (bit_string_new env 0 public_key)) (\<lambda>key.
     rbind (ok_or () (bit_string_new env 0 [])) (\<lambda>no_signature.
       Ok \<lparr> tbs = \<lparr> version = [2], serial_number = [1], tbs_signature = signature,
               issuer = default_name,
               tbs_validity = \<lparr> not_before = Generalized t0, not_after = Generalized t1 \<rparr>,
               subject = default_name,
               spki = \<lparr> spki_algorithm = alg, subject_public_key = key \<rparr>,
               issuer_unique_id = None, subject_unique_id = None, extensions = None \<rparr>,
            signature_algorithm = signature, signature_value = no_signature \<rparr>))))"

definition set_not_before :: "crypto_env \<Rightarrow> nat \<Rightarrow> certificate \<Rightarrow> (unit, certificate) outcome" where
  "set_not_before env t cert =
     rbind (ok_or () (generalized_time env t)) (\<lambda>g.
       Ok (cert\<lparr> tbs := (tbs cert)\<lparr> tbs_validity :=
         (tbs_validity (tbs cert))\<lparr> not_before := Generalized g \<rparr> \<rparr> \<rparr>))"

definition set_not_after :: "crypto_env \<Rightarrow> nat \<Rightarrow> certificate \<Rightarrow> (unit, certificate) outcome" where
  "set_not_after env t cert =
     rbind (ok_or () (generalized_time env t)) (\<lambda>g.
       Ok (cert\<lparr> tbs := (tbs cert)\<lparr> tbs_validity :=
         (tbs_validity (tbs cert))\<lparr> not_after := Generalized g \<rparr> \<rparr> \<rparr>))"

definition set_public_key ::
    "crypto_env \<Rightarrow> algorithm_identifier \<Rightarrow> bytes \<Rightarrow> certificate \<Rightarrow> (unit, certificate) outcome" where
  "set_public_key env alg public_key cert =
     rbind (ok_or () (bit_string_new env 0 public_key)) (\<lambda>key.
       Ok (cert\<lparr> tbs := (tbs cert)\<lparr> spki :=
         \<lparr> spki_algorithm = alg, subject_public_key = key \<rparr> \<rparr> \<rparr>))"

definition extension_new ::
    "crypto_env \<Rightarrow> oid \<Rightarrow> bool option \<Rightarrow> bytes option \<Rightarrow> (unit, extension) outcome" where
  "extension_new env oid crit v =
     rbind (case v of
         Some bs \<Rightarrow> rbind (ok_or () (octet_string_new env bs)) (\<lambda>os. Ok (Some os))
       | None \<Rightarrow> Ok None) (\<lambda>value.
       Ok \<lparr> extn_id = oid, critical = crit, extn_value = value \<rparr>)"

definition add_extension :: "extension \<Rightarrow> certificate \<Rightarrow> (unit, certificate) outcome" where
  "add_extension ext cert =
     Ok (cert\<lparr> tbs := (tbs cert)\<lparr> extensions :=
       (case extensions (tbs cert) of Some es \<Rightarrow> Some (es @ [ext]) | None \<Rightarrow> Some [ext]) \<rparr> \<rparr>)"

text \<open>\<open>signer\<close> writes a signature of the encoded body.\<close>

definition sign :: "crypto_env \<Rightarrow> (bytes \<Rightarrow> bytes) \<Rightarrow> certificate \<Rightarrow> (unit, certificate) outcome" where
  "sign env signer cert =
     rbind (ok_or () (tbs_to_der env (tbs cert))) (\<lambda>body.
     rbind (ok_or () (bit_string_new env 0 (signer body))) (\<lambda>value.
       Ok (cert\<lparr> signature_value := value \<rparr>)))"

subsection \<open>DER wrapping\<close>

definition DER_SEQUENCE_TAG :: byte where "DER_SEQUENCE_TAG = 0x30"
definition DER_BIT_STRING_TAG :: byte where "DER_BIT_STRING_TAG = 0x03"

definition asn1_wrap :: "byte \<Rightarrow> bytes \<Rightarrow> bytes \<Rightarrow> ('e, bytes) outcome" where
  "asn1_wrap tag bytes_a bytes_b =
     (let len = length bytes_a + length bytes_b in
      if len \<le> 0x7f then Ok ([tag, word_of_nat len] @ bytes_a @ bytes_b)
      else
        let encoded = rev (le_encode 8 len);
            leading_zero_bytes = length (takeWhile (\<lambda>x. x = 0) encoded)
        in if \<not> leading_zero_bytes < length encoded then Panic
           else
             let encoded_bytes = length encoded - leading_zero_bytes in
             Ok ([tag, 0x80 + word_of_nat encoded_bytes] @ drop leading_zero_bytes encoded
                 @ bytes_a @ bytes_b))"

definition wrap_in_sequence :: "bytes \<Rightarrow> ('e, bytes) outcome" where
  "wrap_in_sequence bs = asn1_wrap DER_SEQUENCE_TAG bs []"

definition wrap_in_bit_string :: "bytes \<Rightarrow> ('e, bytes) outcome" where
  "wrap_in_bit_string bs = asn1_wrap DER_BIT_STRING_TAG [0] bs"

text \<open>\<open>alg_id\<close> is the encoded algorithm identifier of the crate \<open>rustls-pki-types\<close>.\<close>

definition public_key_spki :: "bytes \<Rightarrow> bytes option \<Rightarrow> ('e, bytes) outcome" where
  "public_key_spki alg_id public_key =
     (case public_key of
        None \<Rightarrow> Panic
      | Some pub_key \<Rightarrow>
          rbind (wrap_in_sequence alg_id) (\<lambda>alg.
          rbind (wrap_in_bit_string pub_key) (\<lambda>key. wrap_in_sequence (alg @ key))))"

subsection \<open>Verifying a chain\<close>

definition ECDSA_WITH_SHA384 :: oid where
  "ECDSA_WITH_SHA384 = [1, 2, 840, 10045, 4, 3, 3]"

definition BASIC_CONSTRAINTS_OID :: oid where
  "BASIC_CONSTRAINTS_OID = [2, 5, 29, 19]"

definition CRL_NUMBER_OID :: oid where
  "CRL_NUMBER_OID = [2, 5, 29, 20]"

text \<open>The loop over the PEM blocks stops at the first that does not decode.\<close>

fun collect_certs :: "bytes option list \<Rightarrow> (crypto_error, bytes list) outcome" where
  "collect_certs [] = Ok []"
| "collect_certs (c # cs) =
     rbind (ok_or DecodePemCert c) (\<lambda>cert. rbind (collect_certs cs) (\<lambda>certs. Ok (cert # certs)))"

definition extract_cert_chain_from_pem ::
    "crypto_env \<Rightarrow> bytes \<Rightarrow> (crypto_error, bytes list) outcome" where
  "extract_cert_chain_from_pem env pem =
     rbind (collect_certs (pem_slice_iter env pem)) (\<lambda>chain.
       if chain = [] then Err (CertChainVerification ''No certificates found in chain'') else Ok chain)"

definition extract_public_key_from_cert :: "certificate \<Rightarrow> (crypto_error, bytes) outcome" where
  "extract_public_key_from_cert cert = ok_or ParseCertificate (as_bytes (subject_public_key (spki (tbs cert))))"

definition verify_signature_with_algorithm ::
    "crypto_env \<Rightarrow> bytes \<Rightarrow> bytes \<Rightarrow> bytes \<Rightarrow> algorithm_identifier \<Rightarrow> (crypto_error, unit) outcome" where
  "verify_signature_with_algorithm env public_key message signature signature_alg =
     (if algorithm signature_alg = ECDSA_WITH_SHA384
      then ensure (ecdsa_p384_verify env public_key message signature) SignatureVerification
      else Err UnsupportedAlgorithm)"

definition verify_cert_signature ::
    "crypto_env \<Rightarrow> certificate \<Rightarrow> certificate \<Rightarrow> (crypto_error, unit) outcome" where
  "verify_cert_signature env subject_cert issuer_cert =
     rbind (extract_public_key_from_cert issuer_cert) (\<lambda>issuer_public_key.
     rbind (ok_or ParseCertificate (as_bytes (signature_value subject_cert))) (\<lambda>signature.
     rbind (ok_or ParseCertificate (tbs_to_der env (tbs subject_cert))) (\<lambda>tbs_cert_der.
       verify_signature_with_algorithm env issuer_public_key tbs_cert_der signature
         (signature_algorithm subject_cert))))"

text \<open>The loop of \<open>verify_certificate_chain\<close>, over adjacent pairs.\<close>

fun verify_links :: "crypto_env \<Rightarrow> bytes list \<Rightarrow> (crypto_error, unit) outcome" where
  "verify_links env (c # d # cs) =
     rbind (ok_or ParseCertificate (from_der env c)) (\<lambda>subject_cert.
     rbind (ok_or ParseCertificate (from_der env d)) (\<lambda>issuer_cert.
     rbind (verify_cert_signature env subject_cert issuer_cert) (\<lambda>_. verify_links env (d # cs))))"
| "verify_links env cs = Ok ()"

definition verify_certificate_chain :: "crypto_env \<Rightarrow> bytes list \<Rightarrow> (crypto_error, unit) outcome" where
  "verify_certificate_chain env chain =
     (if chain = [] then Err (CertChainVerification ''Empty certificate chain'')
      else if length chain = 1 then Ok ()
      else verify_links env chain)"

definition verify_signature_with_cert ::
    "crypto_env \<Rightarrow> bytes \<Rightarrow> bytes \<Rightarrow> bytes \<Rightarrow> (crypto_error, unit) outcome" where
  "verify_signature_with_cert env cert_der message signature =
     rbind (ok_or ParseCertificate (from_der env cert_der)) (\<lambda>cert.
     rbind (extract_public_key_from_cert cert) (\<lambda>public_key.
       verify_signature_with_algorithm env public_key message signature (signature_algorithm cert)))"

definition verify_cert_chain_and_signature ::
    "crypto_env \<Rightarrow> bytes \<Rightarrow> bytes \<Rightarrow> bytes \<Rightarrow> (crypto_error, unit) outcome" where
  "verify_cert_chain_and_signature env cert_chain_pem message signature =
     rbind (extract_cert_chain_from_pem env cert_chain_pem) (\<lambda>chain.
     rbind (verify_certificate_chain env chain) (\<lambda>_.
     rbind (index_at 0 chain) (\<lambda>leaf. verify_signature_with_cert env leaf message signature)))"

definition get_policy_signer_key_hash :: "crypto_env \<Rightarrow> bytes \<Rightarrow> (crypto_error, bytes) outcome" where
  "get_policy_signer_key_hash env cert_chain_pem =
     rbind (extract_cert_chain_from_pem env cert_chain_pem) (\<lambda>chain.
       if chain = [] then Err (CertChainVerification ''No certificates found in chain'')
       else
         rbind (index_at 0 chain) (\<lambda>leaf.
         rbind (ok_or ParseCertificate (from_der env leaf)) (\<lambda>cert.
         rbind (extract_public_key_from_cert cert) (\<lambda>public_key.
           map_err (\<lambda>_. CalculateDigest) (digest_sha384 (sha384 env) public_key)))))"

fun find_basic_constraints ::
    "crypto_env \<Rightarrow> extension list \<Rightarrow> (crypto_error, bool) outcome" where
  "find_basic_constraints env [] = Ok False"
| "find_basic_constraints env (e # es) =
     (if extn_id e = BASIC_CONSTRAINTS_OID
      then
        rbind (ok_or ParseCertificate (extn_value e)) (\<lambda>v.
        rbind (ok_or ParseCertificate (basic_constraints_from_der env v)) (\<lambda>bc.
          Ok (case ca bc of Some b \<Rightarrow> b | None \<Rightarrow> False)))
      else find_basic_constraints env es)"

definition is_ca_certificate :: "crypto_env \<Rightarrow> certificate \<Rightarrow> (crypto_error, bool) outcome" where
  "is_ca_certificate env cert =
     (case extensions (tbs cert) of None \<Rightarrow> Ok False | Some es \<Rightarrow> find_basic_constraints env es)"

definition check_root_ca_match :: "bytes list \<Rightarrow> bytes list \<Rightarrow> (crypto_error, unit) outcome" where
  "check_root_ca_match local_chain peer_chain =
     (if local_chain = [] \<or> peer_chain = [] then Panic
      else if last local_chain \<noteq> last peer_chain
      then Err (PeerCertChainValidation ''Root CA mismatch between local and peer certificate chains'')
      else Ok ())"

fun check_issuers_are_ca :: "crypto_env \<Rightarrow> bytes list \<Rightarrow> (crypto_error, unit) outcome" where
  "check_issuers_are_ca env [] = Ok ()"
| "check_issuers_are_ca env (c # cs) =
     rbind (ok_or ParseCertificate (from_der env c)) (\<lambda>issuer.
     rbind (is_ca_certificate env issuer) (\<lambda>is_ca.
       if \<not> is_ca
       then Err (PeerCertChainValidation
         ''Peer chain contains a non-CA issuer certificate (BasicConstraints cA=TRUE missing)'')
       else check_issuers_are_ca env cs))"

definition validate_peer_cert_chain :: "crypto_env \<Rightarrow> bytes \<Rightarrow> bytes \<Rightarrow> (crypto_error, unit) outcome" where
  "validate_peer_cert_chain env local_chain_pem peer_chain_pem =
     rbind (extract_cert_chain_from_pem env local_chain_pem) (\<lambda>local_chain.
     rbind (extract_cert_chain_from_pem env peer_chain_pem) (\<lambda>peer_chain.
     rbind (verify_certificate_chain env peer_chain) (\<lambda>_.
     rbind (check_root_ca_match local_chain peer_chain) (\<lambda>_.
     rbind (index_at 0 local_chain) (\<lambda>local_der.
     rbind (ok_or ParseCertificate (from_der env local_der)) (\<lambda>local_leaf.
     rbind (index_at 0 peer_chain) (\<lambda>peer_der.
     rbind (ok_or ParseCertificate (from_der env peer_der)) (\<lambda>peer_leaf.
       if subject (tbs local_leaf) \<noteq> subject (tbs peer_leaf)
       then Err (PeerCertChainValidation
         ''Leaf certificate Subject Name mismatch between local and peer chains'')
       else check_issuers_are_ca env (drop 1 peer_chain)))))))))"

subsection \<open>Revocation lists\<close>

text \<open>
  The decoder of a list is a parameter and gives its extensions, when it has any; so is the decoder of
  a 32-bit integer.
\<close>

fun find_crl_number :: "(bytes \<Rightarrow> 32 word option) \<Rightarrow> extension list \<Rightarrow> (crypto_error, 32 word) outcome" where
  "find_crl_number u32_from_der [] = Err CrlNumberNotFound"
| "find_crl_number u32_from_der (e # es) =
     (if extn_id e = CRL_NUMBER_OID
      then rbind (ok_or CrlNumberNotFound (extn_value e)) (\<lambda>v. ok_or CrlNumberNotFound (u32_from_der v))
      else find_crl_number u32_from_der es)"

definition get_crl_number ::
    "(bytes \<Rightarrow> bytes option) \<Rightarrow> (bytes \<Rightarrow> extension list option option) \<Rightarrow> (bytes \<Rightarrow> 32 word option)
     \<Rightarrow> bytes \<Rightarrow> (crypto_error, 32 word) outcome" where
  "get_crl_number from_pem_slice crl_from_der u32_from_der crl =
     rbind (ok_or DecodePemCert (from_pem_slice crl)) (\<lambda>crl_der.
     rbind (ok_or ParseCertificate (crl_from_der crl_der)) (\<lambda>crl_extensions.
       case crl_extensions of
         Some cs \<Rightarrow> find_crl_number u32_from_der cs
       | None \<Rightarrow> Err CrlNumberNotFound))"

section \<open>What a chain of certificates says\<close>

text \<open>The key of the issuer verifies the signature of the subject, over the subject's own body.\<close>

definition signed_by :: "crypto_env \<Rightarrow> bytes \<Rightarrow> bytes \<Rightarrow> bool" where
  "signed_by env c d \<longleftrightarrow> (\<exists>s i key sig body.
     from_der env c = Some s \<and> from_der env d = Some i \<and>
     as_bytes (subject_public_key (spki (tbs i))) = Some key \<and>
     as_bytes (signature_value s) = Some sig \<and> tbs_to_der env (tbs s) = Some body \<and>
     algorithm (signature_algorithm s) = ECDSA_WITH_SHA384 \<and> ecdsa_p384_verify env key body sig)"

text \<open>The first \<open>BasicConstraints\<close> extension says that the subject is a certificate authority.\<close>

definition declares_ca :: "crypto_env \<Rightarrow> bytes \<Rightarrow> bool" where
  "declares_ca env d \<longleftrightarrow> (\<exists>i es e v bc.
     from_der env d = Some i \<and> extensions (tbs i) = Some es \<and>
     find (\<lambda>e. extn_id e = BASIC_CONSTRAINTS_OID) es = Some e \<and> extn_value e = Some v \<and>
     basic_constraints_from_der env v = Some bc \<and> ca bc = Some True)"

text \<open>What a trust anchor certifies: itself, and what a certified authority has signed.\<close>

inductive certified :: "crypto_env \<Rightarrow> bytes \<Rightarrow> bytes \<Rightarrow> bool" for env root where
  anchor: "certified env root root"
| issued: "certified env root d \<Longrightarrow> declares_ca env d \<Longrightarrow> signed_by env c d \<Longrightarrow> certified env root c"

lemma collect_certs_Ok [outcome_simps]: "collect_certs os = Ok cs \<longleftrightarrow> os = map Some cs"
  by (induction os arbitrary: cs) (auto simp: outcome_simps Cons_eq_map_conv)

lemma collect_certs_no_panic [simp]: "collect_certs os \<noteq> Panic"
  by (induction os) (auto simp: outcome_simps)

lemma extract_chain_Ok [outcome_simps]:
  "extract_cert_chain_from_pem env pem = Ok cs \<longleftrightarrow> pem_slice_iter env pem = map Some cs \<and> cs \<noteq> []"
  by (auto simp: extract_cert_chain_from_pem_def outcome_simps split: if_splits)

lemma extract_chain_no_panic [simp]: "extract_cert_chain_from_pem env pem \<noteq> Panic"
  by (auto simp: extract_cert_chain_from_pem_def outcome_simps split: if_splits)

lemma verify_signature_Ok [outcome_simps]:
  "verify_signature_with_algorithm env key msg sig alg = Ok () \<longleftrightarrow>
     algorithm alg = ECDSA_WITH_SHA384 \<and> ecdsa_p384_verify env key msg sig"
  by (simp add: verify_signature_with_algorithm_def outcome_simps)

lemma verify_signature_no_panic [simp]: "verify_signature_with_algorithm env key msg sig alg \<noteq> Panic"
  by (simp add: verify_signature_with_algorithm_def)

lemma extract_public_key_Ok [outcome_simps]:
  "extract_public_key_from_cert cert = Ok key \<longleftrightarrow> as_bytes (subject_public_key (spki (tbs cert))) = Some key"
  by (simp add: extract_public_key_from_cert_def outcome_simps)

lemma extract_public_key_no_panic [simp]: "extract_public_key_from_cert cert \<noteq> Panic"
  by (simp add: extract_public_key_from_cert_def)

lemma verify_cert_signature_Ok:
  "(\<exists>s i. from_der env c = Some s \<and> from_der env d = Some i \<and> verify_cert_signature env s i = Ok ()) \<longleftrightarrow>
     signed_by env c d"
  by (auto simp: verify_cert_signature_def signed_by_def outcome_simps)

lemma verify_cert_signature_no_panic [simp]: "verify_cert_signature env s i \<noteq> Panic"
  by (auto simp: verify_cert_signature_def outcome_simps)

lemma verify_links_Ok: "verify_links env cs = Ok () \<longleftrightarrow> successively (signed_by env) cs"
  by (induction env cs rule: verify_links.induct)
    (auto simp: outcome_simps verify_cert_signature_Ok [symmetric])

lemma verify_links_no_panic [simp]: "verify_links env cs \<noteq> Panic"
  by (induction env cs rule: verify_links.induct) (auto simp: outcome_simps)

lemma verify_certificate_chain_Ok [outcome_simps]:
  "verify_certificate_chain env cs = Ok () \<longleftrightarrow> cs \<noteq> [] \<and> successively (signed_by env) cs"
  using verify_links_Ok [of env cs]
  by (cases cs rule: remdups_adj.cases) (simp_all add: verify_certificate_chain_def del: verify_links.simps)

lemma verify_certificate_chain_no_panic [simp]: "verify_certificate_chain env cs \<noteq> Panic"
  by (simp add: verify_certificate_chain_def)

lemma find_basic_constraints_Ok:
  "find_basic_constraints env es = Ok True \<longleftrightarrow> (\<exists>e v bc.
     find (\<lambda>e. extn_id e = BASIC_CONSTRAINTS_OID) es = Some e \<and> extn_value e = Some v \<and>
     basic_constraints_from_der env v = Some bc \<and> ca bc = Some True)"
proof (induction es)
  case (Cons e es)
  have "(case b of Some b \<Rightarrow> b | None \<Rightarrow> False) = True \<longleftrightarrow> b = Some True" for b
    by (simp split: option.splits)
  with Cons show ?case by (auto simp: outcome_simps)
qed simp

lemma find_basic_constraints_no_panic [simp]: "find_basic_constraints env es \<noteq> Panic"
  by (induction es) (auto simp: outcome_simps)

lemma is_ca_certificate_no_panic [simp]: "is_ca_certificate env cert \<noteq> Panic"
  by (simp add: is_ca_certificate_def split: option.splits)

lemma is_ca_certificate_Ok:
  "(\<exists>i. from_der env d = Some i \<and> is_ca_certificate env i = Ok True) \<longleftrightarrow> declares_ca env d"
  by (auto simp: is_ca_certificate_def declares_ca_def find_basic_constraints_Ok split: option.splits)

lemma check_issuers_Ok [outcome_simps]:
  "check_issuers_are_ca env cs = Ok () \<longleftrightarrow> (\<forall>c\<in>set cs. declares_ca env c)"
  by (induction cs) (auto simp: outcome_simps is_ca_certificate_Ok [symmetric] split: if_splits)

lemma check_issuers_no_panic [simp]: "check_issuers_are_ca env cs \<noteq> Panic"
  by (induction cs) (auto simp: outcome_simps)

text \<open>A chain of signatures whose issuers are authorities makes its first certificate certified by its last.\<close>

lemma chain_certified:
  "successively (signed_by env) cs \<Longrightarrow> cs \<noteq> [] \<Longrightarrow> \<forall>c\<in>set (tl cs). declares_ca env c \<Longrightarrow>
     certified env (last cs) (hd cs)"
proof (induction cs)
  case (Cons c cs)
  show ?case
  proof (cases cs)
    case (Cons d ds)
    with Cons.prems Cons.IH show ?thesis
      by (auto intro: certified.issued)
  qed (simp add: certified.anchor)
qed simp

lemma validate_peer_Ok:
  "validate_peer_cert_chain env l p = Ok () \<longleftrightarrow> (\<exists>ls ps ll pl.
     pem_slice_iter env l = map Some ls \<and> ls \<noteq> [] \<and> pem_slice_iter env p = map Some ps \<and> ps \<noteq> [] \<and>
     successively (signed_by env) ps \<and> (\<forall>c\<in>set (tl ps). declares_ca env c) \<and> last ls = last ps \<and>
     from_der env (hd ls) = Some ll \<and> from_der env (hd ps) = Some pl \<and> subject (tbs ll) = subject (tbs pl))"
  unfolding validate_peer_cert_chain_def check_root_ca_match_def
  by (simp add: outcome_simps if_Ok_iff index_at_first drop_Suc del: index_at_eq_Ok) auto

section \<open>Round trips\<close>

text \<open>A reader of one tag-length-value element, with definite lengths.\<close>

fun der_read :: "bytes \<Rightarrow> (byte \<times> bytes \<times> bytes) option" where
  "der_read (tag # l # rest) =
     (if l \<le> 0x7f
      then (if unat l \<le> length rest then Some (tag, take (unat l) rest, drop (unat l) rest) else None)
      else
        let k = unat (l - 0x80); n = le_decode (rev (take k rest)) in
        if k + n \<le> length rest then Some (tag, take n (drop k rest), drop (k + n) rest) else None)"
| "der_read bs = None"

lemma le_decode_append: "le_decode (xs @ ys) = le_decode xs + 256 ^ length xs * le_decode ys"
  by (induction xs) (simp_all add: algebra_simps)

lemma le_decode_zeros: "\<forall>x\<in>set xs. x = 0 \<Longrightarrow> le_decode xs = 0"
  by (induction xs) auto

lemma le_decode_strip:
  "le_decode (rev (drop (length (takeWhile (\<lambda>x. x = 0) bs)) bs)) = le_decode (rev bs)"
proof -
  let ?z = "takeWhile (\<lambda>x. x = 0) bs"
  have "le_decode (rev bs) = le_decode (rev (drop (length ?z) bs) @ rev ?z)"
    by (metis append_take_drop_id rev_append takeWhile_eq_take)
  moreover have "le_decode (rev ?z) = 0"
    by (rule le_decode_zeros) (auto dest: set_takeWhileD)
  ultimately show ?thesis by (simp only: le_decode_append mult_0_right add_0_right)
qed

lemma le_decode_eq_0: "le_decode xs \<noteq> 0 \<Longrightarrow> \<exists>x\<in>set xs. x \<noteq> 0"
  using le_decode_zeros [of xs] by fastforce

lemma asn1_wrap_long:
  assumes "0x7f < length a + length b" and "length a + length b < 2 ^ 64"
  obtains lens where "asn1_wrap tag a b = Ok ([tag, 0x80 + word_of_nat (length lens)] @ lens @ a @ b)"
    and "lens \<noteq> []" and "length lens \<le> 8" and "le_decode (rev lens) = length a + length b"
proof -
  define e where "e = rev (le_encode 8 (length a + length b))"
  define z where "z = length (takeWhile (\<lambda>x. x = 0) e)"
  have val: "le_decode (rev e) = length a + length b"
    using assms(2) by (simp add: e_def le_decode_encode)
  with assms(1) have "le_decode (rev e) \<noteq> 0" by linarith
  from le_decode_eq_0 [OF this] have "takeWhile (\<lambda>x. x = 0) e \<noteq> e"
    by (simp only: takeWhile_eq_all_conv set_rev) blast
  then have z: "z < length e"
    unfolding z_def by (metis length_takeWhile_le nat_less_le order_refl takeWhile_eq_take take_all)
  have "length e = 8" by (simp add: e_def)
  moreover have "asn1_wrap tag a b = Ok ([tag, 0x80 + word_of_nat (length e - z)] @ drop z e @ a @ b)"
    unfolding asn1_wrap_def Let_def e_def [symmetric] z_def [symmetric]
    using z assms(1) by simp
  moreover have "le_decode (rev (drop z e)) = length a + length b"
    unfolding z_def using le_decode_strip [of e] val by (rule trans)
  ultimately show thesis using z by (intro that [of "drop z e"]) simp_all
qed

lemma der_read_short:
  assumes "length c \<le> 0x7f"
  shows "der_read ([tag, word_of_nat (length c)] @ c @ rest) = Some (tag, c, rest)"
proof -
  have "unat (word_of_nat (length c) :: byte) = length c" using assms by (simp add: unat_byte_of_nat)
  moreover from this have "(word_of_nat (length c) :: byte) \<le> 0x7f" using assms by (simp add: word_le_nat_alt)
  ultimately show ?thesis by simp
qed

lemma der_read_long:
  assumes "lens \<noteq> []" and "length lens \<le> 8" and "le_decode (rev lens) = length c"
  shows "der_read ([tag, 0x80 + word_of_nat (length lens)] @ lens @ c @ rest) = Some (tag, c, rest)"
proof -
  let ?l = "0x80 + word_of_nat (length lens) :: byte"
  have u: "unat ?l = 0x80 + length lens" using assms(2) by (simp add: unat_word_ariths unat_byte_of_nat)
  then have "\<not> ?l \<le> 0x7f" using assms(1) by (simp add: word_le_nat_alt)
  moreover have "unat (?l - 0x80) = length lens" using assms(2) by (simp add: unat_byte_of_nat)
  ultimately show ?thesis using assms(3) by (simp add: Let_def)
qed

text \<open>
  A small world for the witnesses: a certificate is one byte, its key is that byte, a signature is
  the key followed by the message, and the byte below is the issuer.  Only certificate 3 is no authority.
\<close>

definition sample_cert :: "byte \<Rightarrow> certificate" where
  "sample_cert b = (let alg = \<lparr> algorithm = ECDSA_WITH_SHA384, parameters = None \<rparr> in
     \<lparr> tbs = \<lparr> version = [2], serial_number = [b], tbs_signature = alg, issuer = [],
         tbs_validity = \<lparr> not_before = Generalized 0, not_after = Generalized 0 \<rparr>, subject = default_name,
         spki = \<lparr> spki_algorithm = alg, subject_public_key = \<lparr> unused_bits = 0, inner = [b] \<rparr> \<rparr>,
         issuer_unique_id = None, subject_unique_id = None,
         extensions = (if b = 3 then None
           else Some [\<lparr> extn_id = BASIC_CONSTRAINTS_OID, critical = None, extn_value = Some [] \<rparr>]) \<rparr>,
       signature_algorithm = alg, signature_value = \<lparr> unused_bits = 0, inner = [b - 1, b] \<rparr> \<rparr>)"

definition sample_env :: crypto_env where
  "sample_env = \<lparr> pem_slice_iter = map (\<lambda>b. Some [b]),
     from_der = (\<lambda>bs. case bs of [b] \<Rightarrow> Some (sample_cert b) | _ \<Rightarrow> None),
     tbs_to_der = (\<lambda>t. Some (serial_number t)),
     basic_constraints_from_der = (\<lambda>_. Some \<lparr> ca = Some True, path_len = None \<rparr>),
     bit_string_new = (\<lambda>u bs. Some \<lparr> unused_bits = u, inner = bs \<rparr>), octet_string_new = Some,
     generalized_time = Some, ecdsa_p384_verify = (\<lambda>key m sig. sig = key @ m),
     sha384 = (\<lambda>bs. replicate 48 (word_of_nat (length bs))) \<rparr>"

lemmas sample_defs = sample_env_def sample_cert_def Let_def as_bytes_def

text \<open>DER wrapping never fails on the assertion about leading zero bytes, and a reader of
  tag-length-value elements gets back the tag and the content, with whatever follows it left over:
  both length forms are written so that they can be read.\<close>

theorem asn1_wrap_roundtrip:
  assumes "length a + length b < 2 ^ 64"
  shows "\<exists>out. asn1_wrap tag a b = (Ok out :: (unit, bytes) outcome) \<and>
     (\<forall>rest. der_read (out @ rest) = Some (tag, a @ b, rest))"
proof (cases "length a + length b \<le> 0x7f")
  case True
  then show ?thesis using der_read_short [of "a @ b" tag] by (simp add: asn1_wrap_def del: der_read.simps)
next
  case False
  obtain lens where "asn1_wrap tag a b = (Ok ([tag, 0x80 + word_of_nat (length lens)] @ lens @ a @ b) :: (unit, bytes) outcome)"
    "lens \<noteq> []" "length lens \<le> 8" "le_decode (rev lens) = length (a @ b)"
    by (rule asn1_wrap_long [of a b tag]) (use False assms in auto)
  then show ?thesis using der_read_long [of lens "a @ b" tag] by (simp del: der_read.simps)
qed

theorem asn1_wrap_roundtrip_witness:
  "\<exists>out. asn1_wrap 3 [0] (replicate 200 7) = (Ok out :: (unit, bytes) outcome) \<and>
     (\<forall>rest. der_read (out @ rest) = Some (3, [0] @ replicate 200 7, rest))"
  by (rule asn1_wrap_roundtrip) simp

text \<open>C16: a peer's chain is accepted exactly when both chains decode and are not empty, every certificate of
  the peer's chain is signed by the key of the next one with ECDSA-P384-SHA384, every certificate after the
  first declares itself an authority, the two chains end in the same root, and the two leaves carry
  the same subject.  No input makes the validation panic.\<close>

theorem validate_peer_cert_chain_exact:
  "validate_peer_cert_chain env l p \<noteq> Panic \<and>
   (validate_peer_cert_chain env l p = Ok () \<longleftrightarrow> (\<exists>ls ps ll pl.
     pem_slice_iter env l = map Some ls \<and> ls \<noteq> [] \<and> pem_slice_iter env p = map Some ps \<and> ps \<noteq> [] \<and>
     successively (signed_by env) ps \<and> list_all (declares_ca env) (tl ps) \<and> last ls = last ps \<and>
     from_der env (hd ls) = Some ll \<and> from_der env (hd ps) = Some pl \<and> subject (tbs ll) = subject (tbs pl)))"
proof
  show "validate_peer_cert_chain env l p \<noteq> Panic"
    by (auto simp: validate_peer_cert_chain_def check_root_ca_match_def outcome_simps)
qed (simp add: validate_peer_Ok list_all_iff)

text \<open>C15: when a peer's chain is accepted, its leaf is certified by the root of the local chain: there is a path
  of signatures from that root in which every signer declares itself an authority.  A certificate signed
  with the key of a leaf that is no authority is not accepted, whoever holds that key.\<close>

theorem validate_peer_cert_chain_certified:
  assumes "validate_peer_cert_chain env l p = Ok ()"
    and "pem_slice_iter env l = map Some ls" and "pem_slice_iter env p = map Some ps"
  shows "certified env (last ls) (hd ps)"
proof -
  have "successively (signed_by env) ps" "ps \<noteq> []" "\<forall>c\<in>set (tl ps). declares_ca env c" "last ls = last ps"
    using assms by (auto simp: validate_peer_Ok inj_map_eq_map inj_def)
  then show ?thesis using chain_certified [of env ps] by simp
qed

theorem validate_peer_cert_chain_certified_witness:
  "certified sample_env (last [[2], [1]]) (hd [[3], [2], [1]])"
proof (rule validate_peer_cert_chain_certified [of _ "[2, 1]" "[3, 2, 1]"])
  show "validate_peer_cert_chain sample_env [2, 1] [3, 2, 1] = Ok ()"
    by (simp add: validate_peer_cert_chain_def extract_cert_chain_from_pem_def verify_certificate_chain_def
        verify_cert_signature_def extract_public_key_from_cert_def verify_signature_with_algorithm_def
        check_root_ca_match_def index_at_def is_ca_certificate_def sample_defs)
qed (simp_all add: sample_env_def)

text \<open>A certificate that the builder has signed verifies against any issuer certificate that carries the
  matching public key, when the signer produces signatures the verifier accepts.\<close>

theorem sign_verifies:
  assumes "\<And>m s. bit_string_new env 0 m = Some s \<Longrightarrow> as_bytes s = Some m"
    and "\<And>m. ecdsa_p384_verify env key m (signer m)"
    and "algorithm (signature_algorithm cert) = ECDSA_WITH_SHA384"
    and "as_bytes (subject_public_key (spki (tbs ca_cert))) = Some key"
    and "sign env signer cert = Ok cert2"
  shows "verify_cert_signature env cert2 ca_cert = Ok ()"
  using assms(2-) by (auto simp: sign_def verify_cert_signature_def outcome_simps dest!: assms(1))

theorem sign_verifies_witness:
  "\<exists>cert2. sign sample_env (\<lambda>m. 2 # m) (sample_cert 9) = Ok cert2 \<and>
     verify_cert_signature sample_env cert2 (sample_cert 2) = Ok ()"
proof -
  let ?c = "(sample_cert 9)\<lparr> signature_value := \<lparr> unused_bits = 0, inner = [2, 9] \<rparr> \<rparr>"
  have "sign sample_env (\<lambda>m. 2 # m) (sample_cert 9) = Ok ?c" by (simp add: sign_def sample_defs)
  moreover from this have "verify_cert_signature sample_env ?c (sample_cert 2) = Ok ()"
    by (rule sign_verifies [where key = "[2]", rotated -1]) (auto simp: sample_defs)
  ultimately show ?thesis by blast
qed

end
