(* ===== verification/PolicyV2.thy ===== *)
theory PolicyV2
  imports CertChain "HOL-Library.Char_ord" "HOL-Library.List_Lexorder"
begin

text \<open>
  The signed migration policy, from \<open>src/policy/src/v2\<close>: the platform status and its ranking, the
  evaluation of policy blocks against what is known of a MigTD, the documents that carry a signature
  (\<open>policy.rs\<close>, \<open>servtd_collateral.rs\<close>), the mapping from measurements to security versions, and
  the collaterals of a platform (\<open>collaterals.rs\<close>).  The JSON decoders are parameters.
  A string is the list of its UTF-8 bytes.
\<close>

section \<open>Strings of the standard library\<close>

text \<open>
  One step of UTF-8 decoding: how many bytes the next character takes, or how many bytes form the
  longest ill-formed piece.
\<close>

definition continuation :: "bytes \<Rightarrow> nat \<Rightarrow> byte \<Rightarrow> byte \<Rightarrow> bool" where
  "continuation bs i lo hi \<longleftrightarrow> i < length bs \<and> lo \<le> bs ! i \<and> bs ! i \<le> hi"

definition utf8_step :: "bytes \<Rightarrow> bool \<times> nat" where
  "utf8_step bs = (let b = hd bs in
     if b < 0x80 then (True, 1)
     else if 0xC2 \<le> b \<and> b \<le> 0xDF then
       (if continuation bs 1 0x80 0xBF then (True, 2) else (False, 1))
     else if 0xE0 \<le> b \<and> b \<le> 0xEF then
       (if \<not> continuation bs 1 (if b = 0xE0 then 0xA0 else 0x80) (if b = 0xED then 0x9F else 0xBF)
        then (False, 1)
        else if \<not> continuation bs 2 0x80 0xBF then (False, 2) else (True, 3))
     else if 0xF0 \<le> b \<and> b \<le> 0xF4 then
       (if \<not> continuation bs 1 (if b = 0xF0 then 0x90 else 0x80) (if b = 0xF4 then 0x8F else 0xBF)
        then (False, 1)
        else if \<not> continuation bs 2 0x80 0xBF then (False, 2)
        else if \<not> continuation bs 3 0x80 0xBF then (False, 3) else (True, 4))
     else (False, 1))"

lemma utf8_step_pos: "0 < snd (utf8_step bs)"
  by (simp add: utf8_step_def Let_def)

lemma utf8_step_drop: "bs \<noteq> [] \<Longrightarrow> (ok, n) = utf8_step bs \<Longrightarrow> length (drop n bs) < length bs"
  using utf8_step_pos [of bs] by (cases bs) (auto simp: prod_eq_iff)

function utf8_chunks :: "bytes \<Rightarrow> (bool \<times> bytes) list" where
  "utf8_chunks bs =
     (if bs = [] then []
      else (case utf8_step bs of (ok, n) \<Rightarrow> (ok, take n bs) # utf8_chunks (drop n bs)))"
  by pat_completeness auto
termination
  by (relation "measure length") (auto dest: utf8_step_drop simp del: length_drop)

declare utf8_chunks.simps [simp del]

definition chars_of_bytes :: "bytes \<Rightarrow> string" where
  "chars_of_bytes bs = map (\<lambda>b. char_of (unat b)) bs"

text \<open>\<open>str::as_bytes\<close>, \<open>str::from_utf8\<close> and \<open>String::from_utf8_lossy\<close>.\<close>

definition str_bytes :: "string \<Rightarrow> bytes" where
  "str_bytes s = map (\<lambda>c. word_of_nat (of_char c)) s"

definition from_utf8 :: "bytes \<Rightarrow> string option" where
  "from_utf8 bs = (if list_all fst (utf8_chunks bs) then Some (chars_of_bytes bs) else None)"

definition from_utf8_lossy :: "bytes \<Rightarrow> string" where
  "from_utf8_lossy bs =
     chars_of_bytes (concat (map (\<lambda>(ok, c). if ok then c else [0xEF, 0xBF, 0xBD]) (utf8_chunks bs)))"

text \<open>\<open>str::find\<close>.\<close>

fun find_str :: "string \<Rightarrow> string \<Rightarrow> nat option" where
  "find_str pat s =
     (if take (length pat) s = pat then Some 0
      else case s of [] \<Rightarrow> None | _ # s' \<Rightarrow> map_option Suc (find_str pat s'))"

declare find_str.simps [simp del]

text \<open>\<open>char::to_digit\<close> and \<open>from_str_radix\<close> of an unsigned integer below \<open>bound\<close>; a leading plus sign is allowed.\<close>

definition to_digit :: "nat \<Rightarrow> char \<Rightarrow> nat option" where
  "to_digit radix c = (let n = of_char c :: nat;
       d = (if 48 \<le> n \<and> n \<le> 57 then n - 48
            else if 97 \<le> n \<and> n \<le> 122 then n - 87
            else if 65 \<le> n \<and> n \<le> 90 then n - 55
            else radix)
     in if d < radix then Some d else None)"

fun parse_digits :: "nat \<Rightarrow> nat \<Rightarrow> nat \<Rightarrow> string \<Rightarrow> nat option" where
  "parse_digits radix bound acc [] = Some acc"
| "parse_digits radix bound acc (c # cs) =
     (case to_digit radix c of
        None \<Rightarrow> None
      | Some d \<Rightarrow> if acc * radix + d < bound then parse_digits radix bound (acc * radix + d) cs else None)"

definition from_str_radix :: "nat \<Rightarrow> nat \<Rightarrow> string \<Rightarrow> nat option" where
  "from_str_radix radix bound s =
     (if s = [] then None
      else if hd s = CHR ''+'' then (if tl s = [] then None else parse_digits radix bound 0 (tl s))
      else parse_digits radix bound 0 s)"

definition parse_u32 :: "string \<Rightarrow> 32 word option" where
  "parse_u32 s = map_option word_of_nat (from_str_radix 10 (2 ^ 32) s)"

text \<open>\<open>str::split("..")\<close>.\<close>

fun split_dots :: "string \<Rightarrow> string list" where
  "split_dots [] = [[]]"
| "split_dots [c] = [[c]]"
| "split_dots (c # d # cs) =
     (if c = CHR ''.'' \<and> d = CHR ''.'' then [] # split_dots cs
      else case split_dots (d # cs) of [] \<Rightarrow> [[c]] | p # ps \<Rightarrow> (c # p) # ps)"

definition to_ascii_uppercase :: "string \<Rightarrow> string" where
  "to_ascii_uppercase s =
     map (\<lambda>c. if 97 \<le> (of_char c :: nat) \<and> (of_char c :: nat) \<le> 122 then char_of (of_char c - 32 :: nat) else c) s"

section \<open>Errors and hexadecimal\<close>

datatype policy_error =
    FailGetReport | PolicyInvalidParameter | InvalidPolicy | InvalidEventLog | InvalidTdReport
  | PlatformNotFound string | PlatformNotMatch string string | UnqualifiedPlatformInfo
  | UnqualifiedQeInfo | UnqualifiedTdxModuleInfo | UnqualifiedMigTdInfo | PolicyCrypto
  | SignatureVerificationFailed | InvalidCollateral | InvalidOperation | InvalidReference
  | InvalidServtdIdentity | InvalidServtdTcbMapping | PolicyHashMismatch | InvalidQuote
  | SvnMismatch | TcbEvaluation | CrlEvaluation | HashCalculation | QuoteVerification
  | TdReportVerification | QuoteGeneration | GetTdxReport | PolicyPeerCertChainValidation

fun hex_pairs :: "string \<Rightarrow> (policy_error, bytes) outcome" where
  "hex_pairs (a # b # cs) =
     rbind (ok_or PolicyInvalidParameter (from_str_radix 16 256 [a, b])) (\<lambda>v.
     rbind (hex_pairs cs) (\<lambda>bs. Ok (word_of_nat v # bs)))"
| "hex_pairs cs = Ok []"

definition hex_string_to_bytes :: "string \<Rightarrow> (policy_error, bytes) outcome" where
  "hex_string_to_bytes hex =
     (if hex = [] \<or> odd (length hex) \<or> \<not> list_all (\<lambda>c. (of_char c :: nat) < 128) hex
      then Err PolicyInvalidParameter
      else hex_pairs hex)"

definition hex_digit :: "nat \<Rightarrow> char" where
  "hex_digit d = char_of (if d < 10 then 48 + d else 55 + d)"

definition bytes_to_hex_string :: "bytes \<Rightarrow> string" where
  "bytes_to_hex_string bs = concat (map (\<lambda>b. [hex_digit (unat b div 16), hex_digit (unat b mod 16)]) bs)"

definition verify_event_hash ::
    "(bytes \<Rightarrow> bytes) \<Rightarrow> (event_name \<rightharpoonup> cc_event) \<Rightarrow> event_name \<Rightarrow> bytes \<Rightarrow> (policy_error, bool) outcome" where
  "verify_event_hash sha events name data_to_hash =
     (case events name of
        None \<Rightarrow> Ok False
      | Some ev \<Rightarrow>
          rbind (map_err (\<lambda>_. HashCalculation) (digest_sha384 sha data_to_hash)) (\<lambda>expected_hash.
            Ok (expected_hash = digest (ev_header ev))))"

definition check_policy_integrity ::
    "(bytes \<Rightarrow> bytes) \<Rightarrow> bytes \<Rightarrow> (event_name \<rightharpoonup> cc_event) \<Rightarrow> (policy_error, unit) outcome" where
  "check_policy_integrity sha policy events =
     rbind (verify_event_hash sha events MigTdPolicy policy) (\<lambda>ok.
       if \<not> ok then Err PolicyHashMismatch else Ok ())"

section \<open>Status ranking\<close>

datatype tcb_status =
    UpToDate | SWHardeningNeeded | ConfigurationNeeded | ConfigurationAndSWHardeningNeeded
  | OutOfDate | OutOfDateConfigurationNeeded | Revoked

definition tcb_status_str :: "tcb_status \<Rightarrow> string" where
  "tcb_status_str s = (case s of
     UpToDate \<Rightarrow> ''UpToDate''
   | SWHardeningNeeded \<Rightarrow> ''SWHardeningNeeded''
   | ConfigurationNeeded \<Rightarrow> ''ConfigurationNeeded''
   | ConfigurationAndSWHardeningNeeded \<Rightarrow> ''ConfigurationAndSWHardeningNeeded''
   | OutOfDate \<Rightarrow> ''OutOfDate''
   | OutOfDateConfigurationNeeded \<Rightarrow> ''OutOfDateConfigurationNeeded''
   | Revoked \<Rightarrow> ''Revoked'')"

definition tcb_rank :: "tcb_status \<Rightarrow> nat" where
  "tcb_rank s = (case s of
     UpToDate \<Rightarrow> 2 | SWHardeningNeeded \<Rightarrow> 2 | OutOfDate \<Rightarrow> 2
   | ConfigurationNeeded \<Rightarrow> 1 | ConfigurationAndSWHardeningNeeded \<Rightarrow> 1 | OutOfDateConfigurationNeeded \<Rightarrow> 1
   | Revoked \<Rightarrow> 0)"

definition tcb_status_try_from :: "string \<Rightarrow> (policy_error, tcb_status) outcome" where
  "tcb_status_try_from v =
     (if v = ''UpToDate'' then Ok UpToDate
      else if v = ''SWHardeningNeeded'' then Ok SWHardeningNeeded
      else if v = ''ConfigurationNeeded'' then Ok ConfigurationNeeded
      else if v = ''ConfigurationAndSWHardeningNeeded'' then Ok ConfigurationAndSWHardeningNeeded
      else if v = ''OutOfDate'' then Ok OutOfDate
      else if v = ''OutOfDateConfigurationNeeded'' then Ok OutOfDateConfigurationNeeded
      else if v = ''Revoked'' then Ok Revoked
      else Err PolicyInvalidParameter)"

text \<open>The order of the source compares ranks, so different statuses may be equivalent.\<close>

instantiation tcb_status :: preorder
begin

definition less_eq_tcb_status :: "tcb_status \<Rightarrow> tcb_status \<Rightarrow> bool" where
  "less_eq_tcb_status a b \<longleftrightarrow> tcb_rank a \<le> tcb_rank b"

definition less_tcb_status :: "tcb_status \<Rightarrow> tcb_status \<Rightarrow> bool" where
  "less_tcb_status a b \<longleftrightarrow> tcb_rank a < tcb_rank b"

instance
  by standard (auto simp: less_eq_tcb_status_def less_tcb_status_def)

end

definition tcb_status_eq :: "tcb_status \<Rightarrow> tcb_status \<Rightarrow> bool" where
  "tcb_status_eq a b \<longleftrightarrow> tcb_rank a = tcb_rank b"

datatype servtd_tcb_status = ServtdUpToDate | ServtdOutOfDate | ServtdRevoked

definition servtd_rank :: "servtd_tcb_status \<Rightarrow> nat" where
  "servtd_rank s = (case s of ServtdUpToDate \<Rightarrow> 2 | ServtdOutOfDate \<Rightarrow> 2 | ServtdRevoked \<Rightarrow> 0)"

definition servtd_status_try_from :: "string \<Rightarrow> (policy_error, servtd_tcb_status) outcome" where
  "servtd_status_try_from v =
     (if v = ''UpToDate'' then Ok ServtdUpToDate
      else if v = ''OutOfDate'' then Ok ServtdOutOfDate
      else if v = ''Revoked'' then Ok ServtdRevoked
      else Err PolicyInvalidParameter)"

definition servtd_status_eq :: "servtd_tcb_status \<Rightarrow> servtd_tcb_status \<Rightarrow> bool" where
  "servtd_status_eq a b \<longleftrightarrow> servtd_rank a = servtd_rank b"

section \<open>Properties of a policy\<close>

datatype reference =
    RefInteger "32 word" | RefString string | RefIntegerList "32 word list" | RefStringList "string list"

record policy_property =
  operation :: string
  reference :: reference

definition is_in_range :: "32 word \<Rightarrow> string \<Rightarrow> (policy_error, bool) outcome" where
  "is_in_range value bounds =
     (case split_dots bounds of
        [a, b] \<Rightarrow>
          rbind (ok_or InvalidReference (parse_u32 a)) (\<lambda>start.
          rbind (ok_or InvalidReference (parse_u32 b)) (\<lambda>stop.
            Ok (start \<le> value \<and> value \<le> stop)))
      | _ \<Rightarrow> Err InvalidOperation)"

definition evaluate_integer ::
    "policy_property \<Rightarrow> 32 word \<Rightarrow> 32 word option \<Rightarrow> (policy_error, bool) outcome" where
  "evaluate_integer p value relative_reference =
     (case reference p of
        RefInteger r \<Rightarrow>
          (if operation p = ''equal'' then Ok (value = r)
           else if operation p = ''greater-or-equal'' then Ok (r \<le> value)
           else Err InvalidOperation)
      | RefString r \<Rightarrow>
          (if r = ''self'' \<or> r = ''init'' then
             rbind (ok_or InvalidReference relative_reference) (\<lambda>rel.
               if operation p = ''equal'' then Ok (value = rel)
               else if operation p = ''greater-or-equal'' then Ok (rel \<le> value)
               else Err InvalidOperation)
           else if operation p = ''in-range'' \<or> operation p = ''in-time-range'' then is_in_range value r
           else Err InvalidOperation)
      | RefIntegerList items \<Rightarrow>
          (if operation p = ''subset'' then Ok (value \<in> set items) else Err InvalidOperation)
      | RefStringList _ \<Rightarrow> Err InvalidReference)"

definition integer_list_op ::
    "policy_property \<Rightarrow> 32 word list \<Rightarrow> 32 word list \<Rightarrow> (policy_error, bool) outcome" where
  "integer_list_op p values refs =
     (if length values \<noteq> length refs then Ok False
      else if operation p = ''array-equal'' then Ok (list_all2 (\<lambda>v r. v = r) values refs)
      else if operation p = ''array-greater-or-equal'' then Ok (list_all2 (\<lambda>v r. \<not> v < r) values refs)
      else Err InvalidOperation)"

definition evaluate_integer_list ::
    "policy_property \<Rightarrow> 32 word list \<Rightarrow> 32 word list option \<Rightarrow> (policy_error, bool) outcome" where
  "evaluate_integer_list p values relative_reference =
     (case reference p of
        RefIntegerList r \<Rightarrow> integer_list_op p values r
      | RefString r \<Rightarrow>
          (if r \<noteq> ''self'' \<and> r \<noteq> ''init'' then Err InvalidReference
           else rbind (ok_or InvalidReference relative_reference) (\<lambda>rel. integer_list_op p values rel))
      | _ \<Rightarrow> Err InvalidReference)"

definition evaluate_string ::
    "policy_property \<Rightarrow> string \<Rightarrow> string option \<Rightarrow> (policy_error, bool) outcome" where
  "evaluate_string p value relative_reference =
     (case reference p of
        RefString r \<Rightarrow>
          rbind (if r = ''self'' \<or> r = ''init'' then ok_or InvalidReference relative_reference else Ok r)
            (\<lambda>reference_value.
              if operation p = ''equal'' then Ok (value = reference_value)
              else if operation p = ''greater-or-equal'' then Ok (reference_value \<le> value)
              else Err InvalidOperation)
      | RefStringList rs \<Rightarrow>
          (if operation p = ''allow-list'' then Ok (value \<in> set rs)
           else if operation p = ''deny-list'' then Ok (value \<notin> set rs)
           else Err InvalidOperation)
      | _ \<Rightarrow> Err InvalidReference)"

text \<open>The statuses that the items of an allow-list add; an item that is no status is an error.\<close>

fun policy_allow :: "string list \<Rightarrow> (policy_error, tcb_status list) outcome" where
  "policy_allow [] = Ok []"
| "policy_allow (item # items) =
     rbind (tcb_status_try_from item) (\<lambda>_.
     rbind (policy_allow items) (\<lambda>rest.
       Ok (if item = tcb_status_str ConfigurationNeeded
           then [ConfigurationNeeded, ConfigurationAndSWHardeningNeeded, OutOfDateConfigurationNeeded] @ rest
           else rest)))"

fun all_statuses_valid :: "string list \<Rightarrow> (policy_error, unit) outcome" where
  "all_statuses_valid [] = Ok ()"
| "all_statuses_valid (item # items) =
     rbind (tcb_status_try_from item) (\<lambda>_. all_statuses_valid items)"

definition ALWAYS_ALLOW :: "tcb_status list" where
  "ALWAYS_ALLOW = [UpToDate, OutOfDate, SWHardeningNeeded]"
definition ALWAYS_DENY :: "tcb_status list" where
  "ALWAYS_DENY = [Revoked]"

definition evaluate_tcb_status ::
    "policy_property \<Rightarrow> tcb_status \<Rightarrow> tcb_status option \<Rightarrow> (policy_error, bool) outcome" where
  "evaluate_tcb_status p value relative_reference =
     (if list_ex (tcb_status_eq value) ALWAYS_DENY then Ok False
      else if list_ex (tcb_status_eq value) ALWAYS_ALLOW then Ok True
      else
        case reference p of
          RefString r \<Rightarrow>
            rbind (if r = ''self'' \<or> r = ''init'' then ok_or InvalidReference relative_reference
                   else tcb_status_try_from r)
              (\<lambda>reference_value.
                if operation p = ''equal'' then Ok (tcb_status_eq value reference_value)
                else if operation p = ''greater-or-equal'' then Ok (reference_value \<le> value)
                else Err InvalidOperation)
        | RefStringList rs \<Rightarrow>
            rbind (if operation p = ''allow-list'' then policy_allow rs
                   else if operation p = ''deny-list'' then rbind (all_statuses_valid rs) (\<lambda>_. Ok [])
                   else Err InvalidOperation)
              (\<lambda>allow. Ok (list_ex (tcb_status_eq value) allow))
        | _ \<Rightarrow> Err InvalidReference)"

definition evaluate_servtd_tcb_status ::
    "policy_property \<Rightarrow> servtd_tcb_status \<Rightarrow> servtd_tcb_status option \<Rightarrow> (policy_error, bool) outcome" where
  "evaluate_servtd_tcb_status p value relative_reference =
     (if list_ex (servtd_status_eq value) [ServtdRevoked] then Ok False
      else if list_ex (servtd_status_eq value) [ServtdUpToDate, ServtdOutOfDate] then Ok True
      else Ok False)"

section \<open>Evaluating a policy\<close>

record policy_evaluation_info =
  tee_tcb_svn :: "bytes option"
  tcb_date :: "string option"
  tcb_status :: "string option"
  tcb_evaluation_number :: "32 word option"
  fmspc :: "bytes option"
  migtd_isvsvn :: "16 word option"
  migtd_tcb_status :: "string option"
  migtd_tcb_date :: "string option"
  pck_crl_num :: "32 word option"
  root_ca_crl_num :: "32 word option"

record tcb_policy =
  tp_tcb_date :: "policy_property option"
  tp_tcb_status_accepted :: "policy_property option"
  tp_tcb_evaluation_data_number :: "policy_property option"

record platform_policy =
  pp_fmspc :: "policy_property option"

record crl_policy =
  cp_pck_crl_num :: "policy_property option"
  cp_root_ca_crl_num :: "policy_property option"

record global_policy =
  gp_tcb :: "tcb_policy option"
  gp_platform :: "platform_policy option"
  gp_crl :: "crl_policy option"

record servtd_policy =
  sp_isvsvn :: "policy_property option"
  sp_tcb_date :: "policy_property option"
  sp_tcb_status_accepted :: "policy_property option"

datatype policy_types = Global global_policy | Servtd servtd_policy

text \<open>
  The shape every check shares: an absent property is skipped, a value that is not known is the error
  \<open>missing\<close>, and a property that does not hold is the error \<open>failed\<close>.
\<close>

definition check_property ::
    "policy_property option \<Rightarrow> policy_error \<Rightarrow> policy_error \<Rightarrow> 'v option
     \<Rightarrow> (policy_property \<Rightarrow> 'v \<Rightarrow> (policy_error, bool) outcome) \<Rightarrow> (policy_error, unit) outcome" where
  "check_property prop missing failed value evaluate =
     (case prop of
        None \<Rightarrow> Ok ()
      | Some p \<Rightarrow>
          rbind (ok_or missing value) (\<lambda>v.
          rbind (evaluate p v) (\<lambda>holds. if \<not> holds then Err failed else Ok ())))"

definition status_of :: "string option \<Rightarrow> tcb_status option" where
  "status_of s = Option.bind s (\<lambda>s. ok_of (tcb_status_try_from s))"

definition servtd_status_of :: "string option \<Rightarrow> servtd_tcb_status option" where
  "servtd_status_of s = Option.bind s (\<lambda>s. ok_of (servtd_status_try_from s))"

definition tcb_policy_evaluate ::
    "tcb_policy \<Rightarrow> policy_evaluation_info \<Rightarrow> policy_evaluation_info \<Rightarrow> (policy_error, unit) outcome" where
  "tcb_policy_evaluate self value relative_reference =
     rbind (check_property (tp_tcb_evaluation_data_number self) TcbEvaluation TcbEvaluation
       (tcb_evaluation_number value)
       (\<lambda>p v. evaluate_integer p v (tcb_evaluation_number relative_reference))) (\<lambda>_.
     rbind (check_property (tp_tcb_status_accepted self) TcbEvaluation TcbEvaluation
       (status_of (tcb_status value))
       (\<lambda>p v. evaluate_tcb_status p v (status_of (tcb_status relative_reference)))) (\<lambda>_.
       check_property (tp_tcb_date self) TcbEvaluation TcbEvaluation (tcb_date value)
         (\<lambda>p v. evaluate_string p v (tcb_date relative_reference))))"

definition platform_policy_evaluate ::
    "platform_policy \<Rightarrow> policy_evaluation_info \<Rightarrow> policy_evaluation_info \<Rightarrow> (policy_error, unit) outcome" where
  "platform_policy_evaluate self value relative_reference =
     check_property (pp_fmspc self) TcbEvaluation TcbEvaluation (fmspc value)
       (\<lambda>p v. evaluate_string p (bytes_to_hex_string v)
                (map_option bytes_to_hex_string (fmspc relative_reference)))"

definition crl_policy_evaluate ::
    "crl_policy \<Rightarrow> policy_evaluation_info \<Rightarrow> policy_evaluation_info \<Rightarrow> (policy_error, unit) outcome" where
  "crl_policy_evaluate self value relative_reference =
     rbind (check_property (cp_pck_crl_num self) CrlEvaluation CrlEvaluation (pck_crl_num value)
       (\<lambda>p v. evaluate_integer p v (pck_crl_num relative_reference))) (\<lambda>_.
       check_property (cp_root_ca_crl_num self) CrlEvaluation CrlEvaluation (root_ca_crl_num value)
         (\<lambda>p v. evaluate_integer p v (root_ca_crl_num relative_reference)))"

definition opt_evaluate ::
    "'p option \<Rightarrow> ('p \<Rightarrow> policy_evaluation_info \<Rightarrow> policy_evaluation_info \<Rightarrow> (policy_error, unit) outcome)
     \<Rightarrow> policy_evaluation_info \<Rightarrow> policy_evaluation_info \<Rightarrow> (policy_error, unit) outcome" where
  "opt_evaluate po evaluate value relative_reference =
     (case po of None \<Rightarrow> Ok () | Some p \<Rightarrow> evaluate p value relative_reference)"

definition global_policy_evaluate ::
    "global_policy \<Rightarrow> policy_evaluation_info \<Rightarrow> policy_evaluation_info \<Rightarrow> (policy_error, unit) outcome" where
  "global_policy_evaluate self value relative_reference =
     rbind (opt_evaluate (gp_tcb self) tcb_policy_evaluate value relative_reference) (\<lambda>_.
     rbind (opt_evaluate (gp_platform self) platform_policy_evaluate value relative_reference) (\<lambda>_.
       opt_evaluate (gp_crl self) crl_policy_evaluate value relative_reference))"

definition servtd_policy_evaluate ::
    "servtd_policy \<Rightarrow> policy_evaluation_info \<Rightarrow> policy_evaluation_info \<Rightarrow> (policy_error, unit) outcome" where
  "servtd_policy_evaluate self value relative_reference =
     rbind (check_property (sp_isvsvn self) UnqualifiedMigTdInfo SvnMismatch
       (map_option (\<lambda>v. ucast v :: 32 word) (migtd_isvsvn value))
       (\<lambda>p v. evaluate_integer p v (map_option (\<lambda>v. ucast v) (migtd_isvsvn relative_reference)))) (\<lambda>_.
     rbind (check_property (sp_tcb_date self) UnqualifiedMigTdInfo SvnMismatch (migtd_tcb_date value)
       (\<lambda>p v. evaluate_string p v (migtd_tcb_date relative_reference))) (\<lambda>_.
       check_property (sp_tcb_status_accepted self) UnqualifiedMigTdInfo SvnMismatch
         (servtd_status_of (migtd_tcb_status value))
         (\<lambda>p v. evaluate_servtd_tcb_status p v (servtd_status_of (migtd_tcb_status relative_reference)))))"

fun evaluate_policy_block ::
    "policy_types list \<Rightarrow> policy_evaluation_info \<Rightarrow> policy_evaluation_info \<Rightarrow> bool
     \<Rightarrow> (policy_error, unit) outcome" where
  "evaluate_policy_block [] value relative_reference skip_global = Ok ()"
| "evaluate_policy_block (t # ts) value relative_reference skip_global =
     rbind (case t of
         Global g \<Rightarrow> (if \<not> skip_global then global_policy_evaluate g value relative_reference else Ok ())
       | Servtd migtd \<Rightarrow> servtd_policy_evaluate migtd value relative_reference) (\<lambda>_.
       evaluate_policy_block ts value relative_reference skip_global)"

section \<open>Signed documents\<close>

record tcb_level =
  isvsvn :: "16 word"
  level_tcb_date :: string
  level_tcb_status :: string

record td_identity =
  tdi_id :: string
  tdi_version :: "32 word"
  tdi_issue_date :: string
  tdi_next_update :: string
  tdi_tcb_evaluation_number :: "32 word"
  tdi_xfam :: string
  tdi_attributes :: string
  tdi_mr_config_id :: string
  tdi_mr_owner :: string
  tdi_mr_owner_config :: string
  tdi_mrsigner :: string
  tdi_isv_prod_id :: "16 word"
  tcb_levels :: "tcb_level list"

record measurements =
  mrtd :: string
  rtmr0 :: string
  rtmr1 :: string
  rtmr2 :: "string option"
  rtmr3 :: "string option"

record svn_mapping =
  td_measurements :: measurements
  map_isvsvn :: "16 word"

record td_tcb_mapping =
  tm_id :: string
  tm_version :: "32 word"
  tm_issue_date :: string
  tm_next_update :: string
  tm_mr_signer :: string
  tm_isv_prod_id :: "16 word"
  svn_mappings :: "svn_mapping list"

text \<open>A document as it travels: the raw JSON text that is signed, and the signature in hexadecimal.\<close>

record raw_document =
  raw_text :: string
  raw_signature :: string

type_synonym raw_servtd_identity = raw_document
type_synonym raw_servtd_tcb_mapping = raw_document
type_synonym raw_policy_data = raw_document

record servtd_collateral =
  sc_major_version :: "32 word"
  sc_minor_version :: "32 word"
  sc_servtd_identity_issuer_chain :: string
  sc_servtd_identity :: raw_servtd_identity
  sc_servtd_tcb_mapping_issuer_chain :: string
  sc_servtd_tcb_mapping :: raw_servtd_tcb_mapping

record platform =
  plat_fmspc :: string
  plat_tcb_info_issuer_chain :: string
  plat_tcb_info :: string

record collaterals =
  cs_major_version :: "16 word"
  cs_minor_version :: "16 word"
  cs_tee_type :: "32 word"
  cs_root_ca :: string
  cs_pck_crl_issuer_chain :: string
  cs_root_ca_crl :: string
  cs_pck_crl :: string
  cs_platforms :: "platform list"
  cs_qe_identity_issuer_chain :: string
  cs_qe_identity :: string

record policy_data =
  pd_id :: string
  pd_version :: string
  policy_svn :: "32 word"
  common_policy :: "policy_types list option"
  forward_policy :: "policy_types list option"
  backward_policy :: "policy_types list option"
  pd_collaterals :: collaterals
  pd_servtd_collateral :: servtd_collateral

text \<open>The decoders that \<open>serde_json\<close> derives from the types above.\<close>

record json_env =
  json_raw_policy :: "bytes \<Rightarrow> raw_policy_data option"
  json_policy_data :: "string \<Rightarrow> policy_data option"
  json_td_identity :: "string \<Rightarrow> td_identity option"
  json_tcb_mapping :: "string \<Rightarrow> td_tcb_mapping option"
  json_tcb_evaluation_data_number :: "string \<Rightarrow> 32 word option"

definition deserialize_raw_policy :: "json_env \<Rightarrow> bytes \<Rightarrow> (policy_error, raw_policy_data) outcome" where
  "deserialize_raw_policy json text = ok_or InvalidPolicy (json_raw_policy json text)"

definition verify_identity_signature ::
    "crypto_env \<Rightarrow> json_env \<Rightarrow> raw_servtd_identity \<Rightarrow> bytes \<Rightarrow> (policy_error, td_identity) outcome" where
  "verify_identity_signature env json self issuer_chain =
     rbind (hex_string_to_bytes (raw_signature self)) (\<lambda>signature.
     rbind (map_err (\<lambda>_. SignatureVerificationFailed)
       (verify_cert_chain_and_signature env issuer_chain (str_bytes (raw_text self)) signature)) (\<lambda>_.
       ok_or InvalidServtdIdentity (json_td_identity json (raw_text self))))"

definition verify_tcb_mapping_signature ::
    "crypto_env \<Rightarrow> json_env \<Rightarrow> raw_servtd_tcb_mapping \<Rightarrow> bytes \<Rightarrow> (policy_error, td_tcb_mapping) outcome" where
  "verify_tcb_mapping_signature env json self issuer_chain =
     rbind (hex_string_to_bytes (raw_signature self)) (\<lambda>signature.
     rbind (map_err (\<lambda>_. SignatureVerificationFailed)
       (verify_cert_chain_and_signature env issuer_chain (str_bytes (raw_text self)) signature)) (\<lambda>_.
       ok_or InvalidServtdTcbMapping (json_tcb_mapping json (raw_text self))))"

definition verify_policy_data_signature ::
    "crypto_env \<Rightarrow> json_env \<Rightarrow> raw_policy_data \<Rightarrow> bytes \<Rightarrow> (policy_error, policy_data) outcome" where
  "verify_policy_data_signature env json self issuer_chain =
     rbind (hex_string_to_bytes (raw_signature self)) (\<lambda>signature.
     rbind (map_err (\<lambda>_. SignatureVerificationFailed)
       (verify_cert_chain_and_signature env issuer_chain (str_bytes (raw_text self)) signature)) (\<lambda>_.
       ok_or InvalidPolicy (json_policy_data json (raw_text self))))"

definition policy_data_validate :: "policy_data \<Rightarrow> bool" where
  "policy_data_validate d \<longleftrightarrow> pd_id d \<noteq> [] \<and> pd_version d = ''2.0''"

record verified_policy =
  vp_policy_data :: policy_data
  servtd_identity :: td_identity
  servtd_identity_issuer_chain :: string
  servtd_tcb_mapping :: td_tcb_mapping
  servtd_tcb_mapping_issuer_chain :: string
  policy_issuer_chain :: string

definition raw_policy_verify ::
    "crypto_env \<Rightarrow> json_env \<Rightarrow> raw_policy_data \<Rightarrow> bytes \<Rightarrow> (policy_error, verified_policy) outcome" where
  "raw_policy_verify env json self issuer_chain =
     rbind (ok_or InvalidPolicy (from_utf8 issuer_chain)) (\<lambda>policy_chain.
     rbind (verify_policy_data_signature env json self issuer_chain) (\<lambda>data.
     (let c = pd_servtd_collateral data in
     rbind (verify_identity_signature env json (sc_servtd_identity c)
       (str_bytes (sc_servtd_identity_issuer_chain c))) (\<lambda>identity.
     rbind (verify_tcb_mapping_signature env json (sc_servtd_tcb_mapping c)
       (str_bytes (sc_servtd_tcb_mapping_issuer_chain c))) (\<lambda>mapping.
       if \<not> policy_data_validate data then Err PolicyInvalidParameter
       else Ok \<lparr> vp_policy_data = data, servtd_identity = identity,
                 servtd_identity_issuer_chain = sc_servtd_identity_issuer_chain c,
                 servtd_tcb_mapping = mapping,
                 servtd_tcb_mapping_issuer_chain = sc_servtd_tcb_mapping_issuer_chain c,
                 policy_issuer_chain = policy_chain \<rparr>)))))"

definition evaluate_opt_block ::
    "policy_types list option \<Rightarrow> policy_evaluation_info \<Rightarrow> policy_evaluation_info \<Rightarrow> bool
     \<Rightarrow> (policy_error, unit) outcome" where
  "evaluate_opt_block po value relative_reference skip_global =
     (case po of Some policy \<Rightarrow> evaluate_policy_block policy value relative_reference skip_global
      | None \<Rightarrow> Ok ())"

definition evaluate_policy_forward ::
    "policy_data \<Rightarrow> policy_evaluation_info \<Rightarrow> policy_evaluation_info \<Rightarrow> bool \<Rightarrow> (policy_error, unit) outcome" where
  "evaluate_policy_forward self value relative_reference skip_global =
     evaluate_opt_block (forward_policy self) value relative_reference skip_global"

definition evaluate_policy_backward ::
    "policy_data \<Rightarrow> policy_evaluation_info \<Rightarrow> policy_evaluation_info \<Rightarrow> bool \<Rightarrow> (policy_error, unit) outcome" where
  "evaluate_policy_backward self value relative_reference skip_global =
     evaluate_opt_block (backward_policy self) value relative_reference skip_global"

definition evaluate_policy_common ::
    "policy_data \<Rightarrow> policy_evaluation_info \<Rightarrow> policy_evaluation_info \<Rightarrow> bool \<Rightarrow> (policy_error, unit) outcome" where
  "evaluate_policy_common self value relative_reference skip_global =
     evaluate_opt_block (common_policy self) value relative_reference skip_global"

definition evaluate_against_policy :: "policy_data \<Rightarrow> policy_data \<Rightarrow> (policy_error, unit) outcome" where
  "evaluate_against_policy self other =
     (if policy_svn self < policy_svn other then Err SvnMismatch else Ok ())"

section \<open>Measurements and security versions\<close>

definition get_tcb_level_by_svn :: "td_identity \<Rightarrow> 16 word \<Rightarrow> tcb_level option" where
  "get_tcb_level_by_svn self svn = find (\<lambda>level. isvsvn level = svn) (tcb_levels self)"

definition new_from_bytes ::
    "bytes \<Rightarrow> bytes \<Rightarrow> bytes \<Rightarrow> bytes option \<Rightarrow> bytes option \<Rightarrow> measurements" where
  "new_from_bytes mrtd_b rtmr0_b rtmr1_b rtmr2_b rtmr3_b =
     \<lparr> mrtd = bytes_to_hex_string mrtd_b, rtmr0 = bytes_to_hex_string rtmr0_b,
       rtmr1 = bytes_to_hex_string rtmr1_b, rtmr2 = map_option bytes_to_hex_string rtmr2_b,
       rtmr3 = map_option bytes_to_hex_string rtmr3_b \<rparr>"

definition measurements_uppercase :: "measurements \<Rightarrow> measurements" where
  "measurements_uppercase m =
     \<lparr> mrtd = to_ascii_uppercase (mrtd m), rtmr0 = to_ascii_uppercase (rtmr0 m),
       rtmr1 = to_ascii_uppercase (rtmr1 m), rtmr2 = map_option to_ascii_uppercase (rtmr2 m),
       rtmr3 = map_option to_ascii_uppercase (rtmr3 m) \<rparr>"

definition compare_measurements :: "measurements \<Rightarrow> measurements \<Rightarrow> bool" where
  "compare_measurements pat tgt =
     (let p = measurements_uppercase pat; t = measurements_uppercase tgt in
      if mrtd p \<noteq> mrtd t \<or> rtmr0 p \<noteq> rtmr0 t \<or> rtmr1 p \<noteq> rtmr1 t then False
      else if (case (rtmr2 p, rtmr2 t) of (Some a, Some b) \<Rightarrow> a \<noteq> b | (Some _, None) \<Rightarrow> True | _ \<Rightarrow> False)
      then False
      else if (case (rtmr3 p, rtmr3 t) of (Some a, Some b) \<Rightarrow> a \<noteq> b | (Some _, None) \<Rightarrow> True | _ \<Rightarrow> False)
      then False
      else True)"

fun first_matching_svn :: "svn_mapping list \<Rightarrow> measurements \<Rightarrow> 16 word option" where
  "first_matching_svn [] m = None"
| "first_matching_svn (x # xs) m =
     (if compare_measurements (td_measurements x) m then Some (map_isvsvn x) else first_matching_svn xs m)"

definition get_engine_svn_by_measurements :: "td_tcb_mapping \<Rightarrow> measurements \<Rightarrow> 16 word option" where
  "get_engine_svn_by_measurements self m = first_matching_svn (svn_mappings self) m"

text \<open>Reports: the ranges of the supplemental data of a verified quote.\<close>

definition REPORT_DATA_SIZE :: nat where "REPORT_DATA_SIZE = 822"

datatype migtd_info_property =
    Attributes | Xfam | MrTd | MrConfigId | MrOwner | MrOwnerConfig | Rtmr0 | Rtmr1 | Rtmr2 | Rtmr3
  | UnknownProperty

definition R_MIGTD :: "migtd_info_property \<Rightarrow> (nat \<times> nat) option" where
  "R_MIGTD p = (case p of
     Attributes \<Rightarrow> Some (120, 128) | Xfam \<Rightarrow> Some (128, 136) | MrTd \<Rightarrow> Some (136, 184)
   | MrConfigId \<Rightarrow> Some (184, 232) | MrOwner \<Rightarrow> Some (232, 280) | MrOwnerConfig \<Rightarrow> Some (280, 328)
   | Rtmr0 \<Rightarrow> Some (328, 376) | Rtmr1 \<Rightarrow> Some (376, 424) | Rtmr2 \<Rightarrow> Some (424, 472)
   | Rtmr3 \<Rightarrow> Some (472, 520) | UnknownProperty \<Rightarrow> None)"

definition R_TCB_DATE :: "nat \<times> nat" where "R_TCB_DATE = (734, 742)"
definition R_TCB_STATUS :: "nat \<times> nat" where "R_TCB_STATUS = (742, 774)"

text \<open>A report is the map \<open>migtd_info\<close> from properties to slices of the data.\<close>

definition setup_migtd_info :: "bytes \<Rightarrow> migtd_info_property \<rightharpoonup> bytes" where
  "setup_migtd_info report p = map_option (\<lambda>(i, j). slice i j report) (R_MIGTD p)"

definition report_new :: "bytes \<Rightarrow> (policy_error, migtd_info_property \<rightharpoonup> bytes) outcome" where
  "report_new report =
     (if length report \<noteq> REPORT_DATA_SIZE then Err PolicyInvalidParameter else Ok (setup_migtd_info report))"

definition get_migtd_info_property ::
    "(migtd_info_property \<rightharpoonup> bytes) \<Rightarrow> migtd_info_property \<Rightarrow> (policy_error, bytes) outcome" where
  "get_migtd_info_property report name = ok_or PolicyInvalidParameter (report name)"

definition get_engine_svn_by_report ::
    "td_tcb_mapping \<Rightarrow> (migtd_info_property \<rightharpoonup> bytes) \<Rightarrow> 16 word option" where
  "get_engine_svn_by_report self report =
     Option.bind (ok_of (get_migtd_info_property report MrTd)) (\<lambda>mrtd_b.
     Option.bind (ok_of (get_migtd_info_property report Rtmr0)) (\<lambda>r0.
     Option.bind (ok_of (get_migtd_info_property report Rtmr1)) (\<lambda>r1.
     Option.bind (ok_of (get_migtd_info_property report Rtmr2)) (\<lambda>r2.
     Option.bind (ok_of (get_migtd_info_property report Rtmr3)) (\<lambda>r3.
       get_engine_svn_by_measurements self
         \<lparr> mrtd = bytes_to_hex_string mrtd_b, rtmr0 = bytes_to_hex_string r0, rtmr1 = bytes_to_hex_string r1,
           rtmr2 = Some (bytes_to_hex_string r2), rtmr3 = Some (bytes_to_hex_string r3) \<rparr>)))))"

section \<open>Collaterals\<close>

record collateral =
  co_major_version :: "16 word"
  co_minor_version :: "16 word"
  co_tee_type :: "32 word"
  co_root_ca :: string
  co_pck_crl_issuer_chain :: string
  co_root_ca_crl :: string
  co_pck_crl :: string
  co_tcb_info_issuer_chain :: string
  co_tcb_info :: string
  co_qe_identity_issuer_chain :: string
  co_qe_identity :: string

definition get_tcb_with_fmspc :: "collaterals \<Rightarrow> string \<Rightarrow> platform option" where
  "get_tcb_with_fmspc self f = find (\<lambda>p. plat_fmspc p = f) (cs_platforms self)"

definition get_collateral_with_fmspc :: "bytes \<Rightarrow> collaterals \<Rightarrow> (policy_error, collateral) outcome" where
  "get_collateral_with_fmspc f cs =
     (if length f \<noteq> 6 then Err PolicyInvalidParameter
      else
        rbind (ok_or InvalidCollateral (get_tcb_with_fmspc cs (bytes_to_hex_string f))) (\<lambda>platform_tcb.
          Ok \<lparr> co_major_version = cs_major_version cs, co_minor_version = cs_minor_version cs,
               co_tee_type = cs_tee_type cs, co_root_ca = cs_root_ca cs,
               co_pck_crl_issuer_chain = cs_pck_crl_issuer_chain cs, co_root_ca_crl = cs_root_ca_crl cs,
               co_pck_crl = cs_pck_crl cs,
               co_tcb_info_issuer_chain = plat_tcb_info_issuer_chain platform_tcb,
               co_tcb_info = plat_tcb_info platform_tcb,
               co_qe_identity_issuer_chain = cs_qe_identity_issuer_chain cs,
               co_qe_identity = cs_qe_identity cs \<rparr>))"

definition get_tcb_evaluation_number_from_collateral ::
    "json_env \<Rightarrow> collateral \<Rightarrow> (policy_error, 32 word) outcome" where
  "get_tcb_evaluation_number_from_collateral json c =
     ok_or InvalidCollateral (json_tcb_evaluation_data_number json (co_tcb_info c))"

definition PEM_CERT_BEGIN :: string where
  "PEM_CERT_BEGIN = ''-----BEGIN CERTIFICATE-----'' @ [CHR 0x0A]"
definition PEM_CERT_END :: string where
  "PEM_CERT_END = ''-----END CERTIFICATE-----'' @ [CHR 0x0A]"

definition PCK_FMSPC_EXTENSION_OID :: oid where
  "PCK_FMSPC_EXTENSION_OID = [1, 2, 840, 113741, 1, 13, 1]"
definition PCK_FMSPC_OID :: oid where
  "PCK_FMSPC_OID = [1, 2, 840, 113741, 1, 13, 1, 4]"

text \<open>
  \<open>inner_from_der\<close> decodes the sequence of identified values of the extension, and
  \<open>as_octet_string\<close> a value as an octet string (crate \<open>der\<close>).
\<close>

record pck_env =
  from_pem_slice :: "bytes \<Rightarrow> bytes option"
  inner_from_der :: "bytes \<Rightarrow> (oid \<times> any option) list option"
  as_octet_string :: "any \<Rightarrow> bytes option"

definition pem_cert_to_der :: "pck_env \<Rightarrow> bytes \<Rightarrow> (crypto_error, bytes) outcome" where
  "pem_cert_to_der pck cert = ok_or DecodePemCert (from_pem_slice pck cert)"

definition fmspc_value :: "pck_env \<Rightarrow> any option \<Rightarrow> (policy_error, bytes) outcome" where
  "fmspc_value pck v =
     rbind (ok_or InvalidQuote v) (\<lambda>a.
     rbind (ok_or InvalidQuote (as_octet_string pck a)) (\<lambda>bs.
       if length bs = 6 then Ok bs else Err InvalidQuote))"

fun find_fmspc :: "pck_env \<Rightarrow> extension list \<Rightarrow> (policy_error, bytes) outcome" where
  "find_fmspc pck [] = Err InvalidQuote"
| "find_fmspc pck (e # es) =
     (if extn_id e = PCK_FMSPC_EXTENSION_OID
      then
        rbind (ok_or InvalidQuote (extn_value e)) (\<lambda>v.
        rbind (ok_or InvalidQuote (inner_from_der pck v)) (\<lambda>vals.
          case find (\<lambda>(i, _). i = PCK_FMSPC_OID) vals of
            Some (_, v) \<Rightarrow> fmspc_value pck v
          | None \<Rightarrow> find_fmspc pck es))
      else find_fmspc pck es)"

definition parse_fmspc_from_pck_cert :: "crypto_env \<Rightarrow> pck_env \<Rightarrow> bytes \<Rightarrow> (policy_error, bytes) outcome" where
  "parse_fmspc_from_pck_cert env pck pck_der =
     rbind (ok_or InvalidQuote (from_der env pck_der)) (\<lambda>x509.
     rbind (ok_or InvalidQuote (extensions (tbs x509))) (\<lambda>es. find_fmspc pck es))"

definition get_fmspc_from_quote :: "crypto_env \<Rightarrow> pck_env \<Rightarrow> bytes \<Rightarrow> (policy_error, bytes) outcome" where
  "get_fmspc_from_quote env pck quote =
     (let mid = from_utf8_lossy quote in
      rbind (ok_or InvalidQuote (find_str PEM_CERT_BEGIN mid)) (\<lambda>start_index.
      rbind (ok_or InvalidQuote
          (Option.bind (find_str PEM_CERT_END (drop start_index mid)) (\<lambda>i.
           Option.bind (checked_add_usize i start_index) (\<lambda>i.
             checked_add_usize i (length PEM_CERT_END))))) (\<lambda>end_index.
        if end_index \<le> start_index then Err InvalidQuote
        else
          rbind (map_err (\<lambda>_. InvalidQuote)
            (pem_cert_to_der pck (str_bytes (slice start_index end_index mid)))) (\<lambda>pck_der.
            parse_fmspc_from_pck_cert env pck pck_der))))"

section \<open>Hexadecimal round trip\<close>

lemma of_char_hex_digit: "d < 16 \<Longrightarrow> (of_char (hex_digit d) :: nat) = (if d < 10 then 48 + d else 55 + d)"
  by (simp add: hex_digit_def)

lemma hex_digit_facts:
  assumes "d < 16"
  shows "to_digit 16 (hex_digit d) = Some d" and "hex_digit d \<noteq> CHR ''+''"
    and "(of_char (hex_digit d) :: nat) < 97"
proof -
  note [simp] = of_char_hex_digit [OF assms]
  show "to_digit 16 (hex_digit d) = Some d" using assms by (simp add: to_digit_def Let_def)
  show "(of_char (hex_digit d) :: nat) < 97" using assms by simp
  have "(of_char (hex_digit d) :: nat) \<noteq> of_char (CHR ''+'')" using assms by simp
  then show "hex_digit d \<noteq> CHR ''+''" by metis
qed

lemma hex_pair:
  assumes "a < 16" and "b < 16"
  shows "from_str_radix 16 256 [hex_digit a, hex_digit b] = Some (a * 16 + b)"
  using assms by (simp add: from_str_radix_def hex_digit_facts)

lemma byte_nibbles: "unat (b :: byte) div 16 < 16" "unat b mod 16 < 16"
  using unsigned_less [of b, where 'a=nat] by simp_all

lemma bytes_to_hex_Nil [simp]: "bytes_to_hex_string [] = []"
  by (simp add: bytes_to_hex_string_def)

lemma bytes_to_hex_Cons [simp]:
  "bytes_to_hex_string (b # bs) =
     hex_digit (unat b div 16) # hex_digit (unat b mod 16) # bytes_to_hex_string bs"
  by (simp add: bytes_to_hex_string_def)

lemma hex_pairs_bytes_to_hex: "hex_pairs (bytes_to_hex_string bs) = Ok bs"
proof (induction bs)
  case (Cons b bs)
  have "unat b div 16 * 16 + unat b mod 16 = unat b" by simp
  with Cons show ?case by (simp add: hex_pair byte_nibbles del: div_mult_mod_eq mod_div_mult_eq)
qed simp

lemma bytes_to_hex_chars: "c \<in> set (bytes_to_hex_string bs) \<Longrightarrow> (of_char c :: nat) < 97"
  by (induction bs) (auto simp: hex_digit_facts byte_nibbles)

lemma length_bytes_to_hex [simp]: "length (bytes_to_hex_string bs) = 2 * length bs"
  by (induction bs) auto

lemma hex_uppercase [simp]: "to_ascii_uppercase (bytes_to_hex_string bs) = bytes_to_hex_string bs"
  by (auto simp: to_ascii_uppercase_def dest: bytes_to_hex_chars intro!: map_idI)

lemma bytes_to_hex_inject [simp]: "bytes_to_hex_string a = bytes_to_hex_string b \<longleftrightarrow> a = b"
  by (metis hex_pairs_bytes_to_hex outcome.inject(1))



abbreviation (input) upper :: "char \<Rightarrow> char" where
  "upper c \<equiv> (if 97 \<le> (of_char c :: nat) \<and> (of_char c :: nat) \<le> 122 then char_of (of_char c - 32 :: nat) else c)"

lemma of_char_less_256: "(of_char c :: nat) < 256"
  by (metis of_char_mod_256 mod_less_divisor zero_less_numeral)

lemma of_char_upper: "(of_char (upper c) :: nat) = (let n = of_char c in if 97 \<le> n \<and> n \<le> 122 then n - 32 else n)"
  using of_char_less_256 [of c] by (auto simp: Let_def)

lemma to_digit_upper: "to_digit 16 (upper c) = to_digit 16 c"
  unfolding to_digit_def of_char_upper
  by (cases "97 \<le> (of_char c :: nat) \<and> (of_char c :: nat) \<le> 122") (auto simp: Let_def)

lemma upper_plus: "upper c = CHR ''+'' \<longleftrightarrow> c = CHR ''+''"
proof
  assume "upper c = CHR ''+''"
  then have "(of_char (upper c) :: nat) = 43" by simp
  then have "(of_char c :: nat) = of_char (CHR ''+'')" unfolding of_char_upper by (simp add: Let_def split: if_splits)
  then show "c = CHR ''+''" by (metis of_char_eq_iff)
qed simp

lemma upper_ascii: "(of_char (upper c) :: nat) < 128 \<longleftrightarrow> (of_char c :: nat) < 128"
  unfolding of_char_upper by (auto simp: Let_def)

lemma hex_pairs_uppercase: "hex_pairs (to_ascii_uppercase s) = hex_pairs s"
proof (induction s rule: hex_pairs.induct)
  case (1 a b cs)
  have "from_str_radix 16 256 [upper a, upper b] = from_str_radix 16 256 [a, b]"
    by (simp only: from_str_radix_def list.sel list.distinct if_False upper_plus parse_digits.simps to_digit_upper)
  with 1 show ?case by (simp only: to_ascii_uppercase_def list.map hex_pairs.simps)
qed (simp_all add: to_ascii_uppercase_def)

lemma hex_string_to_bytes_uppercase: "hex_string_to_bytes (to_ascii_uppercase s) = hex_string_to_bytes s"
proof -
  have "list_all (\<lambda>c. (of_char c :: nat) < 128) (to_ascii_uppercase s) \<longleftrightarrow> list_all (\<lambda>c. (of_char c :: nat) < 128) s"
    by (simp only: to_ascii_uppercase_def list_all_iff set_map ball_simps upper_ascii)
  moreover have "length (to_ascii_uppercase s) = length s" by (simp add: to_ascii_uppercase_def)
  moreover have "to_ascii_uppercase s = [] \<longleftrightarrow> s = []" by (simp add: to_ascii_uppercase_def)
  ultimately show ?thesis by (simp only: hex_string_to_bytes_def hex_pairs_uppercase)
qed

lemma bytes_to_hex_eq_Nil [simp]: "bytes_to_hex_string bs = [] \<longleftrightarrow> bs = []"
  by (cases bs) auto

lemma hex_string_to_bytes_print: "bs \<noteq> [] \<Longrightarrow> hex_string_to_bytes (bytes_to_hex_string bs) = Ok bs"
  by (auto simp: hex_string_to_bytes_def list_all_iff hex_pairs_bytes_to_hex dest!: bytes_to_hex_chars)

text \<open>Decoding what the hexadecimal printer writes gives the bytes back, whatever the case of the
  letters.\<close>

theorem hex_roundtrip:
  assumes "bs \<noteq> []" and "to_ascii_uppercase s = bytes_to_hex_string bs"
  shows "hex_string_to_bytes s = Ok bs"
  using assms hex_string_to_bytes_uppercase [of s] hex_string_to_bytes_print [of bs] by simp

theorem hex_roundtrip_witness: "hex_string_to_bytes ''c06f'' = Ok [0xC0, 0x6F]"
  by (rule hex_roundtrip, simp) code_simp

text \<open>A sign is accepted as the first character of a pair: these strings are no hexadecimal digits and
  still decode.\<close>

theorem hex_accepts_sign: "hex_string_to_bytes ''+5'' = Ok [5] \<and> hex_string_to_bytes ''05'' = Ok [5]"
  by code_simp

section \<open>Status\<close>

lemma tcb_status_eq_simps [simp]: "tcb_status_eq a b \<longleftrightarrow> tcb_rank a = tcb_rank b"
  by (simp add: tcb_status_eq_def)

lemma tcb_rank_cases:
  obtains "tcb_rank v = 0" "v = Revoked"
  | "tcb_rank v = 1" "v \<in> {ConfigurationNeeded, ConfigurationAndSWHardeningNeeded, OutOfDateConfigurationNeeded}"
  | "tcb_rank v = 2" "v \<in> {UpToDate, OutOfDate, SWHardeningNeeded}"
  by (cases v) (auto simp: tcb_rank_def)

text \<open>The verdict depends on the rank alone.\<close>

lemma evaluate_tcb_status_rank:
  assumes "tcb_rank v = tcb_rank w"
  shows "evaluate_tcb_status p v rel = evaluate_tcb_status p w rel"
proof -
  have "tcb_status_eq v = tcb_status_eq w" using assms by (simp add: fun_eq_iff)
  moreover have "(r \<le> v) = (r \<le> w)" for r using assms by (simp add: less_eq_tcb_status_def)
  ultimately show ?thesis by (simp only: evaluate_tcb_status_def)
qed

text \<open>C37: whatever the policy says, a revoked platform is never accepted, an up-to-date, out-of-date or
  hardening-needed one always is, and the verdict never gets worse when the status gets better.\<close>

theorem evaluate_tcb_status_verdict:
  assumes "v \<le> w"
  shows "evaluate_tcb_status p Revoked rel = Ok False \<and>
    (tcb_rank w = 2 \<longrightarrow> evaluate_tcb_status p w rel = Ok True) \<and>
    (evaluate_tcb_status p v rel = Ok True \<longrightarrow> evaluate_tcb_status p w rel = Ok True)"
proof -
  have low: "tcb_rank u = 0 \<Longrightarrow> evaluate_tcb_status p u rel = Ok False" for u
    by (simp add: evaluate_tcb_status_def ALWAYS_DENY_def tcb_rank_def)
  have high: "tcb_rank u = 2 \<Longrightarrow> evaluate_tcb_status p u rel = Ok True" for u
    by (simp add: evaluate_tcb_status_def ALWAYS_DENY_def ALWAYS_ALLOW_def tcb_rank_def)
  have "tcb_rank v \<le> tcb_rank w" using assms by (simp add: less_eq_tcb_status_def)
  then have "evaluate_tcb_status p v rel = Ok True \<Longrightarrow> evaluate_tcb_status p w rel = Ok True"
    using low [of v] high [of w] evaluate_tcb_status_rank [of v w p rel]
    by (cases v rule: tcb_rank_cases; cases w rule: tcb_rank_cases) auto
  with low [of Revoked] high [of w] show ?thesis by (simp add: tcb_rank_def)
qed

theorem evaluate_tcb_status_verdict_witness:
  "evaluate_tcb_status \<lparr> operation = ''allow-list'', reference = RefStringList [''ConfigurationNeeded''] \<rparr>
     OutOfDateConfigurationNeeded None = Ok True \<and>
   evaluate_tcb_status \<lparr> operation = ''allow-list'', reference = RefStringList [''ConfigurationNeeded''] \<rparr>
     ConfigurationAndSWHardeningNeeded None = Ok True"
  using evaluate_tcb_status_verdict [of OutOfDateConfigurationNeeded ConfigurationAndSWHardeningNeeded
      "\<lparr> operation = ''allow-list'', reference = RefStringList [''ConfigurationNeeded''] \<rparr>" None]
  by (simp add: evaluate_tcb_status_def less_eq_tcb_status_def tcb_rank_def ALWAYS_DENY_def ALWAYS_ALLOW_def
      tcb_status_try_from_def tcb_status_str_def)

section \<open>What a policy demands\<close>

text \<open>A property that is present demands that the value is known and that the property holds of it.\<close>

definition demanded ::
    "policy_property option \<Rightarrow> 'v option \<Rightarrow> (policy_property \<Rightarrow> 'v \<Rightarrow> (policy_error, bool) outcome) \<Rightarrow> bool" where
  "demanded prop value evaluate \<longleftrightarrow>
     (case prop of None \<Rightarrow> True | Some p \<Rightarrow> (\<exists>v. value = Some v \<and> evaluate p v = Ok True))"

definition global_satisfied :: "global_policy \<Rightarrow> policy_evaluation_info \<Rightarrow> policy_evaluation_info \<Rightarrow> bool" where
  "global_satisfied g v r \<longleftrightarrow>
     (\<forall>t. gp_tcb g = Some t \<longrightarrow>
        demanded (tp_tcb_evaluation_data_number t) (tcb_evaluation_number v)
          (\<lambda>p x. evaluate_integer p x (tcb_evaluation_number r)) \<and>
        demanded (tp_tcb_status_accepted t) (status_of (tcb_status v))
          (\<lambda>p x. evaluate_tcb_status p x (status_of (tcb_status r))) \<and>
        demanded (tp_tcb_date t) (tcb_date v) (\<lambda>p x. evaluate_string p x (tcb_date r))) \<and>
     (\<forall>t. gp_platform g = Some t \<longrightarrow>
        demanded (pp_fmspc t) (fmspc v)
          (\<lambda>p x. evaluate_string p (bytes_to_hex_string x) (map_option bytes_to_hex_string (fmspc r)))) \<and>
     (\<forall>t. gp_crl g = Some t \<longrightarrow>
        demanded (cp_pck_crl_num t) (pck_crl_num v) (\<lambda>p x. evaluate_integer p x (pck_crl_num r)) \<and>
        demanded (cp_root_ca_crl_num t) (root_ca_crl_num v)
          (\<lambda>p x. evaluate_integer p x (root_ca_crl_num r)))"

definition servtd_satisfied :: "servtd_policy \<Rightarrow> policy_evaluation_info \<Rightarrow> policy_evaluation_info \<Rightarrow> bool" where
  "servtd_satisfied s v r \<longleftrightarrow>
     demanded (sp_isvsvn s) (map_option (\<lambda>v. ucast v :: 32 word) (migtd_isvsvn v))
       (\<lambda>p x. evaluate_integer p x (map_option (\<lambda>v. ucast v) (migtd_isvsvn r))) \<and>
     demanded (sp_tcb_date s) (migtd_tcb_date v) (\<lambda>p x. evaluate_string p x (migtd_tcb_date r)) \<and>
     demanded (sp_tcb_status_accepted s) (servtd_status_of (migtd_tcb_status v))
       (\<lambda>p x. evaluate_servtd_tcb_status p x (servtd_status_of (migtd_tcb_status r)))"

definition block_satisfied ::
    "bool \<Rightarrow> policy_evaluation_info \<Rightarrow> policy_evaluation_info \<Rightarrow> policy_types list \<Rightarrow> bool" where
  "block_satisfied skip_global v r =
     list_all (\<lambda>t. case t of Global g \<Rightarrow> skip_global \<or> global_satisfied g v r | Servtd s \<Rightarrow> servtd_satisfied s v r)"

lemma check_property_Ok [outcome_simps]:
  "check_property prop missing failed value evaluate = Ok () \<longleftrightarrow> demanded prop value evaluate"
  by (auto simp: check_property_def demanded_def outcome_simps split: option.splits if_splits)

lemma check_property_no_panic:
  "(\<And>p v. evaluate p v \<noteq> Panic) \<Longrightarrow> check_property prop missing failed value evaluate \<noteq> Panic"
  by (auto simp: check_property_def outcome_simps split: option.splits)

lemma try_from_no_panic [simp]: "tcb_status_try_from s \<noteq> Panic"
  by (simp add: tcb_status_try_from_def)

lemma policy_allow_no_panic [simp]: "policy_allow rs \<noteq> Panic"
  by (induction rs) (auto simp: outcome_simps)

lemma all_statuses_no_panic [simp]: "all_statuses_valid rs \<noteq> Panic"
  by (induction rs) (auto simp: outcome_simps)

lemma evaluate_integer_no_panic [simp]: "evaluate_integer p v rel \<noteq> Panic"
  by (auto simp: evaluate_integer_def is_in_range_def outcome_simps split: reference.splits list.splits)

lemma evaluate_string_no_panic [simp]: "evaluate_string p v rel \<noteq> Panic"
  by (auto simp: evaluate_string_def outcome_simps split: reference.splits if_splits)

lemma evaluate_tcb_status_no_panic [simp]: "evaluate_tcb_status p v rel \<noteq> Panic"
  by (auto simp: evaluate_tcb_status_def outcome_simps split: reference.splits if_splits)

lemma evaluate_servtd_no_panic [simp]: "evaluate_servtd_tcb_status p v rel \<noteq> Panic"
  by (simp add: evaluate_servtd_tcb_status_def)

lemmas policy_evaluate_defs = global_policy_evaluate_def opt_evaluate_def tcb_policy_evaluate_def
  platform_policy_evaluate_def crl_policy_evaluate_def servtd_policy_evaluate_def

lemma global_policy_evaluate_Ok [outcome_simps]:
  "global_policy_evaluate g v r = Ok () \<longleftrightarrow> global_satisfied g v r"
  by (simp add: policy_evaluate_defs global_satisfied_def outcome_simps split: option.split)

lemma servtd_policy_evaluate_Ok [outcome_simps]:
  "servtd_policy_evaluate s v r = Ok () \<longleftrightarrow> servtd_satisfied s v r"
  by (simp add: policy_evaluate_defs servtd_satisfied_def outcome_simps)

lemma global_policy_evaluate_no_panic [simp]: "global_policy_evaluate g v r \<noteq> Panic"
  by (simp add: policy_evaluate_defs check_property_no_panic outcome_simps split: option.split)

lemma servtd_policy_evaluate_no_panic [simp]: "servtd_policy_evaluate s v r \<noteq> Panic"
  by (simp add: policy_evaluate_defs check_property_no_panic outcome_simps)

lemma evaluate_policy_block_Ok [outcome_simps]:
  "evaluate_policy_block ts v r skip = Ok () \<longleftrightarrow> block_satisfied skip v r ts"
  by (induction ts) (auto simp: block_satisfied_def outcome_simps split: policy_types.splits)

lemma evaluate_policy_block_no_panic [simp]: "evaluate_policy_block ts v r skip \<noteq> Panic"
  by (induction ts) (auto simp: outcome_simps split: policy_types.splits)

text \<open>C18: a policy block is accepted exactly when every property that it contains holds of a value that is
  known, the platform-wide ones being left out when the caller asks for it.  It never panics, and
  two blocks in a row are accepted exactly when both are.\<close>

theorem evaluate_policy_block_exact:
  "evaluate_policy_block ts v r skip \<noteq> Panic \<and>
   (evaluate_policy_block ts v r skip = Ok () \<longleftrightarrow> block_satisfied skip v r ts) \<and>
   (evaluate_policy_block (ts @ us) v r skip = Ok () \<longleftrightarrow>
      evaluate_policy_block ts v r skip = Ok () \<and> evaluate_policy_block us v r skip = Ok ())"
  by (simp add: outcome_simps) (simp add: block_satisfied_def)

section \<open>Signed documents\<close>

text \<open>The chain is unbroken and the key of its first certificate verifies the signature over the text.\<close>

definition signed_text :: "crypto_env \<Rightarrow> string \<Rightarrow> string \<Rightarrow> bytes \<Rightarrow> bool" where
  "signed_text env txt hex chain \<longleftrightarrow> (\<exists>sig certs leaf key.
     hex_string_to_bytes hex = Ok sig \<and> pem_slice_iter env chain = map Some certs \<and> certs \<noteq> [] \<and>
     successively (signed_by env) certs \<and> from_der env (hd certs) = Some leaf \<and>
     as_bytes (subject_public_key (spki (tbs leaf))) = Some key \<and>
     algorithm (signature_algorithm leaf) = ECDSA_WITH_SHA384 \<and> ecdsa_p384_verify env key (str_bytes txt) sig)"

text \<open>
  The contract of a signed document: it is accepted exactly when its text is signed, and the document
  is then what that very text decodes to.
\<close>

locale signed_document =
  fixes env :: crypto_env
    and verify :: "raw_document \<Rightarrow> bytes \<Rightarrow> (policy_error, 'doc) outcome"
    and parse :: "string \<Rightarrow> 'doc option"
  assumes accepts: "verify raw chain = Ok d \<longleftrightarrow>
      signed_text env (raw_text raw) (raw_signature raw) chain \<and> parse (raw_text raw) = Some d"
    and total: "verify raw chain \<noteq> Panic"
begin

lemma unsigned_rejected:
  assumes "\<not> signed_text env (raw_text raw) (raw_signature raw) chain"
  shows "\<exists>e. verify raw chain = Err e"
  using assms accepts [of raw chain] total [of raw chain] by (cases "verify raw chain") auto

lemma determined_by_text:
  assumes "verify raw chain = Ok d" and "verify raw' chain' = Ok d'" and "raw_text raw = raw_text raw'"
  shows "d = d'"
  using assms by (simp add: accepts)

end

lemma verify_chain_and_signature_Ok:
  "(\<exists>sig. hex_string_to_bytes hex = Ok sig \<and>
      verify_cert_chain_and_signature env chain (str_bytes txt) sig = Ok ()) \<longleftrightarrow>
   signed_text env txt hex chain"
  by (auto simp: verify_cert_chain_and_signature_def verify_signature_with_cert_def signed_text_def
      outcome_simps index_at_first simp del: index_at_eq_Ok)

lemma hex_pairs_no_panic [simp]: "hex_pairs s \<noteq> Panic"
  by (induction s rule: hex_pairs.induct) (auto simp: outcome_simps)

lemma hex_no_panic [simp]: "hex_string_to_bytes s \<noteq> Panic"
  by (simp add: hex_string_to_bytes_def)

lemma verify_chain_and_signature_no_panic [simp]: "verify_cert_chain_and_signature env chain m sig \<noteq> Panic"
  by (auto simp: verify_cert_chain_and_signature_def verify_signature_with_cert_def outcome_simps)

interpretation identity_document: signed_document env "verify_identity_signature env json" "json_td_identity json"
  for env json
  by unfold_locales
    (auto simp: verify_identity_signature_def outcome_simps verify_chain_and_signature_Ok [symmetric])

interpretation mapping_document: signed_document env "verify_tcb_mapping_signature env json" "json_tcb_mapping json"
  for env json
  by unfold_locales
    (auto simp: verify_tcb_mapping_signature_def outcome_simps verify_chain_and_signature_Ok [symmetric])

interpretation policy_document: signed_document env "verify_policy_data_signature env json" "json_policy_data json"
  for env json
  by unfold_locales
    (auto simp: verify_policy_data_signature_def outcome_simps verify_chain_and_signature_Ok [symmetric])

lemmas document_accepts = identity_document.accepts mapping_document.accepts policy_document.accepts

text \<open>C17: a policy is accepted exactly when three texts are signed, each under its own chain: the policy text
  under the chain given, and the identity and the measurement mapping it carries under the chains it
  carries.  What the rest of the code then reads is what those signed texts decode to.\<close>

theorem raw_policy_verify_exact:
  "raw_policy_verify env json raw chain = Ok v \<longleftrightarrow>
     (\<exists>d. from_utf8 chain = Some (policy_issuer_chain v) \<and> vp_policy_data v = d \<and>
        signed_text env (raw_text raw) (raw_signature raw) chain \<and> json_policy_data json (raw_text raw) = Some d \<and>
        pd_id d \<noteq> [] \<and> pd_version d = ''2.0'' \<and>
        (let c = pd_servtd_collateral d; i = sc_servtd_identity c; m = sc_servtd_tcb_mapping c in
           servtd_identity_issuer_chain v = sc_servtd_identity_issuer_chain c \<and>
           servtd_tcb_mapping_issuer_chain v = sc_servtd_tcb_mapping_issuer_chain c \<and>
           signed_text env (raw_text i) (raw_signature i) (str_bytes (servtd_identity_issuer_chain v)) \<and>
           json_td_identity json (raw_text i) = Some (servtd_identity v) \<and>
           signed_text env (raw_text m) (raw_signature m) (str_bytes (servtd_tcb_mapping_issuer_chain v)) \<and>
           json_tcb_mapping json (raw_text m) = Some (servtd_tcb_mapping v)))"
  by (cases v) (auto simp: raw_policy_verify_def document_accepts outcome_simps policy_data_validate_def Let_def
      if_Ok_iff)

section \<open>Measurements\<close>

text \<open>
  A pattern covers a target when the three mandatory registers agree up to letter case, and each
  optional one that the pattern pins is known of the target and agrees.
\<close>

definition pinned :: "string option \<Rightarrow> string option \<Rightarrow> bool" where
  "pinned p t \<longleftrightarrow> (case p of None \<Rightarrow> True
     | Some a \<Rightarrow> (\<exists>b. t = Some b \<and> to_ascii_uppercase a = to_ascii_uppercase b))"

definition covers :: "measurements \<Rightarrow> measurements \<Rightarrow> bool" where
  "covers p t \<longleftrightarrow> to_ascii_uppercase (mrtd p) = to_ascii_uppercase (mrtd t) \<and>
     to_ascii_uppercase (rtmr0 p) = to_ascii_uppercase (rtmr0 t) \<and>
     to_ascii_uppercase (rtmr1 p) = to_ascii_uppercase (rtmr1 t) \<and>
     pinned (rtmr2 p) (rtmr2 t) \<and> pinned (rtmr3 p) (rtmr3 t)"

lemma compare_measurements_covers: "compare_measurements p t \<longleftrightarrow> covers p t"
  by (auto simp: compare_measurements_def covers_def measurements_uppercase_def pinned_def Let_def
      split: option.splits)

lemma first_matching_find:
  "first_matching_svn xs t = map_option map_isvsvn (find (\<lambda>x. covers (td_measurements x) t) xs)"
  by (induction xs) (auto simp: compare_measurements_covers)

lemma first_matching_covers:
  "first_matching_svn xs t = Some svn \<Longrightarrow> \<exists>x\<in>set xs. covers (td_measurements x) t \<and> map_isvsvn x = svn"
  by (induction xs) (auto simp: compare_measurements_covers split: if_splits)

text \<open>The security version found for a set of measurements is that of the first entry of the signed mapping
  that covers them: the mandatory registers agree up to letter case, and an optional register that
  the entry pins is known and agrees.\<close>

theorem get_engine_svn_exact:
  "get_engine_svn_by_measurements tm t =
     map_option map_isvsvn (find (\<lambda>x. covers (td_measurements x) t) (svn_mappings tm))"
  by (simp add: get_engine_svn_by_measurements_def first_matching_find)

text \<open>Without the last two registers, as the rebinding path looks a TD up, an entry that pins one of them
  is never used: only entries that leave both open can give a version, even when the TD matches a
  pinned entry in all five registers.\<close>

theorem lookup_without_rtmr23:
  assumes "get_engine_svn_by_measurements tm (new_from_bytes a b c None None) = Some svn"
  shows "\<exists>x\<in>set (svn_mappings tm). map_isvsvn x = svn \<and> rtmr2 (td_measurements x) = None \<and>
     rtmr3 (td_measurements x) = None"
  using assms [unfolded get_engine_svn_by_measurements_def, THEN first_matching_covers]
  by (auto simp: covers_def pinned_def new_from_bytes_def split: option.splits)

definition sample_mapping :: "string option \<Rightarrow> td_tcb_mapping" where
  "sample_mapping r = \<lparr> tm_id = ''m'', tm_version = 1, tm_issue_date = [], tm_next_update = [],
     tm_mr_signer = [], tm_isv_prod_id = 0,
     svn_mappings = [\<lparr> td_measurements = \<lparr> mrtd = ''0a'', rtmr0 = ''0B'', rtmr1 = ''0c'',
       rtmr2 = r, rtmr3 = None \<rparr>, map_isvsvn = 7 \<rparr>] \<rparr>"

theorem lookup_without_rtmr23_witness:
  "(\<exists>x\<in>set (svn_mappings (sample_mapping None)). map_isvsvn x = 7 \<and> rtmr2 (td_measurements x) = None \<and>
     rtmr3 (td_measurements x) = None) \<and>
   get_engine_svn_by_measurements (sample_mapping (Some ''0D'')) (new_from_bytes [0x0A] [0x0B] [0x0C] None None) = None \<and>
   get_engine_svn_by_measurements (sample_mapping (Some ''0D''))
     (new_from_bytes [0x0A] [0x0B] [0x0C] (Some [0x0D]) (Some [0])) = Some 7"
proof (intro conjI)
  have "get_engine_svn_by_measurements (sample_mapping None) (new_from_bytes [0x0A] [0x0B] [0x0C] None None) = Some 7"
    by code_simp
  then show "\<exists>x\<in>set (svn_mappings (sample_mapping None)). map_isvsvn x = 7 \<and>
      rtmr2 (td_measurements x) = None \<and> rtmr3 (td_measurements x) = None"
    by (rule lookup_without_rtmr23)
qed (code_simp+)

section \<open>Bounds\<close>

lemma fmspc_length: "find_fmspc pck es = Ok f \<Longrightarrow> length f = 6"
  by (induction es) (auto simp: fmspc_value_def outcome_simps split: if_splits option.splits)

lemma get_fmspc_length: "get_fmspc_from_quote env pck quote = Ok f \<Longrightarrow> length f = 6"
  by (auto simp: get_fmspc_from_quote_def parse_fmspc_from_pck_cert_def Let_def outcome_simps
      split: if_splits dest: fmspc_length)

lemma find_fmspc_no_panic [simp]: "find_fmspc pck es \<noteq> Panic"
  by (induction es) (auto simp: fmspc_value_def outcome_simps split: option.splits)

lemma get_fmspc_no_panic [simp]: "get_fmspc_from_quote env pck quote \<noteq> Panic"
  by (auto simp: get_fmspc_from_quote_def parse_fmspc_from_pck_cert_def pem_cert_to_der_def Let_def outcome_simps
      split: if_splits)

end
