(* ===== verification/Attestation.thy ===== *)
theory Attestation
  imports CertChain
begin

text \<open>
  Quotes: asking the VMM for a quote through shared memory (\<open>ghci.rs\<close>, \<open>igvmattest.rs\<close> of
  \<open>src/attestation/src\<close>), verifying a quote with the attestation library (\<open>attest.rs\<close>, \<open>root_ca.rs\<close>),
  and the retry loop of \<open>src/migtd/src/quote.rs\<close>.  The attestation library (a C library), the VMM and the
  interrupt controller are parameters.
\<close>

unbundle bit_operations_syntax

section \<open>Model\<close>

datatype attest_error =
    InvalidRootCa | InitHeap | AttestGetQuote | AttestVerifyQuote | InvalidOutput | AttestInvalidQuote
  | AttestOutOfMemory | AttestBusy

datatype attest_lib_error =
    LibSuccess | LibUnexpected | LibInvalidParameter | LibOutOfMemory | LibVsockFailure | LibReportFailure
  | LibExtendFailure | LibNotSupported | LibQuoteFailure | LibBusy | LibDeviceFailure | LibInvalidRtmrIndex

definition lib_code :: "attest_lib_error \<Rightarrow> int" where
  "lib_code e = (case e of
     LibSuccess \<Rightarrow> 0 | LibUnexpected \<Rightarrow> 1 | LibInvalidParameter \<Rightarrow> 2 | LibOutOfMemory \<Rightarrow> 3
   | LibVsockFailure \<Rightarrow> 4 | LibReportFailure \<Rightarrow> 5 | LibExtendFailure \<Rightarrow> 6 | LibNotSupported \<Rightarrow> 7
   | LibQuoteFailure \<Rightarrow> 8 | LibBusy \<Rightarrow> 9 | LibDeviceFailure \<Rightarrow> 10 | LibInvalidRtmrIndex \<Rightarrow> 11)"

definition TD_QUOTE_SIZE :: nat where "TD_QUOTE_SIZE = 0x2000"
definition TD_REPORT_VERIFY_SIZE :: nat where "TD_REPORT_VERIFY_SIZE = 1024"
definition TD_VERIFIED_REPORT_SIZE :: nat where "TD_VERIFIED_REPORT_SIZE = 822"
definition GET_QUOTE_MAX_SIZE :: nat where "GET_QUOTE_MAX_SIZE = 32 * 0x1000"
definition GET_QUOTE_STATUS_SUCCESS :: "64 word" where "GET_QUOTE_STATUS_SUCCESS = 0"
definition GET_QUOTE_STATUS_IN_FLIGHT :: "64 word" where "GET_QUOTE_STATUS_IN_FLIGHT = 0xFFFFFFFFFFFFFFFF"
definition GET_QUOTE_STATUS_ERROR :: "64 word" where "GET_QUOTE_STATUS_ERROR = 0x8000000000000000"
definition GET_QUOTE_STATUS_SERVICE_UNAVAILABLE :: "64 word" where
  "GET_QUOTE_STATUS_SERVICE_UNAVAILABLE = 0x8000000000000001"
definition SERVTD_REQ_BUF_SIZE :: nat where "SERVTD_REQ_BUF_SIZE = 16 * 4 * 1024"

subsection \<open>Asking for a quote\<close>

datatype vmcall_result = VmcallOk | VmcallRetry | VmcallFailed

text \<open>
  What the outside does during one request: whether shared memory can be had and what it holds, whether the
  notification could be registered, how the call ends, the values of the notifier at its successive
  loads, and the content of the shared memory at the successive reads.  The memory may change at
  any moment; each read sees a content of its own.
\<close>

record quote_host =
  qh_shared :: "nat \<Rightarrow> bytes option"
  qh_notify :: bool
  qh_call :: vmcall_result
  qh_notifier :: "nat \<Rightarrow> 8 word"
  qh_memory :: "bytes \<Rightarrow> nat \<Rightarrow> bytes"

text \<open>The loop of \<open>wait_for_vmm_notification\<close>, from load \<open>i\<close> on.\<close>

partial_function (option) wait_loop :: "(nat \<Rightarrow> 8 word) \<Rightarrow> nat \<Rightarrow> unit option" where
  "wait_loop notifier i =
     (if notifier i \<noteq> 0 then Some ()
      else if notifier (i + 1) = 1 then Some ()
      else wait_loop notifier (i + 2))"

definition wait_for_vmm_notification :: "(nat \<Rightarrow> 8 word) \<Rightarrow> unit option" where
  "wait_for_vmm_notification notifier = wait_loop notifier 0"

text \<open>
  The polling loop, from read \<open>n\<close> on: \<open>None\<close> when it never ends.  The result carries the
  number of reads made, so that later reads come after them.
\<close>

partial_function (option) poll_status ::
    "bool \<Rightarrow> (nat \<Rightarrow> bytes) \<Rightarrow> nat \<Rightarrow> ((attest_lib_error, 64 word) outcome \<times> nat) option" where
  "poll_status notify_registered memory n =
     (case get_range 8 16 (memory n) of
        None \<Rightarrow> Some (Err LibInvalidParameter, Suc n)
      | Some bytes \<Rightarrow>
          if notify_registered then Some (Ok (u64_of bytes), Suc n)
          else if u64_of bytes \<noteq> GET_QUOTE_STATUS_IN_FLIGHT then Some (Ok (u64_of bytes), Suc n)
          else poll_status notify_registered memory (Suc n))"

definition quote_status :: "64 word \<Rightarrow> (attest_lib_error, unit) outcome" where
  "quote_status status_code =
     (if status_code = GET_QUOTE_STATUS_SUCCESS then Ok ()
      else if status_code = GET_QUOTE_STATUS_SERVICE_UNAVAILABLE \<or> status_code = GET_QUOTE_STATUS_ERROR
        \<or> status_code = GET_QUOTE_STATUS_IN_FLIGHT
      then Err LibBusy
      else Err LibQuoteFailure)"

definition wait_for_quote_completion ::
    "bool \<Rightarrow> (nat \<Rightarrow> 8 word) \<Rightarrow> (nat \<Rightarrow> bytes) \<Rightarrow> ((attest_lib_error, unit) outcome \<times> nat) option" where
  "wait_for_quote_completion notify_registered notifier memory =
     (case (if notify_registered then wait_for_vmm_notification notifier else Some ()) of
        None \<Rightarrow> None
      | Some _ \<Rightarrow>
          map_option (\<lambda>(r, n). (rbind r quote_status, n)) (poll_status notify_registered memory 0))"

text \<open>
  \<open>servtd_get_quote\<close>: the code it returns and the request buffer afterwards.  The buffer is
  \<open>None\<close> for a null pointer.  The shared memory is as long as whole pages that hold the buffer.
\<close>

definition servtd_get_quote :: "quote_host \<Rightarrow> bytes option \<Rightarrow> ((unit, int \<times> bytes option) outcome) option" where
  "servtd_get_quote host tdquote_req_buf =
     (case tdquote_req_buf of
        None \<Rightarrow> Some (Ok (lib_code LibInvalidParameter, None))
      | Some input \<Rightarrow>
          if length input > GET_QUOTE_MAX_SIZE then Some (Ok (lib_code LibInvalidParameter, Some input))
          else
            case qh_shared host ((length input + 0xFFF) div 0x1000) of
              None \<Rightarrow> Some (Ok (lib_code LibOutOfMemory, Some input))
            | Some shared \<Rightarrow>
                if length shared < length input then Some Panic
                else
                  let shared = overwrite 0 input shared in
                  case qh_call host of
                    VmcallRetry \<Rightarrow> Some (Ok (lib_code LibBusy, Some input))
                  | VmcallFailed \<Rightarrow> Some (Ok (lib_code LibQuoteFailure, Some input))
                  | VmcallOk \<Rightarrow>
                      map_option (\<lambda>(wait_result, n).
                          rbind (index_range 0 (length input) (qh_memory host shared n)) (\<lambda>input'.
                            case wait_result of
                              Err err \<Rightarrow> Ok (lib_code err, Some input')
                            | Ok _ \<Rightarrow> Ok (0, Some input')
                            | Panic \<Rightarrow> Panic))
                        (wait_for_quote_completion (qh_notify host) (qh_notifier host)
                          (qh_memory host shared)))"

record servtd_tdx_quote_hdr =
  qhdr_version :: "64 word"
  qhdr_status :: "64 word"
  qhdr_in_len :: "32 word"
  qhdr_out_len :: "32 word"

definition enc_quote_hdr :: "servtd_tdx_quote_hdr \<Rightarrow> bytes" where
  "enc_quote_hdr h =
     u64_le (qhdr_version h) @ u64_le (qhdr_status h) @ u32_le (qhdr_in_len h) @ u32_le (qhdr_out_len h)"

definition get_quote_igvm :: "quote_host \<Rightarrow> bytes \<Rightarrow> ((attest_error, bytes) outcome) option" where
  "get_quote_igvm host td_report =
     (let quote = replicate TD_QUOTE_SIZE 0;
          get_quote_blob = replicate SERVTD_REQ_BUF_SIZE 0;
          hdr = \<lparr> qhdr_version = 1, qhdr_status = 0, qhdr_in_len = word_of_nat (length td_report),
                  qhdr_out_len = word_of_nat TD_QUOTE_SIZE \<rparr>;
          header_size = 24
      in
      if header_size + length td_report > SERVTD_REQ_BUF_SIZE then Some (Err AttestGetQuote)
      else
        let blob = overwrite header_size td_report (overwrite 0 (enc_quote_hdr hdr) get_quote_blob) in
        map_option (\<lambda>r. rbind (map_err (\<lambda>_. AttestGetQuote) r) (\<lambda>(ret, blob').
            if ret \<noteq> 0 then Err (if ret = lib_code LibBusy then AttestBusy else AttestGetQuote)
            else
              case blob' of
                None \<Rightarrow> Panic
              | Some blob \<Rightarrow>
                  if header_size > length blob then Err AttestGetQuote
                  else
                    let quote_size = u32_of (slice 20 24 blob) in
                    if quote_size > word_of_nat TD_QUOTE_SIZE then Err AttestGetQuote
                    else if quote_size = 0 then Err AttestGetQuote
                    else if header_size + unat quote_size > length blob then Err AttestGetQuote
                    else if unat quote_size > length quote then Err AttestGetQuote
                    else
                      rbind (index_range header_size (header_size + unat quote_size) blob) (\<lambda>data.
                        Ok (take (unat quote_size) (overwrite 0 data quote)))))
          (servtd_get_quote host (Some blob)))"

subsection \<open>Retrying\<close>

datatype quote_error = ReportGenerationFailed | QuoteGenerationFailed

definition MAX_RETRIES :: nat where "MAX_RETRIES = 5"

definition mul_u64 :: "64 word \<Rightarrow> 64 word \<Rightarrow> ('e, 64 word) outcome" where
  "mul_u64 a b = (if unat a * unat b < 2 ^ 64 then Ok (a * b) else Panic)"

text \<open>The state of the retry loop's world: the platform, and the delays slept so far, in milliseconds.\<close>

record 'h retry_world =
  rw_host :: 'h
  rw_delays :: "64 word list"

text \<open>
  \<open>tdcall_report\<close> gives a report of the platform or fails; \<open>get_quote\<close> is
  \<open>attestation::get_quote\<close> of the features in force.
\<close>

function retry_loop ::
    "('h \<Rightarrow> bytes option \<times> 'h) \<Rightarrow> (bytes \<Rightarrow> ('h, attest_error, bytes) prog) \<Rightarrow> nat \<Rightarrow> 64 word
     \<Rightarrow> ('h retry_world, quote_error, bytes \<times> bytes) prog" where
  "retry_loop tdcall_report get_quote attempt busy_delay_ms w =
     (case tdcall_report (rw_host w) of
        (None, h) \<Rightarrow> Some (Err ReportGenerationFailed, w\<lparr> rw_host := h \<rparr>)
      | (Some report, h) \<Rightarrow>
          case get_quote report h of
            None \<Rightarrow> None
          | Some (Panic, h') \<Rightarrow> Some (Panic, w\<lparr> rw_host := h' \<rparr>)
          | Some (Ok quote, h') \<Rightarrow> Some (Ok (quote, report), w\<lparr> rw_host := h' \<rparr>)
          | Some (Err e, h') \<Rightarrow>
              if e = AttestBusy then
                (if attempt + 1 > MAX_RETRIES then Some (Err QuoteGenerationFailed, w\<lparr> rw_host := h' \<rparr>)
                 else
                   let w' = w\<lparr> rw_host := h', rw_delays := rw_delays w @ [busy_delay_ms] \<rparr> in
                   case mul_u64 busy_delay_ms 2 of
                     Ok d \<Rightarrow> retry_loop tdcall_report get_quote (attempt + 1) d w'
                   | Err e \<Rightarrow> Some (Err e, w')
                   | Panic \<Rightarrow> Some (Panic, w'))
              else Some (Err QuoteGenerationFailed, w\<lparr> rw_host := h' \<rparr>))"
  by pat_completeness auto
termination
  by (relation "measure (\<lambda>(_, _, attempt, _, _). Suc MAX_RETRIES - attempt)") auto

declare retry_loop.simps [simp del]

definition INITIAL_DELAY_MS :: "bool \<Rightarrow> 64 word" where
  "INITIAL_DELAY_MS emu = (if emu then 20 else 1000)"

definition get_quote_with_retry ::
    "bool \<Rightarrow> ('h \<Rightarrow> bytes option \<times> 'h) \<Rightarrow> (bytes \<Rightarrow> ('h, attest_error, bytes) prog)
     \<Rightarrow> ('h retry_world, quote_error, bytes \<times> bytes) prog" where
  "get_quote_with_retry emu tdcall_report get_quote =
     retry_loop tdcall_report get_quote 0 (INITIAL_DELAY_MS emu)"

subsection \<open>Verifying a quote\<close>

text \<open>\<open>ROOT_CA_PUBLIC_KEY\<close> is set once: a later call leaves it as it is.\<close>

definition set_ca :: "crypto_env \<Rightarrow> bytes \<Rightarrow> bytes option \<Rightarrow> (attest_error, unit) outcome \<times> bytes option" where
  "set_ca env cert root_key =
     (case root_key of
        Some k \<Rightarrow> (Ok (), Some k)
      | None \<Rightarrow>
          case rbind (ok_or InvalidRootCa (from_der env cert)) (\<lambda>c.
                 ok_or InvalidRootCa (as_bytes (subject_public_key (spki (tbs c))))) of
            Ok k \<Rightarrow> (Ok (), Some k)
          | Err e \<Rightarrow> (Err e, None)
          | Panic \<Rightarrow> (Panic, None))"

definition mask_range :: "nat \<Rightarrow> nat \<Rightarrow> nat \<Rightarrow> bytes \<Rightarrow> bytes" where
  "mask_range i j n report = foldl (\<lambda>r k. r[i + k := r ! (i + k) AND r ! (j + k)]) report [0..<n]"

text \<open>Every index the loops use is below 666.\<close>

definition mask_verified_report_values :: "bytes \<Rightarrow> ('e, bytes) outcome" where
  "mask_verified_report_values report =
     (if length report < 666 then Panic
      else Ok (mask_range 634 650 16 (mask_range 626 630 4 report)))"

record c_collateral =
  cc_major_version :: "16 word"
  cc_minor_version :: "16 word"
  cc_tee_type :: "32 word"
  cc_pck_crl_issuer_chain :: bytes
  cc_root_ca_crl :: bytes
  cc_pck_crl :: bytes
  cc_tcb_info_issuer_chain :: bytes
  cc_tcb_info :: bytes
  cc_qe_identity_issuer_chain :: bytes
  cc_qe_identity :: bytes

text \<open>
  The library call gets the quote and the root key, and gives a code, the output buffer and the
  size it reports.
\<close>

definition verified_report ::
    "(bytes \<Rightarrow> bytes \<Rightarrow> int \<times> bytes \<times> 32 word) \<Rightarrow> bytes option \<Rightarrow> bytes \<Rightarrow> (attest_error, bytes) outcome" where
  "verified_report integrity root_key quote =
     rbind (ok_or InvalidRootCa root_key) (\<lambda>public_key.
       case integrity quote public_key of (result, td_report_verify, report_verify_size) \<Rightarrow>
         if result \<noteq> 0 then Err AttestVerifyQuote
         else if unat report_verify_size \<noteq> TD_VERIFIED_REPORT_SIZE then Err InvalidOutput
         else
           rbind (index_range 0 (unat report_verify_size) td_report_verify) (\<lambda>r.
             mask_verified_report_values r))"

definition attest_verify_quote ::
    "(bytes \<Rightarrow> bytes \<Rightarrow> int \<times> bytes \<times> 32 word) \<Rightarrow> bytes option \<Rightarrow> bytes \<Rightarrow> (attest_error, bytes) outcome" where
  "attest_verify_quote verify_quote_integrity root_key quote =
     verified_report verify_quote_integrity root_key quote"

definition verify_quote_with_collaterals ::
    "(c_collateral \<Rightarrow> bytes \<Rightarrow> bytes \<Rightarrow> int \<times> bytes \<times> 32 word) \<Rightarrow> bytes option \<Rightarrow> bytes \<Rightarrow> c_collateral
     \<Rightarrow> (attest_error, bytes) outcome" where
  "verify_quote_with_collaterals verify_quote_integrity_ex root_key quote collateral =
     verified_report (verify_quote_integrity_ex collateral) root_key quote"

section \<open>Waiting for the VMM\<close>

abbreviation status_at :: "(nat \<Rightarrow> bytes) \<Rightarrow> nat \<Rightarrow> 64 word" where
  "status_at memory n \<equiv> u64_of (slice 8 16 (memory n))"

lemma poll_status_skip:
  assumes "\<And>n. 16 \<le> length (memory n)"
    and "\<And>j. j < k \<Longrightarrow> status_at memory (n + j) = GET_QUOTE_STATUS_IN_FLIGHT"
  shows "poll_status False memory n = poll_status False memory (n + k)"
  using assms(2)
proof (induction k arbitrary: n)
  case (Suc k)
  have "poll_status False memory n = poll_status False memory (Suc n)"
    using assms(1) [of n] Suc.prems [of 0]
    by (subst poll_status.simps) (simp add: get_range_def)
  also have "\<dots> = poll_status False memory (Suc n + k)"
    using Suc.prems [of "Suc _"] by (intro Suc.IH) simp
  finally show ?case by simp
qed simp

lemma poll_status_stop:
  assumes "16 \<le> length (memory n)" and "status_at memory n \<noteq> GET_QUOTE_STATUS_IN_FLIGHT"
  shows "poll_status False memory n = Some (Ok (status_at memory n), Suc n)"
  using assms by (subst poll_status.simps) (simp add: get_range_def)

lemma poll_status_ended:
  assumes "poll_status False memory n = Some r" and "\<And>n. 16 \<le> length (memory n)"
  shows "\<exists>k\<ge>n. status_at memory k \<noteq> GET_QUOTE_STATUS_IN_FLIGHT"
proof -
  let ?P = "\<lambda>b memory n r. \<not> b \<longrightarrow> (\<forall>n. 16 \<le> length (memory n)) \<longrightarrow>
      (\<exists>k\<ge>n. status_at memory k \<noteq> GET_QUOTE_STATUS_IN_FLIGHT)"
  have "?P False memory n r"
  proof (rule poll_status.raw_induct [where P = ?P, OF _ assms(1)], goal_cases)
    case (1 f b m n y)
    show ?case
    proof (intro impI)
      assume "\<not> b" and len: "\<forall>n. 16 \<le> length (m n)"
      show "\<exists>k\<ge>n. status_at m k \<noteq> GET_QUOTE_STATUS_IN_FLIGHT"
      proof (cases "status_at m n = GET_QUOTE_STATUS_IN_FLIGHT")
        case True
        with 1(2) \<open>\<not> b\<close> len have "f b m (Suc n) = Some y" by (simp add: get_range_def)
        from 1(1) [OF this] \<open>\<not> b\<close> len
        obtain k where "Suc n \<le> k" and "status_at m k \<noteq> GET_QUOTE_STATUS_IN_FLIGHT" by auto
        then show ?thesis by (intro exI [of _ k]) simp
      qed (rule exI [of _ n], simp)
    qed
  qed
  with assms(2) show ?thesis by simp
qed

text \<open>C36: when no notification could be registered, waiting for a quote ends exactly when the VMM eventually
  writes a status other than in-flight, and it then acts on the first such status it reads; while
  the status stays in-flight the wait goes on for ever.\<close>

theorem wait_for_quote_polls:
  assumes "\<And>n. 16 \<le> length (memory n)"
  shows "(wait_for_quote_completion False notifier memory = None \<longleftrightarrow>
            (\<forall>n. status_at memory n = GET_QUOTE_STATUS_IN_FLIGHT)) \<and>
    (\<forall>k. status_at memory k \<noteq> GET_QUOTE_STATUS_IN_FLIGHT \<and>
         (\<forall>j<k. status_at memory j = GET_QUOTE_STATUS_IN_FLIGHT) \<longrightarrow>
       wait_for_quote_completion False notifier memory = Some (quote_status (status_at memory k), Suc k))"
proof -
  have run: "poll_status False memory 0 = Some (Ok (status_at memory k), Suc k)"
    if "status_at memory k \<noteq> GET_QUOTE_STATUS_IN_FLIGHT"
      "\<forall>j<k. status_at memory j = GET_QUOTE_STATUS_IN_FLIGHT" for k
    using poll_status_skip [of memory k 0, OF assms] poll_status_stop [of memory k, OF assms] that by simp
  have "\<exists>k. status_at memory k \<noteq> GET_QUOTE_STATUS_IN_FLIGHT \<and>
      (\<forall>j<k. status_at memory j = GET_QUOTE_STATUS_IN_FLIGHT)"
    if "status_at memory n \<noteq> GET_QUOTE_STATUS_IN_FLIGHT" for n
    using that exists_least_iff [of "\<lambda>n. status_at memory n \<noteq> GET_QUOTE_STATUS_IN_FLIGHT"] by auto
  then have "poll_status False memory 0 = None \<longleftrightarrow> (\<forall>n. status_at memory n = GET_QUOTE_STATUS_IN_FLIGHT)"
    using poll_status_ended [of memory 0, OF _ assms] run by (metis not_None_eq)
  with run show ?thesis by (auto simp: wait_for_quote_completion_def)
qed

theorem wait_for_quote_polls_witness:
  "wait_for_quote_completion False (\<lambda>_. 0) (\<lambda>n. replicate 16 (if n < 2 then 0xFF else 0)) = Some (Ok (), 3)"
proof -
  let ?m = "\<lambda>n :: nat. replicate 16 (if n < 2 then 0xFF else 0 :: 8 word)"
  have "slice 8 16 (replicate 16 x) = [x, x, x, x, x, x, x, x]" for x :: "8 word"
    by (simp add: slice_def numeral_eq_Suc)
  then have z: "status_at ?m 2 = 0" and f: "\<forall>j<2. status_at ?m j = GET_QUOTE_STATUS_IN_FLIGHT"
    by (simp_all add: u64_of_def GET_QUOTE_STATUS_IN_FLIGHT_def)
  then have "status_at ?m 2 \<noteq> GET_QUOTE_STATUS_IN_FLIGHT" by (simp add: GET_QUOTE_STATUS_IN_FLIGHT_def)
  with f have "wait_for_quote_completion False (\<lambda>_. 0) ?m = Some (quote_status (status_at ?m 2), Suc 2)"
    using wait_for_quote_polls [of ?m "\<lambda>_. 0", THEN conjunct2, THEN spec, of 2] by (simp only: length_replicate) simp
  also have "quote_status (status_at ?m 2) = Ok ()"
    by (simp only: z quote_status_def GET_QUOTE_STATUS_SUCCESS_def if_True simp_thms)
  finally show ?thesis by simp
qed

section \<open>The quote\<close>

lemma quote_status_no_panic [simp]: "quote_status s \<noteq> Panic"
  by (simp add: quote_status_def)

lemma poll_status_no_panic: "poll_status b memory n = Some (r, k) \<Longrightarrow> r \<noteq> Panic"
proof -
  have "fst x \<noteq> Panic" if "poll_status b memory n = Some x" for x
    by (rule poll_status.raw_induct [where P = "\<lambda>b memory n r. fst r \<noteq> Panic", OF _ that])
      (auto split: option.splits if_splits)
  then show "poll_status b memory n = Some (r, k) \<Longrightarrow> r \<noteq> Panic" by force
qed

lemma wait_no_panic: "wait_for_quote_completion b notifier memory = Some (r, k) \<Longrightarrow> r \<noteq> Panic"
  by (auto simp: wait_for_quote_completion_def outcome_simps split: if_splits option.splits dest: poll_status_no_panic)

lemma servtd_get_quote_Ok:
  assumes "servtd_get_quote host (Some input) = Some r"
    and "\<And>k s. qh_shared host k = Some s \<Longrightarrow> length s = k * 0x1000"
    and "\<And>m n. length (qh_memory host m n) = length m"
  shows "\<exists>ret out. r = Ok (ret, Some out) \<and> length out = length input"
proof -
  have fits: "length input \<le> length s" if "qh_shared host ((length input + 0xFFF) div 0x1000) = Some s" for s
    using assms(2) [OF that] by linarith
  have "\<exists>ret out. x = Ok (ret, Some out) \<and> length out = length input"
    if "length input \<le> length s" and "x = rbind (index_range 0 (length input) (qh_memory host (overwrite 0 input s) n))
        (\<lambda>input'. case w of Err err \<Rightarrow> Ok (lib_code err, Some input') | Ok _ \<Rightarrow> Ok (0, Some input') | Panic \<Rightarrow> Panic)"
      and "w \<noteq> Panic" for x s n w
    using that assms(3) [of "overwrite 0 input s" n] by (cases w) (auto simp: index_range_def)
  with assms(1) fits show ?thesis
    by (fastforce simp: servtd_get_quote_def Let_def not_less split: if_splits option.splits vmcall_result.splits
        dest: wait_no_panic)
qed


lemma take_overwrite: "length d \<le> length dst \<Longrightarrow> take (length d) (overwrite 0 d dst) = d"
  by (simp add: overwrite_def)

lemma length_request:
  "24 + length td_report \<le> SERVTD_REQ_BUF_SIZE \<Longrightarrow>
     length (overwrite 24 td_report (overwrite 0 (enc_quote_hdr hdr) (replicate SERVTD_REQ_BUF_SIZE 0))) =
       SERVTD_REQ_BUF_SIZE"
  by (simp add: enc_quote_hdr_def SERVTD_REQ_BUF_SIZE_def)



definition sample_host :: quote_host where
  "sample_host = \<lparr> qh_shared = (\<lambda>k. Some (replicate (k * 0x1000) 0)), qh_notify = False, qh_call = VmcallOk,
     qh_notifier = (\<lambda>_. 0),
     qh_memory = (\<lambda>m _. take (length m)
       ([0, 0, 0, 0, 0, 0, 0, 0, 0, 0, 0, 0, 0, 0, 0, 0, 0, 0, 0, 0, 2, 0, 0, 0, 0xAB, 0xCD] @ replicate (length m) 0)) \<rparr>"

lemma sample_memory:
  assumes "length m = 65536"
  shows "get_range 8 16 (qh_memory sample_host m n) = Some [0, 0, 0, 0, 0, 0, 0, 0]"
    and "slice 20 24 (slice 0 65536 (qh_memory sample_host m n)) = [2, 0, 0, 0]"
    and "slice 24 26 (slice 0 65536 (qh_memory sample_host m n)) = [0xAB, 0xCD]"
  using assms by (simp_all add: sample_host_def get_range_def slice_def)

lemma sample_servtd_get_quote:
  assumes "length blob = 65536"
  shows "servtd_get_quote sample_host (Some blob) =
    Some (Ok (0, Some (slice 0 65536 (qh_memory sample_host (overwrite 0 blob (replicate 65536 0)) 1))))"
proof -
  let ?shared = "overwrite 0 blob (replicate 65536 0)"
  have len: "length ?shared = 65536" using assms by simp
  have "poll_status False (qh_memory sample_host ?shared) 0 = Some (Ok 0, 1)"
    unfolding poll_status.simps [of False "qh_memory sample_host ?shared" 0] sample_memory(1) [OF len]
    by (simp add: u64_of_def GET_QUOTE_STATUS_IN_FLIGHT_def)
  moreover have "length (qh_memory sample_host ?shared 1) = 65536" using len by (simp add: sample_host_def)
  moreover have "qh_shared sample_host 16 = Some (replicate 65536 0)" "\<not> qh_notify sample_host"
    "qh_call sample_host = VmcallOk" by (simp_all add: sample_host_def)
  ultimately show ?thesis
    using assms by (simp add: servtd_get_quote_def GET_QUOTE_MAX_SIZE_def Let_def
        wait_for_quote_completion_def quote_status_def GET_QUOTE_STATUS_SUCCESS_def index_range_def)
qed

lemma sample_host_quote: "get_quote_igvm sample_host [] = Some (Ok [0xAB, 0xCD])"
proof -
  let ?hdr = "\<lparr> qhdr_version = 1, qhdr_status = 0, qhdr_in_len = word_of_nat (length ([] :: bytes)),
      qhdr_out_len = word_of_nat TD_QUOTE_SIZE \<rparr>"
  let ?blob = "overwrite 24 [] (overwrite 0 (enc_quote_hdr ?hdr) (replicate SERVTD_REQ_BUF_SIZE 0))"
  define M where "M = slice 0 65536 (qh_memory sample_host (overwrite 0 ?blob (replicate 65536 0)) 1)"
  have "length ?blob = 65536" using length_request [of "[]" ?hdr] by (simp add: SERVTD_REQ_BUF_SIZE_def)
  then have sg: "servtd_get_quote sample_host (Some ?blob) = Some (Ok (0, Some M))"
    and "length M = 65536" and "u32_of (slice 20 24 M) = 2" and "slice 24 26 M = [0xAB, 0xCD]"
    using sample_servtd_get_quote [of ?blob] sample_memory(2,3) [of "overwrite 0 ?blob (replicate 65536 0)" 1]
    by (simp_all add: M_def u32_of_def) (simp add: sample_host_def)
  then show ?thesis
    unfolding get_quote_igvm_def Let_def sg
    by (simp add: index_range_def SERVTD_REQ_BUF_SIZE_def TD_QUOTE_SIZE_def overwrite_def)
qed


section \<open>Masked reports\<close>

lemma length_mask_range [simp]: "length (mask_range i j n r) = length r"
  by (induction n) (simp_all add: mask_range_def)

lemma mask_range_nth:
  assumes "i + n \<le> j" and "j + n \<le> length r" and "m < length r"
  shows "mask_range i j n r ! m = (if i \<le> m \<and> m < i + n then r ! m AND r ! (m + (j - i)) else r ! m)"
  using assms
proof (induction n arbitrary: m)
  case (Suc n)
  let ?r = "mask_range i j n r"
  have "mask_range i j (Suc n) r = ?r[i + n := ?r ! (i + n) AND ?r ! (j + n)]" by (simp add: mask_range_def)
  moreover have "?r ! (i + n) = r ! (i + n)" "?r ! (j + n) = r ! (j + n)"
    using Suc.IH [of "i + n"] Suc.IH [of "j + n"] Suc.prems by auto
  moreover have "?r ! m = (if i \<le> m \<and> m < i + n then r ! m AND r ! (m + (j - i)) else r ! m)"
    using Suc by simp
  ultimately show ?case using Suc.prems by (cases "m = i + n") (auto simp: nth_list_update add.commute)
qed (simp add: mask_range_def)

definition masked_report :: "bytes \<Rightarrow> nat \<Rightarrow> 8 word" where
  "masked_report raw m =
     (if 626 \<le> m \<and> m < 630 then raw ! m AND raw ! (m + 4)
      else if 634 \<le> m \<and> m < 650 then raw ! m AND raw ! (m + 16)
      else raw ! m)"

lemma mask_verified_report_nth:
  assumes "mask_verified_report_values raw = Ok r" and "m < length raw"
  shows "r ! m = masked_report raw m"
proof -
  have "666 \<le> length raw" and r: "r = mask_range 634 650 16 (mask_range 626 630 4 raw)"
    using assms(1) by (auto simp: mask_verified_report_values_def split: if_splits)
  then show ?thesis
    using assms(2) unfolding r masked_report_def by (simp add: mask_range_nth)
qed

text \<open>A verified report is 822 bytes long and is what the attestation library returned with success,
  except that the selection bits and the attributes of the quoting enclave are masked with the mask
  the library returned beside them.  With an output buffer of 1024 bytes the call never panics.\<close>

theorem verify_quote_report:
  assumes "\<And>q k. length (fst (snd (verify_quote_integrity_ex collateral q k))) = TD_REPORT_VERIFY_SIZE"
  shows "verify_quote_with_collaterals verify_quote_integrity_ex root_key quote collateral \<noteq> Panic \<and>
    (\<forall>r. verify_quote_with_collaterals verify_quote_integrity_ex root_key quote collateral = Ok r \<longrightarrow>
       (\<exists>key raw. root_key = Some key \<and> verify_quote_integrity_ex collateral quote key = (0, raw, 822) \<and>
          r = map (masked_report raw) [0..<822]))"
proof -
  have "\<exists>key raw. root_key = Some key \<and> verify_quote_integrity_ex collateral quote key = (0, raw, 822) \<and>
      r = map (masked_report raw) [0..<822]"
    if ok: "verify_quote_with_collaterals verify_quote_integrity_ex root_key quote collateral = Ok r" for r
  proof -
    obtain key where key: "root_key = Some key"
      using ok by (auto simp: verify_quote_with_collaterals_def verified_report_def outcome_simps)
    moreover obtain res raw sz where "verify_quote_integrity_ex collateral quote key = (res, raw, sz)"
      by (metis prod_cases3)
    ultimately have k: "verify_quote_integrity_ex collateral quote key = (0, raw, sz)" "unat sz = 822"
      "mask_verified_report_values (slice 0 822 raw) = (Ok r :: (attest_error, bytes) outcome)" "822 \<le> length raw"
      using ok by (auto simp: verify_quote_with_collaterals_def verified_report_def outcome_simps
          TD_VERIFIED_REPORT_SIZE_def split: if_splits)
    then have "sz = 822" by (simp add: word_unat_eq_iff)
    have "length r = 822" using k(3,4) by (auto simp: mask_verified_report_values_def split: if_splits)
    moreover have "r ! m = masked_report raw m" if "m < 822" for m
      using mask_verified_report_nth [OF k(3), of m] k(4) that
      by (simp add: masked_report_def slice_def)
    ultimately have "r = map (masked_report raw) [0..<822]" by (intro nth_equalityI) simp_all
    with key k(1) \<open>sz = 822\<close> show ?thesis by (intro exI [of _ key] exI [of _ raw]) simp
  qed
  moreover have "verify_quote_with_collaterals verify_quote_integrity_ex root_key quote collateral \<noteq> Panic"
  proof (cases root_key)
    case (Some key)
    obtain res raw sz where v: "verify_quote_integrity_ex collateral quote key = (res, raw, sz)"
      by (metis prod_cases3)
    then have "length raw = 1024" using assms [of quote key] by (simp add: TD_REPORT_VERIFY_SIZE_def)
    then show ?thesis
      using Some v by (simp add: verify_quote_with_collaterals_def verified_report_def index_range_def
          TD_VERIFIED_REPORT_SIZE_def mask_verified_report_values_def)
  qed (simp add: verify_quote_with_collaterals_def verified_report_def)
  ultimately show ?thesis by simp
qed

definition sample_collateral :: c_collateral where
  "sample_collateral = \<lparr> cc_major_version = 3, cc_minor_version = 1, cc_tee_type = 0x81,
     cc_pck_crl_issuer_chain = [], cc_root_ca_crl = [], cc_pck_crl = [], cc_tcb_info_issuer_chain = [],
     cc_tcb_info = [], cc_qe_identity_issuer_chain = [], cc_qe_identity = [] \<rparr>"

theorem verify_quote_report_witness:
  "verify_quote_with_collaterals (\<lambda>_ _ _. (0, replicate 1024 6, 822)) (Some [1]) [] sample_collateral =
     Ok (map (masked_report (replicate 1024 6)) [0..<822])"
proof -
  have ok: "is_ok (verify_quote_with_collaterals (\<lambda>_ _ _. (0, replicate 1024 6, 822)) (Some [1]) [] sample_collateral)"
    by (simp add: verify_quote_with_collaterals_def verified_report_def TD_VERIFIED_REPORT_SIZE_def
        index_range_def mask_verified_report_values_def)
  with verify_quote_report [of "\<lambda>_ _ _. (0, replicate 1024 6, 822)" sample_collateral "Some [1]" "[]"]
  show ?thesis by (auto simp: TD_REPORT_VERIFY_SIZE_def is_ok_iff)
qed

section \<open>Retrying\<close>

lemma mul_u64_2: "unat d * 2 ^ Suc n < 2 ^ 64 \<Longrightarrow> mul_u64 d 2 = Ok (d * 2) \<and> unat (d * 2) = unat d * 2"
proof -
  assume a: "unat d * 2 ^ Suc n < 2 ^ 64"
  have "unat d * 2 \<le> unat d * 2 ^ Suc n" by simp
  with a have "unat d * 2 < 2 ^ 64" by (rule le_less_trans [rotated])
  then show ?thesis by (simp add: mul_u64_def unat_word_ariths)
qed

lemma retry_loop_delays:
  assumes "retry_loop report quote a d w = Some (r, w')"
    and "a \<le> MAX_RETRIES" and "unat d * 2 ^ Suc (MAX_RETRIES - a) < 2 ^ 64"
  shows "\<exists>k\<le>MAX_RETRIES - a. rw_delays w' = rw_delays w @ map (\<lambda>i. d * 2 ^ i) [0..<k] \<and>
    (r = Panic \<longrightarrow> (\<exists>rep h h'. quote rep h = Some (Panic, h')))"
  using assms
proof (induction report quote a d w rule: retry_loop.induct)
  case (1 report quote a d w)
  obtain rep h where rep: "report (rw_host w) = (rep, h)" by fastforce
  show ?case
  proof (cases "\<exists>rp h'. rep = Some rp \<and> quote rp h = Some (Err AttestBusy, h') \<and> a + 1 \<le> MAX_RETRIES")
    case True
    then obtain rp h' where q: "rep = Some rp" "quote rp h = Some (Err AttestBusy, h')" "a + 1 \<le> MAX_RETRIES"
      by blast
    define w1 where "w1 = w\<lparr> rw_host := h', rw_delays := rw_delays w @ [d] \<rparr>"
    have "Suc (MAX_RETRIES - a) = Suc (Suc (MAX_RETRIES - (a + 1)))" using q(3) by simp
    with "1.prems"(3) have bound: "unat d * 2 ^ Suc (Suc (MAX_RETRIES - (a + 1))) < 2 ^ 64" by simp
    have d2: "mul_u64 d 2 = (Ok (d * 2) :: (quote_error, 64 word) outcome)" "unat (d * 2) = unat d * 2"
      by (rule mul_u64_2 [OF bound, THEN conjunct1], rule mul_u64_2 [OF bound, THEN conjunct2])
    from "1.prems"(1) rep q d2 have "retry_loop report quote (a + 1) (d * 2) w1 = Some (r, w')"
      by (subst (asm) retry_loop.simps) (simp add: w1_def Let_def)
    moreover have "unat (d * 2) * 2 ^ Suc (MAX_RETRIES - (a + 1)) < 2 ^ 64"
      using d2 bound by (simp add: mult.assoc)
    ultimately have "\<exists>k\<le>MAX_RETRIES - (a + 1). rw_delays w' = rw_delays w1 @ map (\<lambda>i. d * 2 * 2 ^ i) [0..<k] \<and>
        (r = Panic \<longrightarrow> (\<exists>rep h h'. quote rep h = Some (Panic, h')))"
      using q(3) by (intro "1.IH" [OF rep [symmetric] q(1) q(2) refl refl refl _ w1_def d2(1)]) simp_all
    then obtain k where k: "k \<le> MAX_RETRIES - (a + 1)"
      "rw_delays w' = rw_delays w1 @ map (\<lambda>i. d * 2 * 2 ^ i) [0..<k]"
      "r = Panic \<longrightarrow> (\<exists>rep h h'. quote rep h = Some (Panic, h'))"
      by blast
    have "map (\<lambda>i. d * 2 ^ i) [0..<Suc k] = d # map (\<lambda>i. d * 2 * 2 ^ i) [0..<k]"
      by (simp only: upt_conv_Cons [of 0 "Suc k"] map_Suc_upt [symmetric] zero_less_Suc list.map)
        (simp add: mult.assoc comp_def)
    with k q(3) show ?thesis by (intro exI [of _ "Suc k"]) (simp add: w1_def)
  next
    case False
    with "1.prems"(1) rep have "rw_delays w' = rw_delays w \<and>
        (r = Panic \<longrightarrow> (\<exists>rep h h'. quote rep h = Some (Panic, h')))"
      by (subst (asm) retry_loop.simps)
        (auto split: option.splits prod.splits outcome.splits if_splits)
    then show ?thesis by (intro exI [of _ 0]) simp
  qed
qed

lemma retry_loop_returns:
  assumes "\<And>rep h. quote rep h \<noteq> None"
  shows "retry_loop report quote a d w \<noteq> None"
  using assms
proof (induction report quote a d w rule: retry_loop.induct)
  case (1 report quote a d w)
  obtain rep h where rep: "report (rw_host w) = (rep, h)" by fastforce
  show ?case
  proof (cases rep)
    case (Some rp)
    obtain x h' where q: "quote rp h = Some (x, h')" using "1.prems" [of rp h] by auto
    show ?thesis
    proof (cases x)
      case (Err e)
      then show ?thesis
        using rep Some q "1.IH" [OF rep [symmetric] Some q refl Err _ _ refl _ "1.prems"]
        by (subst retry_loop.simps) (auto simp: Let_def split: outcome.split)
    qed (use rep Some q in \<open>subst retry_loop.simps, simp\<close>)+
  qed (use rep in \<open>subst retry_loop.simps, simp\<close>)
qed


definition busy_twice :: "bytes \<Rightarrow> (nat, attest_error, bytes) prog" where
  "busy_twice rep h = (if h < 2 then Some (Err AttestBusy, Suc h) else Some (Ok [7], h))"


text \<open>The root key is set by the first certificate that decodes, and never changes afterwards.\<close>

lemma set_ca_once: "snd (set_ca env cert (Some k)) = Some k"
  by (simp add: set_ca_def)

end
