(* ===== verification/ServtdExt.thy ===== *)
theory ServtdExt
  imports MigTypes EventLog
begin

text \<open>
  The extended binding information of a service TD, from \<open>src/migtd/src/migration/servtd_ext.rs\<close>: its layout,
  reading it field by field from the target TD's control structure, the attribute check, the approved
  hash, and writing that hash back.  The TDX module's read and write calls are parameters.
\<close>

section \<open>Model\<close>

definition TDCS_FIELD_SERVTD_INIT_SERVTD_INFO_HASH :: "64 word" where
  "TDCS_FIELD_SERVTD_INIT_SERVTD_INFO_HASH = 0x191000030000020E"
definition TDCS_FIELD_SERVTD_INIT_ATTR :: "64 word" where
  "TDCS_FIELD_SERVTD_INIT_ATTR = 0x191000030000020D"
definition TDCS_FIELD_INIT_CPUSVN :: "64 word" where "TDCS_FIELD_INIT_CPUSVN = 0x1110000300000060"
definition TDCS_FIELD_INIT_TEE_TCB_SVN :: "64 word" where "TDCS_FIELD_INIT_TEE_TCB_SVN = 0x1110000300000062"
definition TDCS_FIELD_INIT_TEE_MODEL :: "64 word" where "TDCS_FIELD_INIT_TEE_MODEL = 0x1110000200000064"
definition TDCS_FIELD_SERVTD_INFO_HASH :: "64 word" where "TDCS_FIELD_SERVTD_INFO_HASH = 0x1910000300000207"
definition TDCS_FIELD_SERVTD_ATTR :: "64 word" where "TDCS_FIELD_SERVTD_ATTR = 0x1910000300000202"
definition TDCS_FIELD_SERVTD_ACCEPT_SERVTD_EXT_HASH :: "64 word" where
  "TDCS_FIELD_SERVTD_ACCEPT_SERVTD_EXT_HASH = 0x1910000300000214"
definition TDCS_FIELD_WRITE_MASK :: "64 word" where "TDCS_FIELD_WRITE_MASK = - 1"
definition EXPECTED_SERVTD_ATTR :: "64 word" where "EXPECTED_SERVTD_ATTR = 0"

record servtd_ext =
  init_servtd_info_hash :: bytes
  init_attr :: bytes
  se_reserved :: bytes
  init_cpusvn :: bytes
  init_tee_tcb_svn :: bytes
  init_tee_model :: bytes
  se_reserved1 :: bytes
  cur_servtd_info_hash :: bytes
  cur_servtd_attr :: bytes
  se_reserved2 :: bytes

definition servtd_ext_as_bytes :: "servtd_ext \<Rightarrow> bytes" where
  "servtd_ext_as_bytes e =
     init_servtd_info_hash e @ init_attr e @ se_reserved e @ init_cpusvn e @ init_tee_tcb_svn e
     @ init_tee_model e @ se_reserved1 e @ cur_servtd_info_hash e @ cur_servtd_attr e @ se_reserved2 e"

definition dec_servtd_ext :: "bytes \<Rightarrow> servtd_ext" where
  "dec_servtd_ext bs =
     \<lparr> init_servtd_info_hash = slice 0 48 bs, init_attr = slice 48 56 bs, se_reserved = slice 56 64 bs,
       init_cpusvn = slice 64 80 bs, init_tee_tcb_svn = slice 80 96 bs, init_tee_model = slice 96 108 bs,
       se_reserved1 = slice 108 112 bs, cur_servtd_info_hash = slice 112 160 bs,
       cur_servtd_attr = slice 160 168 bs, se_reserved2 = slice 168 272 bs \<rparr>"

definition servtd_ext_read_from_bytes :: "bytes \<Rightarrow> servtd_ext option" where
  "servtd_ext_read_from_bytes bs = (if length bs < 272 then None else Some (dec_servtd_ext (take 272 bs)))"

definition calculate_approved_servtd_ext_hash ::
    "(bytes \<Rightarrow> bytes) \<Rightarrow> servtd_ext \<Rightarrow> (migration_result, bytes) outcome" where
  "calculate_approved_servtd_ext_hash sha self =
     (let self = self\<lparr> cur_servtd_attr := replicate (length (cur_servtd_attr self)) 0 \<rparr>;
          self = self\<lparr> cur_servtd_info_hash := replicate (length (cur_servtd_info_hash self)) 0 \<rparr>
      in map_err (\<lambda>_. InvalidParameter) (digest_sha384 sha (servtd_ext_as_bytes self)))"

text \<open>
  \<open>rd field\<close> is \<open>tdcall_servtd_rd\<close> for the binding and the TD at hand.  A buffer is read in elements of
  \<open>elem_size\<close> bytes, the last of which may be shorter.
\<close>

fun chunk_lengths :: "nat \<Rightarrow> nat \<Rightarrow> nat list" where
  "chunk_lengths n tot =
     (if tot = 0 \<or> n = 0 then [] else min n tot # chunk_lengths n (tot - n))"

declare chunk_lengths.simps [simp del]

fun read_chunks :: "(64 word \<Rightarrow> 64 word option) \<Rightarrow> 64 word \<Rightarrow> nat \<Rightarrow> nat list \<Rightarrow> (migration_result, bytes) outcome" where
  "read_chunks rd field_base idx [] = Ok []"
| "read_chunks rd field_base idx (n # ns) =
     rbind (ok_or TdxModuleError (rd (field_base + word_of_nat idx))) (\<lambda>content.
     rbind (index_range 0 n (u64_le content)) (\<lambda>chunk.
     rbind (read_chunks rd field_base (Suc idx) ns) (\<lambda>rest. Ok (chunk @ rest))))"

definition read_field ::
    "(64 word \<Rightarrow> 64 word option) \<Rightarrow> 64 word \<Rightarrow> nat \<Rightarrow> nat \<Rightarrow> (migration_result, bytes) outcome" where
  "read_field rd field_base elem_size tot = read_chunks rd field_base 0 (chunk_lengths elem_size tot)"

definition read_servtd_ext :: "(64 word \<Rightarrow> 64 word option) \<Rightarrow> (migration_result, servtd_ext) outcome" where
  "read_servtd_ext rd =
     rbind (read_field rd TDCS_FIELD_SERVTD_INIT_SERVTD_INFO_HASH 8 48) (\<lambda>init_hash.
     rbind (read_field rd TDCS_FIELD_SERVTD_INIT_ATTR 8 8) (\<lambda>attr.
     rbind (read_field rd TDCS_FIELD_INIT_CPUSVN 8 16) (\<lambda>cpusvn.
     rbind (read_field rd TDCS_FIELD_INIT_TEE_TCB_SVN 8 16) (\<lambda>tcb_svn.
     rbind (read_field rd TDCS_FIELD_INIT_TEE_MODEL 4 12) (\<lambda>model.
     rbind (read_field rd TDCS_FIELD_SERVTD_INFO_HASH 8 48) (\<lambda>cur_hash.
     rbind (read_field rd TDCS_FIELD_SERVTD_ATTR 8 8) (\<lambda>cur_attr.
       if u64_of cur_attr \<noteq> EXPECTED_SERVTD_ATTR then Err InvalidParameter
       else Ok \<lparr> init_servtd_info_hash = init_hash, init_attr = attr, se_reserved = replicate 8 0,
                 init_cpusvn = cpusvn, init_tee_tcb_svn = tcb_svn, init_tee_model = model,
                 se_reserved1 = replicate 4 0, cur_servtd_info_hash = cur_hash,
                 cur_servtd_attr = cur_attr, se_reserved2 = replicate 104 0 \<rparr>)))))))"

definition verify_servtd_attr :: "(64 word \<Rightarrow> 64 word option) \<Rightarrow> (migration_result, unit) outcome" where
  "verify_servtd_attr rd =
     rbind (ok_or TdxModuleError (rd TDCS_FIELD_SERVTD_ATTR)) (\<lambda>actual_attr.
       if actual_attr \<noteq> EXPECTED_SERVTD_ATTR then Err InvalidParameter else Ok ())"

text \<open>\<open>vm_write field value mask\<close> changes the state of the TDX module or fails.\<close>

fun write_words ::
    "(64 word \<Rightarrow> 64 word \<Rightarrow> 64 word \<Rightarrow> 's \<Rightarrow> 's option) \<Rightarrow> nat \<Rightarrow> bytes list
     \<Rightarrow> 's \<Rightarrow> (migration_result, unit) outcome \<times> 's" where
  "write_words vm_write idx [] s = (Ok (), s)"
| "write_words vm_write idx (chunk # chunks) s =
     (case vm_write (TDCS_FIELD_SERVTD_ACCEPT_SERVTD_EXT_HASH + word_of_nat idx) (u64_of chunk)
             TDCS_FIELD_WRITE_MASK s of
        None \<Rightarrow> (Err TdxModuleError, s)
      | Some s' \<Rightarrow> write_words vm_write (Suc idx) chunks s')"

text \<open>\<open>chunks_exact\<close> of eight bytes.\<close>

fun chunks_exact8 :: "bytes \<Rightarrow> bytes list" where
  "chunks_exact8 bs = (if length bs < 8 then [] else take 8 bs # chunks_exact8 (drop 8 bs))"

declare chunks_exact8.simps [simp del]

definition write_approved_servtd_ext_hash ::
    "(64 word \<Rightarrow> 64 word \<Rightarrow> 64 word \<Rightarrow> 's \<Rightarrow> 's option) \<Rightarrow> bytes \<Rightarrow> 's
     \<Rightarrow> (migration_result, unit) outcome \<times> 's" where
  "write_approved_servtd_ext_hash vm_write servtd_ext_hash s =
     (if length servtd_ext_hash \<noteq> SHA384_DIGEST_SIZE then (Err InvalidParameter, s)
      else write_words vm_write 0 (chunks_exact8 servtd_ext_hash) s)"

section \<open>Layout\<close>

definition servtd_ext_typed :: "servtd_ext \<Rightarrow> bool" where
  "servtd_ext_typed e \<longleftrightarrow> length (init_servtd_info_hash e) = 48 \<and> length (init_attr e) = 8 \<and>
     length (se_reserved e) = 8 \<and> length (init_cpusvn e) = 16 \<and> length (init_tee_tcb_svn e) = 16 \<and>
     length (init_tee_model e) = 12 \<and> length (se_reserved1 e) = 4 \<and> length (cur_servtd_info_hash e) = 48 \<and>
     length (cur_servtd_attr e) = 8 \<and> length (se_reserved2 e) = 104"

interpretation servtd_ext_struct: wire_struct 272 servtd_ext_as_bytes dec_servtd_ext servtd_ext_typed
proof (unfold_locales, goal_cases)
  case (2 x)
  then show ?case by (cases x) (simp add: servtd_ext_typed_def servtd_ext_as_bytes_def dec_servtd_ext_def slice_def)
next
  case (4 bs)
  then show ?case by (simp add: servtd_ext_as_bytes_def dec_servtd_ext_def layout_simps)
qed (simp_all add: servtd_ext_typed_def servtd_ext_as_bytes_def dec_servtd_ext_def)

section \<open>Reading and writing fields\<close>

text \<open>The words of consecutive fields, when all of them can be read.\<close>

fun field_words :: "(64 word \<Rightarrow> 64 word option) \<Rightarrow> 64 word \<Rightarrow> nat \<Rightarrow> nat \<Rightarrow> 64 word list option" where
  "field_words rd base i 0 = Some []"
| "field_words rd base i (Suc n) =
     (case rd (base + word_of_nat i) of
        None \<Rightarrow> None
      | Some w \<Rightarrow> map_option (\<lambda>ws. w # ws) (field_words rd base (Suc i) n))"

lemma field_words_length: "field_words rd base i n = Some ws \<Longrightarrow> length ws = n"
  by (induction n arbitrary: i ws) (auto split: option.splits)

lemma read_chunks_whole:
  "k \<le> 8 \<Longrightarrow> read_chunks rd base i (replicate n k) = Ok bs \<longleftrightarrow>
     (\<exists>ws. field_words rd base i n = Some ws \<and> bs = concat (map (\<lambda>w. take k (u64_le w)) ws))"
proof (induction n arbitrary: i bs)
  case (Suc n)
  then show ?case
    by (cases "rd (base + word_of_nat i)") (auto simp: outcome_simps slice_def)
qed auto

lemma read_chunks_no_panic: "\<forall>k\<in>set ks. k \<le> 8 \<Longrightarrow> read_chunks rd base i ks \<noteq> Panic"
  by (induction ks arbitrary: i) (auto simp: outcome_simps)

lemma chunk_lengths_whole: "0 < k \<Longrightarrow> chunk_lengths k (n * k) = replicate n k"
proof (induction n)
  case (Suc n)
  then show ?case by (subst chunk_lengths.simps) simp
qed (simp add: chunk_lengths.simps)

lemma concat_u64: "concat (map (\<lambda>w. take 8 (u64_le w)) ws) = u64s_le ws"
  by (simp add: u64s_le_def)

lemma read_field_8:
  "read_field rd base 8 (n * 8) = Ok bs \<longleftrightarrow> (\<exists>ws. field_words rd base 0 n = Some ws \<and> bs = u64s_le ws)"
  by (simp add: read_field_def chunk_lengths_whole read_chunks_whole u64s_le_def)

lemma read_field_4:
  "read_field rd base 4 (n * 4) = Ok bs \<longleftrightarrow>
     (\<exists>ws. field_words rd base 0 n = Some ws \<and> bs = concat (map (\<lambda>w. take 4 (u64_le w)) ws))"
  by (simp add: read_field_def chunk_lengths_whole read_chunks_whole)

lemma read_field_word: "read_field rd base 8 8 = Ok bs \<longleftrightarrow> (\<exists>w. rd base = Some w \<and> bs = u64_le w)"
  using read_field_8 [of rd base 1 bs] by (auto simp: u64s_le_def split: option.splits)

lemmas read_fields = read_field_word read_field_8 [of _ _ 6, simplified]
  read_field_8 [of _ _ 2, simplified] read_field_4 [of _ _ 3, simplified]

text \<open>Reading the binding information succeeds exactly when every field can be read and the current
  attribute is the expected zero; the structure then holds the little-endian bytes of the fields, the
  reserved parts are zero and every part has the length the layout gives it.\<close>

theorem read_servtd_ext_exact:
  "read_servtd_ext rd = Ok e \<longleftrightarrow>
     (\<exists>h a c t m k.
        field_words rd TDCS_FIELD_SERVTD_INIT_SERVTD_INFO_HASH 0 6 = Some h \<and>
        rd TDCS_FIELD_SERVTD_INIT_ATTR = Some a \<and>
        field_words rd TDCS_FIELD_INIT_CPUSVN 0 2 = Some c \<and>
        field_words rd TDCS_FIELD_INIT_TEE_TCB_SVN 0 2 = Some t \<and>
        field_words rd TDCS_FIELD_INIT_TEE_MODEL 0 3 = Some m \<and>
        field_words rd TDCS_FIELD_SERVTD_INFO_HASH 0 6 = Some k \<and>
        rd TDCS_FIELD_SERVTD_ATTR = Some EXPECTED_SERVTD_ATTR \<and>
        e = \<lparr> init_servtd_info_hash = u64s_le h, init_attr = u64_le a, se_reserved = replicate 8 0,
              init_cpusvn = u64s_le c, init_tee_tcb_svn = u64s_le t,
              init_tee_model = concat (map (\<lambda>w. take 4 (u64_le w)) m), se_reserved1 = replicate 4 0,
              cur_servtd_info_hash = u64s_le k, cur_servtd_attr = u64_le EXPECTED_SERVTD_ATTR,
              se_reserved2 = replicate 104 0 \<rparr> \<and>
        servtd_ext_typed e)"
  (is "_ = ?R")
proof
  have four: "length (concat (map (\<lambda>w. take 4 (u64_le w)) ws)) = 4 * length ws" for ws
    by (induction ws) auto
  assume "read_servtd_ext rd = Ok e"
  then obtain h a c t m k where
    f: "field_words rd TDCS_FIELD_SERVTD_INIT_SERVTD_INFO_HASH 0 6 = Some h"
    "rd TDCS_FIELD_SERVTD_INIT_ATTR = Some a" "field_words rd TDCS_FIELD_INIT_CPUSVN 0 2 = Some c"
    "field_words rd TDCS_FIELD_INIT_TEE_TCB_SVN 0 2 = Some t"
    "field_words rd TDCS_FIELD_INIT_TEE_MODEL 0 3 = Some m"
    "field_words rd TDCS_FIELD_SERVTD_INFO_HASH 0 6 = Some k"
    "rd TDCS_FIELD_SERVTD_ATTR = Some EXPECTED_SERVTD_ATTR"
    and e: "e = \<lparr> init_servtd_info_hash = u64s_le h, init_attr = u64_le a, se_reserved = replicate 8 0,
              init_cpusvn = u64s_le c, init_tee_tcb_svn = u64s_le t,
              init_tee_model = concat (map (\<lambda>w. take 4 (u64_le w)) m), se_reserved1 = replicate 4 0,
              cur_servtd_info_hash = u64s_le k, cur_servtd_attr = u64_le EXPECTED_SERVTD_ATTR,
              se_reserved2 = replicate 104 0 \<rparr>"
    by (auto simp: read_servtd_ext_def outcome_simps read_fields if_Ok_iff)
  moreover have "servtd_ext_typed e"
    using f(1,3-6) [THEN field_words_length] unfolding e servtd_ext_typed_def
    by (simp add: four)
  ultimately show ?R by blast
next
  assume ?R
  then obtain h a c t m k where
    "read_field rd TDCS_FIELD_SERVTD_INIT_SERVTD_INFO_HASH 8 48 = Ok (u64s_le h)"
    "read_field rd TDCS_FIELD_SERVTD_INIT_ATTR 8 8 = Ok (u64_le a)"
    "read_field rd TDCS_FIELD_INIT_CPUSVN 8 16 = Ok (u64s_le c)"
    "read_field rd TDCS_FIELD_INIT_TEE_TCB_SVN 8 16 = Ok (u64s_le t)"
    "read_field rd TDCS_FIELD_INIT_TEE_MODEL 4 12 = Ok (concat (map (\<lambda>w. take 4 (u64_le w)) m))"
    "read_field rd TDCS_FIELD_SERVTD_INFO_HASH 8 48 = Ok (u64s_le k)"
    "read_field rd TDCS_FIELD_SERVTD_ATTR 8 8 = Ok (u64_le EXPECTED_SERVTD_ATTR)"
    "e = \<lparr> init_servtd_info_hash = u64s_le h, init_attr = u64_le a, se_reserved = replicate 8 0,
              init_cpusvn = u64s_le c, init_tee_tcb_svn = u64s_le t,
              init_tee_model = concat (map (\<lambda>w. take 4 (u64_le w)) m), se_reserved1 = replicate 4 0,
              cur_servtd_info_hash = u64s_le k, cur_servtd_attr = u64_le EXPECTED_SERVTD_ATTR,
              se_reserved2 = replicate 104 0 \<rparr>"
    unfolding read_fields by metis
  then show "read_servtd_ext rd = Ok e" by (simp add: read_servtd_ext_def)
qed

text \<open>The approved hash does not depend on the current binding.\<close>

lemma approved_hash_ignores_current:
  assumes "servtd_ext_typed e" and "length k = 48" and "length a = 8"
  shows "calculate_approved_servtd_ext_hash sha (e\<lparr> cur_servtd_info_hash := k, cur_servtd_attr := a \<rparr>) =
    calculate_approved_servtd_ext_hash sha e"
  using assms by (simp add: calculate_approved_servtd_ext_hash_def servtd_ext_as_bytes_def servtd_ext_typed_def)

lemma chunks_exact8_words: "chunks_exact8 (u64s_le ws) = map u64_le ws"
proof (induction ws)
  case (Cons w ws)
  then show ?case by (subst chunks_exact8.simps) (simp add: u64s_le_def)
qed (subst chunks_exact8.simps, simp add: u64s_le_def)

text \<open>What a write call is documented to do: the field takes the value, under the mask of all ones.\<close>

definition faithful_write ::
    "('s \<Rightarrow> 64 word \<Rightarrow> 64 word option) \<Rightarrow> (64 word \<Rightarrow> 64 word \<Rightarrow> 64 word \<Rightarrow> 's \<Rightarrow> 's option) \<Rightarrow> bool" where
  "faithful_write rd vm_write \<longleftrightarrow>
     (\<forall>f v s. \<exists>s'. vm_write f v TDCS_FIELD_WRITE_MASK s = Some s' \<and> rd s' = (rd s)(f \<mapsto> v))"

lemma small_word_inj: "k < 64 \<Longrightarrow> i < 64 \<Longrightarrow> (word_of_nat k :: 64 word) = word_of_nat i \<longleftrightarrow> k = i"
  by (simp add: word_of_nat_eq_iff take_bit_eq_mod)

lemma write_words_effect:
  assumes "faithful_write rd vm_write" and "i + length ws \<le> 64"
  shows "\<exists>s'. write_words vm_write i (map u64_le ws) s = (Ok (), s') \<and>
    (\<forall>k<i. rd s' (TDCS_FIELD_SERVTD_ACCEPT_SERVTD_EXT_HASH + word_of_nat k) =
       rd s (TDCS_FIELD_SERVTD_ACCEPT_SERVTD_EXT_HASH + word_of_nat k)) \<and>
    field_words (rd s') TDCS_FIELD_SERVTD_ACCEPT_SERVTD_EXT_HASH i (length ws) = Some ws"
  using assms(2)
proof (induction ws arbitrary: i s)
  case (Cons w ws)
  let ?B = TDCS_FIELD_SERVTD_ACCEPT_SERVTD_EXT_HASH
  obtain s1 where s1: "vm_write (?B + word_of_nat i) w TDCS_FIELD_WRITE_MASK s = Some s1"
    "rd s1 = (rd s)(?B + word_of_nat i \<mapsto> w)"
    using assms(1) unfolding faithful_write_def by metis
  obtain s' where s': "write_words vm_write (Suc i) (map u64_le ws) s1 = (Ok (), s')"
    "\<forall>k<Suc i. rd s' (?B + word_of_nat k) = rd s1 (?B + word_of_nat k)"
    "field_words (rd s') ?B (Suc i) (length ws) = Some ws"
    using Cons.IH [of "Suc i" s1] Cons.prems by auto
  have "rd s1 (?B + word_of_nat k) = rd s (?B + word_of_nat k)" if "k < i" for k
    using that Cons.prems s1(2) small_word_inj [of k i] by simp
  with s' s1 show ?case by simp
qed simp

text \<open>With a module whose writes are effective, writing an approved hash of 48 bytes succeeds, and reading the
  six fields back gives exactly those bytes; a hash of another length is refused and nothing is written.\<close>

theorem write_approved_hash_roundtrip:
  assumes "faithful_write rd vm_write"
  shows "\<exists>r s'. write_approved_servtd_ext_hash vm_write hash s = (r, s') \<and>
    (if length hash = 48
     then r = Ok () \<and> read_field (rd s') TDCS_FIELD_SERVTD_ACCEPT_SERVTD_EXT_HASH 8 48 = Ok hash
     else r = Err InvalidParameter \<and> s' = s)"
proof (cases "length hash = 48")
  case True
  define ws where "ws = u64s_of 6 hash"
  have h: "hash = u64s_le ws" and l: "length ws = 6" using True by (simp_all add: ws_def u64s_le_of)
  then obtain s' where s': "write_words vm_write 0 (map u64_le ws) s = (Ok (), s')"
    "field_words (rd s') TDCS_FIELD_SERVTD_ACCEPT_SERVTD_EXT_HASH 0 6 = Some ws"
    using write_words_effect [OF assms, of 0 ws s] by auto
  then have "read_field (rd s') TDCS_FIELD_SERVTD_ACCEPT_SERVTD_EXT_HASH 8 48 = Ok hash"
    by (simp add: read_fields h)
  with s'(1) True show ?thesis
    unfolding h
    by (simp add: write_approved_servtd_ext_hash_def SHA384_DIGEST_SIZE_def l chunks_exact8_words)
qed (simp add: write_approved_servtd_ext_hash_def SHA384_DIGEST_SIZE_def)

theorem write_approved_hash_roundtrip_witness:
  "\<exists>r s'. write_approved_servtd_ext_hash (\<lambda>f v _ s. Some (s(f \<mapsto> v))) (replicate 48 7) Map.empty = (r, s') \<and>
     r = Ok () \<and> read_field s' TDCS_FIELD_SERVTD_ACCEPT_SERVTD_EXT_HASH 8 48 = Ok (replicate 48 7)"
  using write_approved_hash_roundtrip [of "\<lambda>s. s" "\<lambda>f v _ s. Some (s(f \<mapsto> v))" "replicate 48 7" Map.empty]
  by (simp add: faithful_write_def)

end
