(* ===== verification/MigPolicy.thy ===== *)
theory MigPolicy
  imports PolicyV2 Attestation ServtdExt PreSession
begin

text \<open>
  Mutual attestation under the signed policy, from \<open>src/migtd/src/mig_policy.rs\<close> (module \<open>v2\<close>): verifying a
  peer's quote or report, its event log, policy and certificate chains, evaluating the local
  policy against what they say, and binding the initial TD information to the policy signer.
  The quote service, the report instruction and the calendar are parameters.
\<close>

unbundle bit_operations_syntax

section \<open>Model\<close>

text \<open>\<open>TDINFO_STRUCT\<close> of the TDX module interface.\<close>

record td_info =
  ti_attributes :: bytes
  ti_xfam :: bytes
  ti_mrtd :: bytes
  ti_mrconfig_id :: bytes
  ti_mrowner :: bytes
  ti_mrownerconfig :: bytes
  ti_rtmr0 :: bytes
  ti_rtmr1 :: bytes
  ti_rtmr2 :: bytes
  ti_rtmr3 :: bytes
  ti_rest :: bytes

definition td_info_as_bytes :: "td_info \<Rightarrow> bytes" where
  "td_info_as_bytes t =
     ti_attributes t @ ti_xfam t @ ti_mrtd t @ ti_mrconfig_id t @ ti_mrowner t @ ti_mrownerconfig t
     @ ti_rtmr0 t @ ti_rtmr1 t @ ti_rtmr2 t @ ti_rtmr3 t @ ti_rest t"

definition dec_td_info :: "bytes \<Rightarrow> td_info" where
  "dec_td_info bs =
     \<lparr> ti_attributes = slice 0 8 bs, ti_xfam = slice 8 16 bs, ti_mrtd = slice 16 64 bs,
       ti_mrconfig_id = slice 64 112 bs, ti_mrowner = slice 112 160 bs, ti_mrownerconfig = slice 160 208 bs,
       ti_rtmr0 = slice 208 256 bs, ti_rtmr1 = slice 256 304 bs, ti_rtmr2 = slice 304 352 bs,
       ti_rtmr3 = slice 352 400 bs, ti_rest = slice 400 512 bs \<rparr>"

record tdx_report =
  tr_report_mac :: bytes
  tr_tee_tcb_info_hash :: bytes
  tr_tee_info_hash :: bytes
  tr_tee_tcb_info :: bytes
  tr_tee_tcb_svn :: bytes
  tr_td_info :: td_info

record 'h mig_env =
  me_crypto :: crypto_env
  me_json :: json_env
  me_pck :: pck_env
  me_cc :: cc_measurement
  me_bypass :: bool
  me_mock :: bool
  me_emu :: bool
  me_crl_from_pem :: "bytes \<Rightarrow> bytes option"
  me_crl_from_der :: "bytes \<Rightarrow> extension list option option"
  me_u32_from_der :: "bytes \<Rightarrow> 32 word option"
  me_integrity :: "c_collateral \<Rightarrow> bytes \<Rightarrow> bytes \<Rightarrow> int \<times> bytes \<times> 32 word"
  me_verify_report :: "bytes \<Rightarrow> bool"
  me_read_report :: "bytes \<Rightarrow> tdx_report option"
  me_report_bytes :: "tdx_report \<Rightarrow> bytes"
  me_iso8601 :: "int \<Rightarrow> string option"
  me_tdcall_report :: "bytes \<Rightarrow> 'h \<Rightarrow> tdx_report option \<times> 'h"
  me_get_quote :: "bytes \<Rightarrow> ('h, attest_error, bytes) prog"
  me_root_key :: "bytes option"
  me_policy :: "verified_policy option"
  me_policy_issuer_chain :: "bytes option"

definition SERVTD_ATTR_IGNORE_ATTRIBUTES :: "64 word" where "SERVTD_ATTR_IGNORE_ATTRIBUTES = 0x100000000"
definition SERVTD_ATTR_IGNORE_XFAM :: "64 word" where "SERVTD_ATTR_IGNORE_XFAM = 0x200000000"
definition SERVTD_ATTR_IGNORE_MRTD :: "64 word" where "SERVTD_ATTR_IGNORE_MRTD = 0x400000000"
definition SERVTD_ATTR_IGNORE_MRCONFIGID :: "64 word" where "SERVTD_ATTR_IGNORE_MRCONFIGID = 0x800000000"
definition SERVTD_ATTR_IGNORE_MROWNER :: "64 word" where "SERVTD_ATTR_IGNORE_MROWNER = 0x1000000000"
definition SERVTD_ATTR_IGNORE_MROWNERCONFIG :: "64 word" where
  "SERVTD_ATTR_IGNORE_MROWNERCONFIG = 0x2000000000"
definition SERVTD_ATTR_IGNORE_RTMR0 :: "64 word" where "SERVTD_ATTR_IGNORE_RTMR0 = 0x4000000000"
definition SERVTD_ATTR_IGNORE_RTMR1 :: "64 word" where "SERVTD_ATTR_IGNORE_RTMR1 = 0x8000000000"
definition SERVTD_ATTR_IGNORE_RTMR2 :: "64 word" where "SERVTD_ATTR_IGNORE_RTMR2 = 0x10000000000"
definition SERVTD_ATTR_IGNORE_RTMR3 :: "64 word" where "SERVTD_ATTR_IGNORE_RTMR3 = 0x20000000000"

subsection \<open>Start\<close>

text \<open>
  \<open>init_policy\<close> changes the two globals that are set once: the verified policy and the root key of
  quote verification.  A second call keeps what the first has set.
\<close>

definition init_policy ::
    "crypto_env \<Rightarrow> json_env \<Rightarrow> pck_env \<Rightarrow> bytes \<Rightarrow> bytes \<Rightarrow> verified_policy option \<times> bytes option
     \<Rightarrow> (policy_error, string) outcome \<times> verified_policy option \<times> bytes option" where
  "init_policy env json pck policy_json cert_chain g =
     (case g of (policy, root_key) \<Rightarrow>
        (case rbind (deserialize_raw_policy json policy_json) (\<lambda>raw.
              rbind (raw_policy_verify env json raw cert_chain) (\<lambda>vp.
              rbind (map_err (\<lambda>_. InvalidCollateral)
                (pem_cert_to_der pck (str_bytes (cs_root_ca (pd_collaterals (vp_policy_data vp)))))) (\<lambda>der.
                Ok (vp, der)))) of
           Err e \<Rightarrow> (Err e, g)
         | Panic \<Rightarrow> (Panic, g)
         | Ok (vp, der) \<Rightarrow>
             (case set_ca env der root_key of
                (Err _, root_key') \<Rightarrow> (Err InvalidCollateral, policy, root_key')
              | (Panic, root_key') \<Rightarrow> (Panic, policy, root_key')
              | (Ok _, root_key') \<Rightarrow>
                  let p = (case policy of Some p \<Rightarrow> p | None \<Rightarrow> vp) in
                  (Ok (pd_version (vp_policy_data p)), Some p, root_key'))))"

subsection \<open>Evidence\<close>

definition get_rtmrs_from_suppl_data :: "bytes \<Rightarrow> (policy_error, bytes list) outcome" where
  "get_rtmrs_from_suppl_data suppl_data =
     (if length suppl_data < REPORT_DATA_SIZE then Err PolicyInvalidParameter
      else Ok [slice 328 376 suppl_data, slice 376 424 suppl_data, slice 424 472 suppl_data,
               slice 472 520 suppl_data])"

definition get_rtmrs_from_tdreport :: "tdx_report \<Rightarrow> (policy_error, bytes list) outcome" where
  "get_rtmrs_from_tdreport r =
     Ok [ti_rtmr0 (tr_td_info r), ti_rtmr1 (tr_td_info r), ti_rtmr2 (tr_td_info r), ti_rtmr3 (tr_td_info r)]"

definition get_rtmrs_from_tdinfo :: "td_info \<Rightarrow> (policy_error, bytes list) outcome" where
  "get_rtmrs_from_tdinfo t = Ok [ti_rtmr0 t, ti_rtmr1 t, ti_rtmr2 t, ti_rtmr3 t]"

text \<open>\<open>CString::new\<close> refuses a string with a zero byte.\<close>

definition cstring :: "string \<Rightarrow> (policy_error, bytes) outcome" where
  "cstring s = (let bs = str_bytes s in if 0 \<in> set bs then Err InvalidCollateral else Ok bs)"

definition convert_collateral_to_cstring :: "collateral \<Rightarrow> (policy_error, c_collateral) outcome" where
  "convert_collateral_to_cstring c =
     rbind (cstring (co_pck_crl_issuer_chain c)) (\<lambda>pck_crl_issuer_chain.
     rbind (cstring (co_root_ca_crl c)) (\<lambda>root_ca_crl.
     rbind (cstring (co_pck_crl c)) (\<lambda>pck_crl.
     rbind (cstring (co_tcb_info_issuer_chain c)) (\<lambda>tcb_info_issuer_chain.
     rbind (cstring (co_tcb_info c)) (\<lambda>tcb_info.
     rbind (cstring (co_qe_identity_issuer_chain c)) (\<lambda>qe_identity_issuer_chain.
     rbind (cstring (co_qe_identity c)) (\<lambda>qe_identity.
       Ok \<lparr> cc_major_version = co_major_version c, cc_minor_version = co_minor_version c,
            cc_tee_type = co_tee_type c, cc_pck_crl_issuer_chain = pck_crl_issuer_chain,
            cc_root_ca_crl = root_ca_crl, cc_pck_crl = pck_crl,
            cc_tcb_info_issuer_chain = tcb_info_issuer_chain, cc_tcb_info = tcb_info,
            cc_qe_identity_issuer_chain = qe_identity_issuer_chain, cc_qe_identity = qe_identity \<rparr>)))))))"

definition verify_quote :: "'h mig_env \<Rightarrow> bytes \<Rightarrow> collaterals \<Rightarrow> (policy_error, bytes \<times> bytes) outcome" where
  "verify_quote env quote cs =
     rbind (get_fmspc_from_quote (me_crypto env) (me_pck env) quote) (\<lambda>f.
     rbind (get_collateral_with_fmspc f cs) (\<lambda>c.
     rbind (convert_collateral_to_cstring c) (\<lambda>cc.
     rbind (map_err (\<lambda>_. QuoteVerification)
       (verify_quote_with_collaterals (me_integrity env) (me_root_key env) quote cc)) (\<lambda>suppl_data.
       Ok (f, suppl_data)))))"

definition verify_tdreport :: "'h mig_env \<Rightarrow> bytes \<Rightarrow> (policy_error, tdx_report) outcome" where
  "verify_tdreport env tdreport =
     rbind (ok_or InvalidTdReport (me_read_report env tdreport)) (\<lambda>r.
     rbind (ensure (me_verify_report env (tr_report_mac r)) TdReportVerification) (\<lambda>_.
     rbind (map_err (\<lambda>_. HashCalculation)
       (digest_sha384 (sha384 (me_crypto env)) (td_info_as_bytes (tr_td_info r)))) (\<lambda>tdinfo_hash.
     rbind (map_err (\<lambda>_. HashCalculation)
       (digest_sha384 (sha384 (me_crypto env)) (tr_tee_tcb_info r))) (\<lambda>tee_tcb_info_hash.
       if \<not> (tr_tee_tcb_info_hash r = tee_tcb_info_hash \<and> tr_tee_info_hash r \<noteq> replicate 48 0 \<and>
              tr_tee_info_hash r = tdinfo_hash)
       then Err InvalidTdReport
       else Ok r))))"

definition slice_to_string_null_terminated :: "bytes \<Rightarrow> (policy_error, string) outcome" where
  "slice_to_string_null_terminated bs =
     ok_or PolicyInvalidParameter (from_utf8 (takeWhile (\<lambda>b. b \<noteq> 0) bs))"

definition unix_to_iso8601 :: "'h mig_env \<Rightarrow> 64 word \<Rightarrow> (policy_error, string) outcome" where
  "unix_to_iso8601 env t = ok_or PolicyInvalidParameter (me_iso8601 env (sint t))"

definition get_tcb_date_and_status_from_suppl_data ::
    "'h mig_env \<Rightarrow> bytes \<Rightarrow> (policy_error, string \<times> string) outcome" where
  "get_tcb_date_and_status_from_suppl_data env suppl_data =
     (if length suppl_data < REPORT_DATA_SIZE then Err PolicyInvalidParameter
      else
        let date = u64_of (slice (fst R_TCB_DATE) (snd R_TCB_DATE) suppl_data) in
        rbind (slice_to_string_null_terminated (slice (fst R_TCB_STATUS) (snd R_TCB_STATUS) suppl_data)) (\<lambda>status.
        rbind (unix_to_iso8601 env date) (\<lambda>d. Ok (d, status))))"

definition env_crl_number :: "'h mig_env \<Rightarrow> string \<Rightarrow> (policy_error, 32 word) outcome" where
  "env_crl_number env crl =
     map_err (\<lambda>_. InvalidCollateral)
       (get_crl_number (me_crl_from_pem env) (me_crl_from_der env) (me_u32_from_der env) (str_bytes crl))"

definition setup_evaluation_data ::
    "'h mig_env \<Rightarrow> bytes \<Rightarrow> bytes \<Rightarrow> verified_policy \<Rightarrow> collaterals
     \<Rightarrow> (policy_error, policy_evaluation_info) outcome" where
  "setup_evaluation_data env f suppl_data policy cs =
     rbind (get_tcb_date_and_status_from_suppl_data env suppl_data) (\<lambda>(date, status).
     rbind (get_collateral_with_fmspc f cs) (\<lambda>c.
     rbind (get_tcb_evaluation_number_from_collateral (me_json env) c) (\<lambda>number.
     rbind (report_new suppl_data) (\<lambda>report_value.
     (let migtd_svn = get_engine_svn_by_report (servtd_tcb_mapping policy) report_value;
          migtd_tcb = Option.bind migtd_svn (get_tcb_level_by_svn (servtd_identity policy)) in
     rbind (env_crl_number env (cs_pck_crl cs)) (\<lambda>pck_num.
     rbind (env_crl_number env (cs_root_ca_crl cs)) (\<lambda>root_num.
       Ok \<lparr> tee_tcb_svn = None, tcb_date = Some date, tcb_status = Some status,
            tcb_evaluation_number = Some number, fmspc = Some f, migtd_isvsvn = migtd_svn,
            migtd_tcb_status = map_option level_tcb_status migtd_tcb,
            migtd_tcb_date = map_option level_tcb_date migtd_tcb,
            pck_crl_num = Some pck_num, root_ca_crl_num = Some root_num \<rparr>)))))))"

definition setup_evaluation_data_with_tdreport ::
    "tdx_report \<Rightarrow> verified_policy \<Rightarrow> (policy_error, policy_evaluation_info) outcome" where
  "setup_evaluation_data_with_tdreport r policy =
     (let migtd_svn = get_engine_svn_by_measurements (servtd_tcb_mapping policy)
            (new_from_bytes (ti_mrtd (tr_td_info r)) (ti_rtmr0 (tr_td_info r)) (ti_rtmr1 (tr_td_info r)) None None);
          migtd_tcb = Option.bind migtd_svn (get_tcb_level_by_svn (servtd_identity policy)) in
      Ok \<lparr> tee_tcb_svn = Some (tr_tee_tcb_svn r), tcb_date = None, tcb_status = None,
           tcb_evaluation_number = None, fmspc = None, migtd_isvsvn = migtd_svn,
           migtd_tcb_status = map_option level_tcb_status migtd_tcb,
           migtd_tcb_date = map_option level_tcb_date migtd_tcb,
           pck_crl_num = None, root_ca_crl_num = None \<rparr>)"

definition validate_chain_err ::
    "'h mig_env \<Rightarrow> bytes \<Rightarrow> bytes \<Rightarrow> (policy_error, unit) outcome" where
  "validate_chain_err env local peer =
     map_err (\<lambda>_. PolicyPeerCertChainValidation) (validate_peer_cert_chain (me_crypto env) local peer)"

definition verify_policy_and_event_log ::
    "'h mig_env \<Rightarrow> bytes \<Rightarrow> bytes \<Rightarrow> bytes \<Rightarrow> bytes list \<Rightarrow> (policy_error, verified_policy) outcome" where
  "verify_policy_and_event_log env event_log mig_policy issuer_chain rtmrs =
     rbind (deserialize_raw_policy (me_json env) mig_policy) (\<lambda>unverified_policy.
     rbind (map_err (\<lambda>_. InvalidEventLog)
       (verify_event_log (me_bypass env) (me_cc env) (sha384 (me_crypto env)) event_log rtmrs)) (\<lambda>_.
     rbind (raw_policy_verify (me_crypto env) (me_json env) unverified_policy issuer_chain) (\<lambda>vp.
     rbind (ok_or PolicyInvalidParameter (me_policy env)) (\<lambda>local_policy.
     rbind (ok_or PolicyInvalidParameter (me_policy_issuer_chain env)) (\<lambda>local_chain.
     rbind (validate_chain_err env local_chain (str_bytes (policy_issuer_chain vp))) (\<lambda>_.
     rbind (validate_chain_err env (str_bytes (servtd_identity_issuer_chain local_policy))
       (str_bytes (servtd_identity_issuer_chain vp))) (\<lambda>_.
     rbind (validate_chain_err env (str_bytes (servtd_tcb_mapping_issuer_chain local_policy))
       (str_bytes (servtd_tcb_mapping_issuer_chain vp))) (\<lambda>_.
     rbind (map_err (\<lambda>_. InvalidEventLog) (parse_events (me_cc env) event_log)) (\<lambda>events.
     rbind (check_policy_integrity (sha384 (me_crypto env)) mig_policy events) (\<lambda>_.
       Ok vp))))))))))"

subsection \<open>Authenticating a peer\<close>

definition get_local_tcb_evaluation_info ::
    "'h mig_env \<Rightarrow> ('h retry_world, policy_error, policy_evaluation_info) prog" where
  "get_local_tcb_evaluation_info env =
     pbind (plift (ok_or PolicyInvalidParameter (me_policy env))) (\<lambda>policy.
     pbind (pmap_err (\<lambda>err. case err of ReportGenerationFailed \<Rightarrow> GetTdxReport | _ \<Rightarrow> QuoteGeneration)
       (get_quote_with_retry (me_emu env)
         (\<lambda>h. apfst (map_option (me_report_bytes env)) (me_tdcall_report env (replicate 64 0) h))
         (me_get_quote env))) (\<lambda>(quote, _).
     plift
       (rbind (verify_quote env quote (pd_collaterals (vp_policy_data policy))) (\<lambda>(f, suppl_data).
          setup_evaluation_data env f suppl_data policy (pd_collaterals (vp_policy_data policy))))))"

definition authenticate_remote_common ::
    "'h mig_env \<Rightarrow> bytes \<Rightarrow> bytes \<Rightarrow> bytes \<Rightarrow> bytes
     \<Rightarrow> (policy_error, policy_evaluation_info \<times> verified_policy \<times> bytes) outcome" where
  "authenticate_remote_common env quote event_log mig_policy issuer_chain =
     rbind (ok_or PolicyInvalidParameter (me_policy env)) (\<lambda>policy.
     rbind (map_err (\<lambda>_. QuoteVerification)
       (verify_quote env quote (pd_collaterals (vp_policy_data policy)))) (\<lambda>(f, suppl_data).
     rbind (get_rtmrs_from_suppl_data suppl_data) (\<lambda>rtmrs.
     rbind (verify_policy_and_event_log env event_log mig_policy issuer_chain rtmrs) (\<lambda>vp.
     rbind (setup_evaluation_data env f suppl_data vp (pd_collaterals (vp_policy_data policy))) (\<lambda>evaluation_data.
       Ok (evaluation_data, vp, suppl_data))))))"

definition authenticate_rebinding_common ::
    "'h mig_env \<Rightarrow> bytes \<Rightarrow> bytes \<Rightarrow> bytes \<Rightarrow> bytes
     \<Rightarrow> (policy_error, policy_evaluation_info \<times> verified_policy \<times> tdx_report) outcome" where
  "authenticate_rebinding_common env tdreport event_log mig_policy issuer_chain =
     rbind (verify_tdreport env tdreport) (\<lambda>r.
     rbind (get_rtmrs_from_tdreport r) (\<lambda>rtmrs.
     rbind (verify_policy_and_event_log env event_log mig_policy issuer_chain rtmrs) (\<lambda>vp.
     rbind (setup_evaluation_data_with_tdreport r vp) (\<lambda>evaluation_data.
       Ok (evaluation_data, vp, r)))))"

definition authenticate_migration_dest ::
    "'h mig_env \<Rightarrow> bytes \<Rightarrow> bytes \<Rightarrow> bytes \<Rightarrow> bytes \<Rightarrow> ('h retry_world, policy_error, bytes) prog" where
  "authenticate_migration_dest env quote_dst event_log_dst mig_policy_dst issuer_chain =
     pbind (plift (authenticate_remote_common env quote_dst event_log_dst mig_policy_dst issuer_chain))
       (\<lambda>(evaluation_data_dst, verified_policy_dst, suppl_data).
     pbind (get_local_tcb_evaluation_info env) (\<lambda>relative_reference.
     plift
       (rbind (ok_or PolicyInvalidParameter (me_policy env)) (\<lambda>policy.
        rbind (evaluate_policy_common (vp_policy_data policy) evaluation_data_dst relative_reference False) (\<lambda>_.
        rbind (evaluate_policy_forward (vp_policy_data policy) evaluation_data_dst relative_reference False) (\<lambda>_.
        rbind (evaluate_against_policy (vp_policy_data verified_policy_dst) (vp_policy_data policy)) (\<lambda>_.
          Ok suppl_data)))))))"

definition authenticate_migration_source ::
    "'h mig_env \<Rightarrow> bytes \<Rightarrow> bytes \<Rightarrow> bytes \<Rightarrow> bytes \<Rightarrow> ('h retry_world, policy_error, bytes) prog" where
  "authenticate_migration_source env quote_src event_log_src mig_policy_src issuer_chain =
     pbind (plift (authenticate_remote_common env quote_src event_log_src mig_policy_src issuer_chain))
       (\<lambda>(evaluation_data_src, _, suppl_data).
     pbind (get_local_tcb_evaluation_info env) (\<lambda>relative_reference.
     plift
       (rbind (ok_or PolicyInvalidParameter (me_policy env)) (\<lambda>policy.
        rbind (evaluate_policy_common (vp_policy_data policy) evaluation_data_src relative_reference False) (\<lambda>_.
        rbind (evaluate_policy_backward (vp_policy_data policy) evaluation_data_src relative_reference False) (\<lambda>_.
          Ok suppl_data))))))"

definition authenticate_remote ::
    "'h mig_env \<Rightarrow> bool \<Rightarrow> bytes \<Rightarrow> bytes \<Rightarrow> bytes \<Rightarrow> ('h retry_world, policy_error, bytes) prog" where
  "authenticate_remote env is_src quote_peer policy_peer event_log_peer =
     pbind (plift (map_err (\<lambda>_. PolicyInvalidParameter) (decode_peer_data policy_peer)))
       (\<lambda>(policy_peer, peer_issuer_chain).
       if is_src
       then authenticate_migration_dest env quote_peer event_log_peer policy_peer peer_issuer_chain
       else authenticate_migration_source env quote_peer event_log_peer policy_peer peer_issuer_chain)"

definition authenticate_rebinding_new ::
    "'h mig_env \<Rightarrow> bytes \<Rightarrow> bytes \<Rightarrow> bytes \<Rightarrow> ('h retry_world, policy_error, bytes) prog" where
  "authenticate_rebinding_new env tdreport_dst event_log_dst mig_policy_dst =
     pbind (plift (map_err (\<lambda>_. PolicyInvalidParameter) (decode_peer_data mig_policy_dst)))
       (\<lambda>(mig_policy_dst, peer_issuer_chain).
     pbind (plift (authenticate_rebinding_common env tdreport_dst event_log_dst mig_policy_dst peer_issuer_chain))
       (\<lambda>(evaluation_data_dst, verified_policy_dst, r).
     pbind (get_local_tcb_evaluation_info env) (\<lambda>relative_reference.
     plift
       (rbind (ok_or PolicyInvalidParameter (me_policy env)) (\<lambda>policy.
        rbind (evaluate_policy_common (vp_policy_data policy) evaluation_data_dst relative_reference True) (\<lambda>_.
        rbind (evaluate_policy_forward (vp_policy_data policy) evaluation_data_dst relative_reference True) (\<lambda>_.
        rbind (evaluate_against_policy (vp_policy_data verified_policy_dst) (vp_policy_data policy)) (\<lambda>_.
          Ok (me_report_bytes env r)))))))))"

subsection \<open>Initial TD information\<close>

definition zero_if :: "bool \<Rightarrow> bytes \<Rightarrow> bytes" where
  "zero_if b bs = (if b then replicate (length bs) 0 else bs)"

definition mask_td_info :: "64 word \<Rightarrow> td_info \<Rightarrow> td_info" where
  "mask_td_info attr t =
     \<lparr> ti_attributes = zero_if (attr AND SERVTD_ATTR_IGNORE_ATTRIBUTES \<noteq> 0) (ti_attributes t),
       ti_xfam = zero_if (attr AND SERVTD_ATTR_IGNORE_XFAM \<noteq> 0) (ti_xfam t),
       ti_mrtd = zero_if (attr AND SERVTD_ATTR_IGNORE_MRTD \<noteq> 0) (ti_mrtd t),
       ti_mrconfig_id = zero_if (attr AND SERVTD_ATTR_IGNORE_MRCONFIGID \<noteq> 0) (ti_mrconfig_id t),
       ti_mrowner = zero_if (attr AND SERVTD_ATTR_IGNORE_MROWNER \<noteq> 0) (ti_mrowner t),
       ti_mrownerconfig = zero_if (attr AND SERVTD_ATTR_IGNORE_MROWNERCONFIG \<noteq> 0) (ti_mrownerconfig t),
       ti_rtmr0 = zero_if (attr AND SERVTD_ATTR_IGNORE_RTMR0 \<noteq> 0) (ti_rtmr0 t),
       ti_rtmr1 = zero_if (attr AND SERVTD_ATTR_IGNORE_RTMR1 \<noteq> 0) (ti_rtmr1 t),
       ti_rtmr2 = zero_if (attr AND SERVTD_ATTR_IGNORE_RTMR2 \<noteq> 0) (ti_rtmr2 t),
       ti_rtmr3 = zero_if (attr AND SERVTD_ATTR_IGNORE_RTMR3 \<noteq> 0) (ti_rtmr3 t),
       ti_rest = ti_rest t \<rparr>"

definition verify_servtd_info_hash ::
    "(bytes \<Rightarrow> bytes) \<Rightarrow> bytes \<Rightarrow> 64 word \<Rightarrow> bytes \<Rightarrow> (policy_error, td_info) outcome" where
  "verify_servtd_info_hash sha tdinfo_bytes servtd_attr info_hash =
     (if length tdinfo_bytes < TD_INFO_SIZE then Err PolicyInvalidParameter
      else
        let t = mask_td_info servtd_attr (dec_td_info (take TD_INFO_SIZE tdinfo_bytes)) in
        rbind (map_err (\<lambda>_. HashCalculation) (digest_sha384 sha (td_info_as_bytes t))) (\<lambda>hash.
          if hash \<noteq> info_hash then Err InvalidTdReport else Ok t))"

definition verify_init_tdinfo ::
    "(bytes \<Rightarrow> bytes) \<Rightarrow> bytes \<Rightarrow> servtd_ext \<Rightarrow> (policy_error, td_info) outcome" where
  "verify_init_tdinfo sha init_tdinfo ext =
     verify_servtd_info_hash sha init_tdinfo (u64_of (init_attr ext)) (init_servtd_info_hash ext)"

definition verify_own_tdinfo ::
    "'h mig_env \<Rightarrow> 'h \<Rightarrow> (policy_error, unit) outcome \<times> 'h" where
  "verify_own_tdinfo env h =
     (case me_policy env of
        None \<Rightarrow> (Err PolicyInvalidParameter, h)
      | Some policy \<Rightarrow>
          (case me_tdcall_report env (replicate 64 0) h of
             (None, h') \<Rightarrow> (Err GetTdxReport, h')
           | (Some r, h') \<Rightarrow>
               (let expected = overwrite 0 (u32_le (policy_svn (vp_policy_data policy)))
                      (replicate SHA384_DIGEST_SIZE 0) in
                if ti_mrownerconfig (tr_td_info r) \<noteq> expected then Err SvnMismatch
                else
                  rbind (ok_or PolicyInvalidParameter (me_policy_issuer_chain env)) (\<lambda>chain.
                  rbind (map_err (\<lambda>_. InvalidCollateral) (get_policy_signer_key_hash (me_crypto env) chain))
                    (\<lambda>key_hash.
                    if ti_mrowner (tr_td_info r) \<noteq> key_hash then Err PolicyHashMismatch else Ok ())), h')))"

definition verify_init_migtd_data_policy_binding ::
    "'h mig_env \<Rightarrow> bytes \<Rightarrow> (policy_error, unit) outcome" where
  "verify_init_migtd_data_policy_binding env init_info =
     rbind (ok_or PolicyInvalidParameter (me_policy env)) (\<lambda>policy.
     rbind (ok_or PolicyInvalidParameter (me_policy_issuer_chain env)) (\<lambda>chain.
     rbind (map_err (\<lambda>_. InvalidCollateral) (get_policy_signer_key_hash (me_crypto env) chain)) (\<lambda>key_hash.
       if td_info_mrowner init_info \<noteq> key_hash then Err PolicyHashMismatch
       else
         let config = td_info_mrownerconfig init_info in
         rbind (index_range 0 4 config) (\<lambda>svn_bytes.
         rbind (index_range 4 (length config) config) (\<lambda>rest.
           if rest \<noteq> replicate (SHA384_DIGEST_SIZE - 4) 0 then Err PolicyInvalidParameter
           else if u32_of svn_bytes > policy_svn (vp_policy_data policy) then Err SvnMismatch
           else Ok ())))))"

definition verify_peer_init_tdinfo_against_owner ::
    "bytes \<Rightarrow> bytes \<Rightarrow> bytes \<Rightarrow> (policy_error, unit) outcome" where
  "verify_peer_init_tdinfo_against_owner peer_init_td_info peer_mrowner peer_mrownerconfig =
     (if length peer_init_td_info \<noteq> TD_INFO_SIZE \<or> length peer_mrowner \<noteq> SHA384_DIGEST_SIZE
         \<or> length peer_mrownerconfig \<noteq> SHA384_DIGEST_SIZE
      then Err PolicyInvalidParameter
      else
        let init_mrowner = td_info_mrowner peer_init_td_info;
            init_mrownerconfig = td_info_mrownerconfig peer_init_td_info in
        if init_mrowner \<noteq> peer_mrowner then Err PolicyHashMismatch
        else
          rbind (index_range 4 (length init_mrownerconfig) init_mrownerconfig) (\<lambda>init_rest.
          if init_rest \<noteq> replicate (SHA384_DIGEST_SIZE - 4) 0 then Err PolicyInvalidParameter
          else
            rbind (index_range 4 (length peer_mrownerconfig) peer_mrownerconfig) (\<lambda>peer_rest.
            if peer_rest \<noteq> replicate (SHA384_DIGEST_SIZE - 4) 0 then Err PolicyInvalidParameter
            else
              rbind (index_range 0 4 init_mrownerconfig) (\<lambda>init_svn.
              rbind (index_range 0 4 peer_mrownerconfig) (\<lambda>peer_svn.
                if u32_of init_svn > u32_of peer_svn then Err SvnMismatch else Ok ())))))"

definition verify_peer_init_tdinfo_against_suppl_data ::
    "bytes \<Rightarrow> bytes \<Rightarrow> (policy_error, unit) outcome" where
  "verify_peer_init_tdinfo_against_suppl_data peer_init_td_info suppl_data =
     (if length suppl_data < REPORT_DATA_SIZE then Err PolicyInvalidParameter
      else verify_peer_init_tdinfo_against_owner peer_init_td_info (slice 232 280 suppl_data)
             (slice 280 328 suppl_data))"

definition authenticate_rebinding_old ::
    "'h mig_env \<Rightarrow> bytes \<Rightarrow> bytes \<Rightarrow> bytes \<Rightarrow> bytes \<Rightarrow> bytes \<Rightarrow> ('h retry_world, policy_error, bytes) prog" where
  "authenticate_rebinding_old env tdreport_src event_log_src mig_policy_src init_tdinfo servtd_ext_src =
     pbind (plift (map_err (\<lambda>_. PolicyInvalidParameter) (decode_peer_data mig_policy_src)))
       (\<lambda>(mig_policy_src, peer_issuer_chain).
     pbind (plift
       (rbind (authenticate_rebinding_common env tdreport_src event_log_src mig_policy_src peer_issuer_chain)
          (\<lambda>(evaluation_data_src, _, r).
        rbind (ok_or PolicyInvalidParameter (me_policy env)) (\<lambda>policy.
        rbind (verify_peer_init_tdinfo_against_owner init_tdinfo (ti_mrowner (tr_td_info r))
          (ti_mrownerconfig (tr_td_info r))) (\<lambda>_.
        rbind (ok_or PolicyInvalidParameter (servtd_ext_read_from_bytes servtd_ext_src)) (\<lambda>ext.
        rbind (verify_init_tdinfo (sha384 (me_crypto env)) init_tdinfo ext) (\<lambda>init_td_info.
        rbind (ok_or SvnMismatch (get_engine_svn_by_measurements (servtd_tcb_mapping policy)
          (new_from_bytes (ti_mrtd init_td_info) (ti_rtmr0 init_td_info) (ti_rtmr1 init_td_info) None None)))
          (\<lambda>_. Ok (evaluation_data_src, policy, r)))))))))
       (\<lambda>(evaluation_data_src, policy, r).
     pbind (get_local_tcb_evaluation_info env) (\<lambda>relative_reference.
     plift
       (rbind (evaluate_policy_backward (vp_policy_data policy) evaluation_data_src relative_reference True) (\<lambda>_.
          Ok (me_report_bytes env r))))))"

definition authenticate_migration_source_with_init_tdinfo ::
    "'h mig_env \<Rightarrow> bytes \<Rightarrow> bytes \<Rightarrow> bytes \<Rightarrow> bytes \<Rightarrow> bytes \<Rightarrow> ('h retry_world, policy_error, bytes) prog" where
  "authenticate_migration_source_with_init_tdinfo env quote_src peer_data event_log_src init_tdinfo servtd_ext_src =
     pbind (plift (map_err (\<lambda>_. PolicyInvalidParameter) (decode_peer_data peer_data)))
       (\<lambda>(mig_policy_src, peer_issuer_chain).
     pbind (plift (authenticate_remote_common env quote_src event_log_src mig_policy_src peer_issuer_chain))
       (\<lambda>(evaluation_data_src, _, suppl_data).
     pbind (get_local_tcb_evaluation_info env) (\<lambda>relative_reference.
     plift
       (rbind (ok_or PolicyInvalidParameter (me_policy env)) (\<lambda>policy.
        rbind (evaluate_policy_common (vp_policy_data policy) evaluation_data_src relative_reference False) (\<lambda>_.
        rbind (evaluate_policy_backward (vp_policy_data policy) evaluation_data_src relative_reference False) (\<lambda>_.
        if me_mock env then Ok suppl_data
        else
          rbind (verify_peer_init_tdinfo_against_suppl_data init_tdinfo suppl_data) (\<lambda>_.
          rbind (ok_or PolicyInvalidParameter (servtd_ext_read_from_bytes servtd_ext_src)) (\<lambda>ext.
          rbind (verify_init_tdinfo (sha384 (me_crypto env)) init_tdinfo ext) (\<lambda>init_td_info.
          rbind (ok_or SvnMismatch (get_engine_svn_by_measurements (servtd_tcb_mapping policy)
            (new_from_bytes (ti_mrtd init_td_info) (ti_rtmr0 init_td_info) (ti_rtmr1 init_td_info) None None)))
            (\<lambda>_. Ok suppl_data)))))))))))"

section \<open>Policy and event log of a peer\<close>

lemma digest_sha384_Ok [outcome_simps]:
  "digest_sha384 sha data = Ok h \<longleftrightarrow> length (sha data) = 48 \<and> h = sha data"
  by (simp add: digest_sha384_def SHA384_DIGEST_SIZE_def if_Ok_iff eq_commute [of h])

lemma check_policy_integrity_Ok [outcome_simps]:
  "check_policy_integrity sha policy events = Ok () \<longleftrightarrow>
     (\<exists>ev. events MigTdPolicy = Some ev \<and> length (sha policy) = 48 \<and> digest (ev_header ev) = sha policy)"
  by (cases "events MigTdPolicy")
    (simp_all add: check_policy_integrity_def verify_event_hash_def outcome_simps if_Ok_iff eq_commute [of "sha policy"])

lemma validate_chain_err_Ok [outcome_simps]:
  "validate_chain_err env l p = Ok () \<longleftrightarrow> validate_peer_cert_chain (me_crypto env) l p = Ok ()"
  by (simp add: validate_chain_err_def outcome_simps)

lemma deserialize_Ok [outcome_simps]: "deserialize_raw_policy json b = Ok raw \<longleftrightarrow> json_raw_policy json b = Some raw"
  by (simp add: deserialize_raw_policy_def outcome_simps)


section \<open>Migration\<close>

definition opt_block_satisfied ::
    "policy_types list option \<Rightarrow> policy_evaluation_info \<Rightarrow> policy_evaluation_info \<Rightarrow> bool \<Rightarrow> bool" where
  "opt_block_satisfied po v r skip \<longleftrightarrow> (case po of None \<Rightarrow> True | Some ts \<Rightarrow> block_satisfied skip v r ts)"

lemma evaluate_blocks_Ok [outcome_simps]:
  "evaluate_policy_common d v r skip = Ok () \<longleftrightarrow> opt_block_satisfied (common_policy d) v r skip"
  "evaluate_policy_forward d v r skip = Ok () \<longleftrightarrow> opt_block_satisfied (forward_policy d) v r skip"
  "evaluate_policy_backward d v r skip = Ok () \<longleftrightarrow> opt_block_satisfied (backward_policy d) v r skip"
  by (simp_all add: evaluate_policy_common_def evaluate_policy_forward_def evaluate_policy_backward_def
      evaluate_opt_block_def opt_block_satisfied_def outcome_simps split: option.split)

lemma evaluate_against_Ok [outcome_simps]:
  "evaluate_against_policy a b = Ok () \<longleftrightarrow> policy_svn b \<le> policy_svn a"
  by (auto simp: evaluate_against_policy_def)

lemma plift_eq [outcome_simps]: "plift m s = Some (Ok y, t) \<longleftrightarrow> m = Ok y \<and> t = s"
  by (auto simp: plift_def)

lemma get_rtmrs_Ok [outcome_simps]:
  "get_rtmrs_from_suppl_data s = Ok regs \<longleftrightarrow> 822 \<le> length s \<and>
     regs = [slice 328 376 s, slice 376 424 s, slice 424 472 s, slice 472 520 s]"
  by (auto simp: get_rtmrs_from_suppl_data_def REPORT_DATA_SIZE_def)

text \<open>What is established of a peer from its quote: the quote verifies with the local collaterals, the policy
  and the log agree with the registers in it, and the evaluation data is derived from it.\<close>

definition quoted_peer ::
    "'h mig_env \<Rightarrow> verified_policy \<Rightarrow> bytes \<Rightarrow> bytes \<Rightarrow> bytes \<Rightarrow> bytes
     \<Rightarrow> policy_evaluation_info \<Rightarrow> verified_policy \<Rightarrow> bytes \<Rightarrow> bool" where
  "quoted_peer env local_policy quote log policy chain v vp suppl \<longleftrightarrow>
     (\<exists>f. verify_quote env quote (pd_collaterals (vp_policy_data local_policy)) = Ok (f, suppl) \<and>
        822 \<le> length suppl \<and>
        verify_policy_and_event_log env log policy chain
          [slice 328 376 suppl, slice 376 424 suppl, slice 424 472 suppl, slice 472 520 suppl] = Ok vp \<and>
        setup_evaluation_data env f suppl vp (pd_collaterals (vp_policy_data local_policy)) = Ok v)"

lemma authenticate_remote_common_Ok [outcome_simps]:
  "authenticate_remote_common env quote log policy chain = Ok (v, vp, suppl) \<longleftrightarrow>
     (\<exists>lp. me_policy env = Some lp \<and> quoted_peer env lp quote log policy chain v vp suppl)"
  by (auto simp: authenticate_remote_common_def quoted_peer_def outcome_simps)

lemma authenticate_migration_dest_Ok:
  "authenticate_migration_dest env quote log policy chain w = Some (Ok suppl, w') \<longleftrightarrow>
     (\<exists>lp v vp rel. me_policy env = Some lp \<and> quoted_peer env lp quote log policy chain v vp suppl \<and>
        get_local_tcb_evaluation_info env w = Some (Ok rel, w') \<and>
        opt_block_satisfied (common_policy (vp_policy_data lp)) v rel False \<and>
        opt_block_satisfied (forward_policy (vp_policy_data lp)) v rel False \<and>
        policy_svn (vp_policy_data lp) \<le> policy_svn (vp_policy_data vp))"
  by (simp add: authenticate_migration_dest_def outcome_simps split_paired_Ex; rule iffI; elim exE conjE;
      simp; intro exI conjI; assumption)

lemma authenticate_migration_source_Ok:
  "authenticate_migration_source env quote log policy chain w = Some (Ok suppl, w') \<longleftrightarrow>
     (\<exists>lp v vp rel. me_policy env = Some lp \<and> quoted_peer env lp quote log policy chain v vp suppl \<and>
        get_local_tcb_evaluation_info env w = Some (Ok rel, w') \<and>
        opt_block_satisfied (common_policy (vp_policy_data lp)) v rel False \<and>
        opt_block_satisfied (backward_policy (vp_policy_data lp)) v rel False)"
  by (simp add: authenticate_migration_source_def outcome_simps split_paired_Ex; rule iffI; elim exE conjE;
      simp; intro exI conjI; assumption)

text \<open>C1: a migration peer is accepted exactly when its blob decodes to a policy and a chain, its quote, log and
  policy hold together, a fresh local quote gives the reference values, and the local policy's common
  part and the part for the direction at hand are satisfied; a source accepts a destination only if
  the destination's policy is at least as new as its own.\<close>

theorem authenticate_remote_exact:
  "authenticate_remote env is_src quote peer_data log w = Some (Ok suppl, w') \<longleftrightarrow>
     (\<exists>policy chain lp v vp rel.
        encode_peer_data policy chain = Some peer_data \<and> me_policy env = Some lp \<and>
        quoted_peer env lp quote log policy chain v vp suppl \<and>
        get_local_tcb_evaluation_info env w = Some (Ok rel, w') \<and>
        opt_block_satisfied (common_policy (vp_policy_data lp)) v rel False \<and>
        (if is_src
         then opt_block_satisfied (forward_policy (vp_policy_data lp)) v rel False \<and>
              policy_svn (vp_policy_data lp) \<le> policy_svn (vp_policy_data vp)
         else opt_block_satisfied (backward_policy (vp_policy_data lp)) v rel False))"
  by (cases is_src)
    (simp_all add: authenticate_remote_def outcome_simps split_paired_Ex decode_peer_data_iff
      authenticate_migration_dest_Ok authenticate_migration_source_Ok)

section \<open>Initial TD information\<close>

definition td_info_typed :: "td_info \<Rightarrow> bool" where
  "td_info_typed t \<longleftrightarrow> length (ti_attributes t) = 8 \<and> length (ti_xfam t) = 8 \<and> length (ti_mrtd t) = 48 \<and>
     length (ti_mrconfig_id t) = 48 \<and> length (ti_mrowner t) = 48 \<and> length (ti_mrownerconfig t) = 48 \<and>
     length (ti_rtmr0 t) = 48 \<and> length (ti_rtmr1 t) = 48 \<and> length (ti_rtmr2 t) = 48 \<and>
     length (ti_rtmr3 t) = 48 \<and> length (ti_rest t) = 112"

interpretation td_info_struct: wire_struct TD_INFO_SIZE td_info_as_bytes dec_td_info td_info_typed
proof (unfold_locales, goal_cases)
  case (2 x)
  then show ?case by (cases x) (simp add: td_info_typed_def td_info_as_bytes_def dec_td_info_def slice_def)
next
  case (4 bs)
  then show ?case by (simp add: td_info_as_bytes_def dec_td_info_def layout_simps TD_INFO_SIZE_def)
qed (simp_all add: td_info_typed_def td_info_as_bytes_def dec_td_info_def TD_INFO_SIZE_def)

lemma length_zero_if [simp]: "length (zero_if b bs) = length bs"
  by (simp add: zero_if_def)

lemma mask_td_info_typed: "td_info_typed t \<Longrightarrow> td_info_typed (mask_td_info attr t)"
  by (simp add: td_info_typed_def mask_td_info_def)

text \<open>The bits of a masked field are gone, the others are kept; masking twice changes nothing more.\<close>

lemma mask_td_info_idem: "mask_td_info attr (mask_td_info attr t) = mask_td_info attr t"
  by (simp add: mask_td_info_def zero_if_def)

text \<open>\<open>MROWNERCONFIG\<close> of a TD whose policy has a security version: the version and zeros.\<close>

definition owner_config :: "32 word \<Rightarrow> bytes" where
  "owner_config n = u32_le n @ replicate 44 0"

lemma owner_config_iff:
  assumes "length bs = 48"
  shows "slice 4 48 bs = replicate 44 0 \<longleftrightarrow> bs = owner_config (u32_of (slice 0 4 bs))"
proof -
  have "bs = slice 0 4 bs @ slice 4 48 bs" using assms by (simp add: layout_simps)
  moreover have "u32_le (u32_of (slice 0 4 bs)) = slice 0 4 bs" using assms by (simp add: u32_le_u32_of)
  ultimately show ?thesis by (metis owner_config_def same_append_eq)
qed

lemma owner_config_svn: "u32_of (slice 0 4 (owner_config n)) = n"
  by (simp add: owner_config_def slice_def)

definition same_owner :: "bytes \<Rightarrow> bytes \<Rightarrow> bytes \<Rightarrow> bool" where
  "same_owner info owner config \<longleftrightarrow>
     length info = 512 \<and> length owner = 48 \<and> td_info_mrowner info = owner \<and>
     (\<exists>m n. td_info_mrownerconfig info = owner_config m \<and> config = owner_config n \<and> m \<le> n)"

lemma against_owner_Ok [outcome_simps]:
  "verify_peer_init_tdinfo_against_owner info owner config = Ok u \<longleftrightarrow> same_owner info owner config"
  (is "?L = ?R")
proof (cases "length info = 512 \<and> length owner = 48 \<and> length config = 48")
  case True
  let ?i = "td_info_mrownerconfig info"
  have i: "length ?i = 48"
    using True by (simp add: td_info_mrownerconfig_def TD_INFO_MROWNERCONFIG_OFFSET_def
        TD_INFO_MROWNER_OFFSET_def TD_INFO_OWNER_FIELD_SIZE_def)
  have "?L \<longleftrightarrow> td_info_mrowner info = owner \<and> slice 4 48 ?i = replicate 44 0 \<and> slice 4 48 config = replicate 44 0 \<and>
      u32_of (slice 0 4 ?i) \<le> u32_of (slice 0 4 config)"
    using True i by (simp add: verify_peer_init_tdinfo_against_owner_def TD_INFO_SIZE_def SHA384_DIGEST_SIZE_def
        Let_def outcome_simps if_Ok_iff linorder_not_less)
  also have "\<dots> \<longleftrightarrow> ?R"
    unfolding same_owner_def owner_config_iff [OF i] owner_config_iff [of config, OF conjunct2 [OF conjunct2 [OF True]]]
    using True owner_config_svn by metis
  finally show ?thesis .
next
  case False
  then show ?thesis
    by (auto simp: verify_peer_init_tdinfo_against_owner_def TD_INFO_SIZE_def SHA384_DIGEST_SIZE_def owner_config_def
        same_owner_def)
qed

lemma verify_servtd_info_hash_Ok [outcome_simps]:
  "verify_servtd_info_hash sha info attr h = Ok t \<longleftrightarrow>
     512 \<le> length info \<and> t = mask_td_info attr (dec_td_info (take 512 info)) \<and>
     length (sha (td_info_as_bytes t)) = 48 \<and> h = sha (td_info_as_bytes t)"
  by (simp add: verify_servtd_info_hash_def TD_INFO_SIZE_def Let_def outcome_simps if_Ok_iff linorder_not_less)
    (rule iffI; elim conjE; simp)

text \<open>C20: the bound hash determines the initial TD up to the fields the attribute masks: two TDs accepted
  for the same hash and attribute agree on every field that is kept, or the two structures hashed are a
  collision of the hash function.\<close>

theorem verify_servtd_info_hash_binding:
  assumes "verify_servtd_info_hash sha info1 attr h = Ok t1"
    and "verify_servtd_info_hash sha info2 attr h = Ok t2"
  shows "td_info_typed t1 \<and> t1 = mask_td_info attr (dec_td_info (take 512 info1)) \<and>
    (t1 = t2 \<or> (td_info_as_bytes t1 \<noteq> td_info_as_bytes t2 \<and> sha (td_info_as_bytes t1) = sha (td_info_as_bytes t2)))"
proof -
  have typed: "td_info_typed t"
    if "verify_servtd_info_hash sha info attr h = Ok t" for info t
    using that td_info_struct.valid_dec [of "take 512 info"]
    by (simp add: outcome_simps mask_td_info_typed TD_INFO_SIZE_def)
  from td_info_struct.enc_inj [OF typed [OF assms(1)] typed [OF assms(2)]] show ?thesis
    using assms typed [OF assms(1)] by (auto simp: outcome_simps)
qed

theorem verify_servtd_info_hash_binding_witness:
  "verify_servtd_info_hash (\<lambda>_. replicate 48 1) (replicate 512 2) SERVTD_ATTR_IGNORE_MRTD (replicate 48 1)
     = Ok (mask_td_info SERVTD_ATTR_IGNORE_MRTD (dec_td_info (take 512 (replicate 512 2)))) \<and>
   td_info_typed (mask_td_info SERVTD_ATTR_IGNORE_MRTD (dec_td_info (take 512 (replicate 512 2))))"
proof -
  have ok: "verify_servtd_info_hash (\<lambda>_. replicate 48 1) (replicate 512 2) SERVTD_ATTR_IGNORE_MRTD (replicate 48 1)
     = Ok (mask_td_info SERVTD_ATTR_IGNORE_MRTD (dec_td_info (take 512 (replicate 512 2))))"
    by (simp add: outcome_simps)
  then show ?thesis using verify_servtd_info_hash_binding [OF ok ok] by blast
qed

text \<open>What the policies require of the TD a guest was first bound to: the policy signer is the one of the
  peer, its policy is not newer than the peer's, its structure is the one bound to the guest, and the
  local mapping knows its measurements.\<close>

definition init_td_approved ::
    "'h mig_env \<Rightarrow> verified_policy \<Rightarrow> bytes \<Rightarrow> bytes \<Rightarrow> bytes \<Rightarrow> bytes \<Rightarrow> bool" where
  "init_td_approved env lp info owner config ext_bytes \<longleftrightarrow>
     same_owner info owner config \<and>
     (\<exists>ext t svn. servtd_ext_read_from_bytes ext_bytes = Some ext \<and>
        t = mask_td_info (u64_of (init_attr ext)) (dec_td_info info) \<and>
        length (sha384 (me_crypto env) (td_info_as_bytes t)) = 48 \<and>
        init_servtd_info_hash ext = sha384 (me_crypto env) (td_info_as_bytes t) \<and>
        get_engine_svn_by_measurements (servtd_tcb_mapping lp)
          (new_from_bytes (ti_mrtd t) (ti_rtmr0 t) (ti_rtmr1 t) None None) = Some svn)"

lemma init_td_checks:
  "(rbind (verify_peer_init_tdinfo_against_owner info owner config) (\<lambda>_.
   rbind (ok_or PolicyInvalidParameter (servtd_ext_read_from_bytes ext_bytes)) (\<lambda>ext.
   rbind (verify_init_tdinfo (sha384 (me_crypto env)) info ext) (\<lambda>t.
   rbind (ok_or SvnMismatch (get_engine_svn_by_measurements (servtd_tcb_mapping lp)
     (new_from_bytes (ti_mrtd t) (ti_rtmr0 t) (ti_rtmr1 t) None None))) (\<lambda>_. Ok r)))) = Ok r')
   \<longleftrightarrow> (r' = r \<and> init_td_approved env lp info owner config ext_bytes)" 
proof -
  have len: "same_owner info owner config \<Longrightarrow> length info = 512" by (simp add: same_owner_def)
  show ?thesis
    unfolding outcome_simps verify_init_tdinfo_def init_td_approved_def
    by (rule iffI; elim exE conjE; simp add: len)
qed

lemma slice_owner: "822 \<le> length s \<Longrightarrow> length (slice 232 280 s) = 48"
  by simp

text \<open>C22: a peer that migrates a guest in is accepted, when its initial TD is checked, exactly when the checks of
  an ordinary migration hold and the TD that the guest was first bound to is approved against the owner
  fields in the peer's verified report.\<close>

theorem authenticate_source_with_init_exact:
  "authenticate_migration_source_with_init_tdinfo env quote peer_data log info ext_bytes w = Some (Ok suppl, w') \<longleftrightarrow>
     (\<exists>policy chain lp v vp rel.
        encode_peer_data policy chain = Some peer_data \<and> me_policy env = Some lp \<and>
        quoted_peer env lp quote log policy chain v vp suppl \<and>
        get_local_tcb_evaluation_info env w = Some (Ok rel, w') \<and>
        opt_block_satisfied (common_policy (vp_policy_data lp)) v rel False \<and>
        opt_block_satisfied (backward_policy (vp_policy_data lp)) v rel False \<and>
        (me_mock env \<or>
         init_td_approved env lp info (slice 232 280 suppl) (slice 280 328 suppl) ext_bytes))"
proof -
  let ?chk = "\<lambda>lp s. (if me_mock env then Ok s
        else rbind (verify_peer_init_tdinfo_against_suppl_data info s) (\<lambda>_.
          rbind (ok_or PolicyInvalidParameter (servtd_ext_read_from_bytes ext_bytes)) (\<lambda>ext.
          rbind (verify_init_tdinfo (sha384 (me_crypto env)) info ext) (\<lambda>t.
          rbind (ok_or SvnMismatch (get_engine_svn_by_measurements (servtd_tcb_mapping lp)
            (new_from_bytes (ti_mrtd t) (ti_rtmr0 t) (ti_rtmr1 t) None None)))
            (\<lambda>_. Ok s)))))"
  define chk where "chk lp s = ?chk lp s" for lp :: verified_policy and s
  have chk: "chk lp s = Ok suppl \<longleftrightarrow> s = suppl \<and> (me_mock env \<or>
      init_td_approved env lp info (slice 232 280 s) (slice 280 328 s) ext_bytes)"
    if "quoted_peer env lq quote log policy chain v vp s" for lp lq policy chain v vp s
    using that init_td_checks [of info "slice 232 280 s" "slice 280 328 s" ext_bytes env lp s suppl]
    by (auto simp: chk_def verify_peer_init_tdinfo_against_suppl_data_def REPORT_DATA_SIZE_def quoted_peer_def)
  show ?thesis
    unfolding authenticate_migration_source_with_init_tdinfo_def chk_def [symmetric]
    apply (simp add: outcome_simps split_paired_Ex decode_peer_data_iff; rule iffI; elim exE conjE; simp add: chk)
     apply (intro exI conjI; assumption)
    apply (intro exI conjI, assumption+, rule chk [THEN iffD2], assumption, simp)
    done
qed

section \<open>Rebinding\<close>

text \<open>What is established of a peer on the same platform from its report.\<close>

definition reported_peer ::
    "'h mig_env \<Rightarrow> bytes \<Rightarrow> bytes \<Rightarrow> bytes \<Rightarrow> bytes \<Rightarrow> policy_evaluation_info \<Rightarrow> verified_policy \<Rightarrow> tdx_report \<Rightarrow> bool" where
  "reported_peer env tdreport log policy chain v vp r \<longleftrightarrow>
     verify_tdreport env tdreport = Ok r \<and>
     verify_policy_and_event_log env log policy chain
       [ti_rtmr0 (tr_td_info r), ti_rtmr1 (tr_td_info r), ti_rtmr2 (tr_td_info r), ti_rtmr3 (tr_td_info r)] = Ok vp \<and>
     setup_evaluation_data_with_tdreport r vp = Ok v"

lemma authenticate_rebinding_common_Ok [outcome_simps]:
  "authenticate_rebinding_common env tdreport log policy chain = Ok (v, vp, r) \<longleftrightarrow>
     reported_peer env tdreport log policy chain v vp r"
  by (auto simp: authenticate_rebinding_common_def reported_peer_def get_rtmrs_from_tdreport_def
      get_rtmrs_from_tdinfo_def outcome_simps)

text \<open>C21: when a guest is rebound, the new MigTD accepts the old one exactly when the old one's report, log
  and policy hold together, the TD that the guest was first bound to is approved against the owner fields
  of that report, and the local policy's backward part is satisfied.\<close>

theorem authenticate_rebinding_old_exact:
  "authenticate_rebinding_old env tdreport log peer_data info ext_bytes w = Some (Ok out, w') \<longleftrightarrow>
     (\<exists>policy chain lp v vp r rel.
        encode_peer_data policy chain = Some peer_data \<and> me_policy env = Some lp \<and>
        reported_peer env tdreport log policy chain v vp r \<and>
        init_td_approved env lp info (ti_mrowner (tr_td_info r)) (ti_mrownerconfig (tr_td_info r)) ext_bytes \<and>
        get_local_tcb_evaluation_info env w = Some (Ok rel, w') \<and>
        opt_block_satisfied (backward_policy (vp_policy_data lp)) v rel True \<and>
        out = me_report_bytes env r)"
proof -
  define chk where "chk v lp r =
     rbind (verify_peer_init_tdinfo_against_owner info (ti_mrowner (tr_td_info r)) (ti_mrownerconfig (tr_td_info r))) (\<lambda>_.
     rbind (ok_or PolicyInvalidParameter (servtd_ext_read_from_bytes ext_bytes)) (\<lambda>ext.
     rbind (verify_init_tdinfo (sha384 (me_crypto env)) info ext) (\<lambda>t.
     rbind (ok_or SvnMismatch (get_engine_svn_by_measurements (servtd_tcb_mapping lp)
       (new_from_bytes (ti_mrtd t) (ti_rtmr0 t) (ti_rtmr1 t) None None))) (\<lambda>_. Ok (v, lp, r)))))"
    for v :: policy_evaluation_info and lp :: verified_policy and r :: tdx_report
  have chk: "chk v lp r = Ok x \<longleftrightarrow> x = (v, lp, r) \<and>
      init_td_approved env lp info (ti_mrowner (tr_td_info r)) (ti_mrownerconfig (tr_td_info r)) ext_bytes" for v lp r x
    unfolding chk_def by (rule init_td_checks)
  show ?thesis
    unfolding authenticate_rebinding_old_def chk_def [symmetric]
    by (simp add: outcome_simps chk split_paired_Ex decode_peer_data_iff; rule iffI; elim exE conjE; simp;
        intro exI conjI, assumption+, simp)
qed

end
