(* ===== verification/RaTls.thy ===== *)
theory RaTls
  imports MigPolicy
begin

text \<open>
  Remote-attestation TLS, from \<open>src/migtd/src/ratls/server_client.rs\<close> with the configuration and the
  verifier adapter of \<open>src/crypto/src/rustls_impl/tls.rs\<close>: the certificate a MigTD makes for a session,
  which carries its quote or report, its event log and the hash of its policy, and the callback
  that decides on the certificate of the peer.  Encoding, key generation and the TLS
  library are parameters.
\<close>

section \<open>Model\<close>

definition EXTENDED_KEY_USAGE :: oid where "EXTENDED_KEY_USAGE = [2, 5, 29, 37]"
definition MIGTD_EXTENDED_KEY_USAGE :: oid where
  "MIGTD_EXTENDED_KEY_USAGE = [1, 2, 840, 113741, 1, 5, 5, 1, 1]"
definition EXTNID_MIGTD_QUOTE_REPORT :: oid where
  "EXTNID_MIGTD_QUOTE_REPORT = [1, 2, 840, 113741, 1, 5, 5, 1, 2]"
definition EXTNID_MIGTD_EVENT_LOG :: oid where
  "EXTNID_MIGTD_EVENT_LOG = [1, 2, 840, 113741, 1, 5, 5, 1, 3]"
definition EXTNID_MIGTD_POLICY_HASH :: oid where
  "EXTNID_MIGTD_POLICY_HASH = [1, 2, 840, 113741, 1, 5, 5, 1, 4]"
definition EXTNID_MIGTD_TDREPORT :: oid where
  "EXTNID_MIGTD_TDREPORT = [1, 2, 840, 113741, 1, 5, 5, 1, 5]"
definition EXTNID_MIGTD_SERVTD_EXT :: oid where
  "EXTNID_MIGTD_SERVTD_EXT = [1, 2, 840, 113741, 1, 5, 5, 1, 6]"
definition EXTNID_MIGTD_TDREPORT_INIT :: oid where
  "EXTNID_MIGTD_TDREPORT_INIT = [1, 2, 840, 113741, 1, 5, 5, 1, 7]"
definition ID_EC_PUBKEY_OID :: oid where "ID_EC_PUBKEY_OID = [1, 2, 840, 10045, 2, 1]"
definition SECP384R1_OID :: oid where "SECP384R1_OID = [1, 3, 132, 0, 34]"
definition KEY_USAGE_EXTENSION :: oid where "KEY_USAGE_EXTENSION = [2, 5, 29, 15]"
definition SERVER_AUTH :: oid where "SERVER_AUTH = [1, 3, 6, 1, 5, 5, 7, 3, 1]"
definition CLIENT_AUTH :: oid where "CLIENT_AUTH = [1, 3, 6, 1, 5, 5, 7, 3, 2]"
definition ID_EC_SIG_OID :: oid where "ID_EC_SIG_OID = [1, 2, 840, 10045, 4, 3, 3]"
definition MISMATCH_PUBLIC_KEY :: string where "MISMATCH_PUBLIC_KEY = ''MismatchPublicKeyError''"

text \<open>
  \<open>EcdsaPk\<close> holds an encoded key pair; \<open>EcdsaKeyPair::from_pkcs8\<close> gives its public key and its signing
  operation, which draws random bytes and may fail.
\<close>

record ecdsa_pk =
  from_pkcs8 :: "(bytes \<times> (bytes \<Rightarrow> bytes option)) option"

definition ecdsa_public_key :: "ecdsa_pk \<Rightarrow> (crypto_error, bytes) outcome" where
  "ecdsa_public_key k = rbind (ok_or GenerateKeyPair (from_pkcs8 k)) (\<lambda>(pub, _). Ok pub)"

definition ecdsa_sign :: "ecdsa_pk \<Rightarrow> bytes \<Rightarrow> (crypto_error, bytes) outcome" where
  "ecdsa_sign k msg = rbind (ok_or GenerateKeyPair (from_pkcs8 k)) (\<lambda>(_, sgn). ok_or EcdsaSign (sgn msg))"

definition ecdsa_verify :: "crypto_env \<Rightarrow> bytes \<Rightarrow> bytes \<Rightarrow> bytes \<Rightarrow> (crypto_error, unit) outcome" where
  "ecdsa_verify env key msg signature = ensure (ecdsa_p384_verify env key msg signature) EcdsaVerify"

text \<open>
  What a session needs beside the policy environment: the local policy and issuer chain of the
  configuration volume, the event log area, a generator of key pairs, the encoders of the crate
  \<open>der\<close>, and the report data inside a report.
\<close>

record 'h tls_env =
  te_mig :: "'h mig_env"
  te_policy :: "bytes option"
  te_issuer_chain :: "bytes option"
  te_event_log :: "bytes option"
  te_new_key :: "ecdsa_pk option"
  te_cert_to_der :: "certificate \<Rightarrow> bytes option"
  te_eku_to_der :: "oid list \<Rightarrow> bytes option"
  te_eku_from_der :: "bytes \<Rightarrow> oid list option"
  te_bits_to_der :: "bit_string \<Rightarrow> bytes option"
  te_any_new :: "8 word \<Rightarrow> bytes \<Rightarrow> any option"
  te_oid_bytes :: "oid \<Rightarrow> bytes"
  te_report_data :: "tdx_report \<Rightarrow> bytes"

abbreviation te_crypto :: "'h tls_env \<Rightarrow> crypto_env" where
  "te_crypto env \<equiv> me_crypto (te_mig env)"

subsection \<open>Making a certificate\<close>

definition prepare_report_data :: "(bytes \<Rightarrow> bytes) \<Rightarrow> bytes \<Rightarrow> (ratls_error, bytes) outcome" where
  "prepare_report_data sha key =
     rbind (map_err (\<lambda>_. Crypto CalculateDigest) (digest_sha384 sha key)) (\<lambda>hash.
       if length hash \<le> 64 then Ok (overwrite 0 hash (replicate 64 0)) else Panic)"

definition gen_quote :: "'h tls_env \<Rightarrow> bytes \<Rightarrow> ('h retry_world, ratls_error, bytes) prog" where
  "gen_quote env key =
     pbind (plift (prepare_report_data (sha384 (te_crypto env)) key)) (\<lambda>additional_data.
     pbind (pmap_err (\<lambda>_. GetQuote)
       (get_quote_with_retry (me_emu (te_mig env))
         (\<lambda>h. apfst (map_option (me_report_bytes (te_mig env))) (me_tdcall_report (te_mig env) additional_data h))
         (me_get_quote (te_mig env)))) (\<lambda>(quote, _). plift (Ok quote)))"

definition gen_tdreport :: "'h tls_env \<Rightarrow> bytes \<Rightarrow> ('h retry_world, ratls_error, tdx_report) prog" where
  "gen_tdreport env key =
     pbind (plift (prepare_report_data (sha384 (te_crypto env)) key)) (\<lambda>additional_data w.
       case me_tdcall_report (te_mig env) additional_data (rw_host w) of
         (None, h) \<Rightarrow> Some (Err TdxModule, w\<lparr> rw_host := h \<rparr>)
       | (Some r, h) \<Rightarrow> Some (Ok r, w\<lparr> rw_host := h \<rparr>))"

definition policy_hash :: "'h tls_env \<Rightarrow> (ratls_error, bytes) outcome" where
  "policy_hash env =
     rbind (ok_or RatlsInvalidPolicy (local_peer_data (te_policy env) (te_issuer_chain env))) (\<lambda>blob.
       map_err (\<lambda>_. Crypto CalculateDigest) (digest_sha384 (sha384 (te_crypto env)) blob))"

definition create_eku :: "'h tls_env \<Rightarrow> (ratls_error, bytes) outcome" where
  "create_eku env = ok_or X509 (te_eku_to_der env [SERVER_AUTH, CLIENT_AUTH, MIGTD_EXTENDED_KEY_USAGE])"

definition create_key_usage :: "'h tls_env \<Rightarrow> (ratls_error, bytes) outcome" where
  "create_key_usage env =
     rbind (ok_or X509 (bit_string_new (te_crypto env) 0 [0x80])) (\<lambda>b. ok_or X509 (te_bits_to_der env b))"

definition with_extension ::
    "'h tls_env \<Rightarrow> oid \<Rightarrow> bool \<Rightarrow> bytes \<Rightarrow> certificate \<Rightarrow> (ratls_error, certificate) outcome" where
  "with_extension env oid crit v cert =
     rbind (map_err (\<lambda>_. X509) (extension_new (te_crypto env) oid (Some crit) (Some v))) (\<lambda>ext.
       map_err (\<lambda>_. X509) (add_extension ext cert))"

definition create_tls_tbs_common ::
    "'h tls_env \<Rightarrow> bytes \<Rightarrow> bytes \<Rightarrow> bytes \<Rightarrow> (ratls_error, certificate) outcome" where
  "create_tls_tbs_common env key key_usage eku =
     rbind (ok_or X509 (te_any_new env 0x06 (te_oid_bytes env SECP384R1_OID))) (\<lambda>curve.
     (let alg = \<lparr> algorithm = ID_EC_PUBKEY_OID, parameters = Some curve \<rparr>;
          sig_alg = \<lparr> algorithm = ID_EC_SIG_OID, parameters = None \<rparr> in
     rbind (map_err (\<lambda>_. InvalidEventlog) (get_event_log (me_cc (te_mig env)) (te_event_log env))) (\<lambda>event_log.
     rbind (map_err (\<lambda>_. X509) (certificate_new (te_crypto env) sig_alg alg key)) (\<lambda>c.
     rbind (map_err (\<lambda>_. X509) (set_not_before (te_crypto env) 0 c)) (\<lambda>c.
     rbind (map_err (\<lambda>_. X509) (set_not_after (te_crypto env) 253402300799 c)) (\<lambda>c.
     rbind (with_extension env KEY_USAGE_EXTENSION True key_usage c) (\<lambda>c.
     rbind (with_extension env EXTENDED_KEY_USAGE False eku c) (\<lambda>c.
       with_extension env EXTNID_MIGTD_EVENT_LOG False event_log c))))))))"

definition set_signature :: "crypto_env \<Rightarrow> bytes \<Rightarrow> certificate \<Rightarrow> (unit, certificate) outcome" where
  "set_signature env signature cert =
     rbind (ok_or () (bit_string_new env 0 signature)) (\<lambda>b. Ok (cert\<lparr> signature_value := b \<rparr>))"

definition sign_tls_tbs :: "'h tls_env \<Rightarrow> ecdsa_pk \<Rightarrow> certificate \<Rightarrow> (ratls_error, bytes) outcome" where
  "sign_tls_tbs env signing_key cert =
     rbind (ok_or X509 (tbs_to_der (te_crypto env) (tbs cert))) (\<lambda>body.
     rbind (map_err Crypto (ecdsa_sign signing_key body)) (\<lambda>signature.
     rbind (map_err (\<lambda>_. X509) (set_signature (te_crypto env) signature cert)) (\<lambda>c.
       ok_or X509 (te_cert_to_der env c))))"

definition create_certificate_for_server ::
    "'h tls_env \<Rightarrow> ecdsa_pk \<Rightarrow> ('h retry_world, ratls_error, bytes \<times> bytes) prog" where
  "create_certificate_for_server env signing_key =
     pbind (plift (map_err Crypto (ecdsa_public_key signing_key))) (\<lambda>pub_key.
     pbind (gen_quote env pub_key) (\<lambda>quote.
     plift
       (rbind (policy_hash env) (\<lambda>hash.
        rbind (create_eku env) (\<lambda>eku.
        rbind (create_key_usage env) (\<lambda>key_usage.
        rbind (create_tls_tbs_common env pub_key key_usage eku) (\<lambda>c.
        rbind (with_extension env EXTNID_MIGTD_QUOTE_REPORT False quote c) (\<lambda>c.
        rbind (with_extension env EXTNID_MIGTD_POLICY_HASH False hash c) (\<lambda>c.
        rbind (sign_tls_tbs env signing_key c) (\<lambda>der. Ok (der, quote)))))))))))"

definition create_certificate_for_client ::
    "'h tls_env \<Rightarrow> ecdsa_pk \<Rightarrow> ('h retry_world, ratls_error, bytes \<times> bytes) prog" where
  "create_certificate_for_client env signing_key =
     pbind (plift (map_err Crypto (ecdsa_public_key signing_key))) (\<lambda>pub_key.
     pbind (gen_quote env pub_key) (\<lambda>quote.
     plift
       (rbind (policy_hash env) (\<lambda>hash.
        rbind (create_eku env) (\<lambda>eku.
        rbind (create_key_usage env) (\<lambda>key_usage.
        rbind (create_tls_tbs_common env pub_key key_usage eku) (\<lambda>c.
        rbind (with_extension env EXTNID_MIGTD_QUOTE_REPORT False quote c) (\<lambda>c.
        rbind (with_extension env EXTNID_MIGTD_POLICY_HASH False hash c) (\<lambda>c.
        rbind (sign_tls_tbs env signing_key c) (\<lambda>der. Ok (der, quote)))))))))))"

definition create_certificate_for_rebinding_old ::
    "'h tls_env \<Rightarrow> ecdsa_pk \<Rightarrow> bytes \<Rightarrow> servtd_ext \<Rightarrow> ('h retry_world, ratls_error, bytes) prog" where
  "create_certificate_for_rebinding_old env signing_key init_tdinfo ext =
     pbind (plift (map_err Crypto (ecdsa_public_key signing_key))) (\<lambda>pub_key.
     pbind (gen_tdreport env pub_key) (\<lambda>tdreport.
     plift
       (rbind (policy_hash env) (\<lambda>hash.
        rbind (create_eku env) (\<lambda>eku.
        rbind (create_key_usage env) (\<lambda>key_usage.
        rbind (create_tls_tbs_common env pub_key key_usage eku) (\<lambda>c.
        rbind (with_extension env EXTNID_MIGTD_TDREPORT False (me_report_bytes (te_mig env) tdreport) c) (\<lambda>c.
        rbind (with_extension env EXTNID_MIGTD_POLICY_HASH False hash c) (\<lambda>c.
        rbind (with_extension env EXTNID_MIGTD_SERVTD_EXT False (servtd_ext_as_bytes ext) c) (\<lambda>c.
        rbind (with_extension env EXTNID_MIGTD_TDREPORT_INIT False init_tdinfo c) (\<lambda>c.
          sign_tls_tbs env signing_key c)))))))))))"

definition create_certificate_for_rebinding_new ::
    "'h tls_env \<Rightarrow> ecdsa_pk \<Rightarrow> ('h retry_world, ratls_error, bytes) prog" where
  "create_certificate_for_rebinding_new env signing_key =
     pbind (plift (map_err Crypto (ecdsa_public_key signing_key))) (\<lambda>pub_key.
     pbind (gen_tdreport env pub_key) (\<lambda>tdreport.
     plift
       (rbind (policy_hash env) (\<lambda>hash.
        rbind (create_eku env) (\<lambda>eku.
        rbind (create_key_usage env) (\<lambda>key_usage.
        rbind (create_tls_tbs_common env pub_key key_usage eku) (\<lambda>c.
        rbind (with_extension env EXTNID_MIGTD_TDREPORT False (me_report_bytes (te_mig env) tdreport) c) (\<lambda>c.
        rbind (with_extension env EXTNID_MIGTD_POLICY_HASH False hash c) (\<lambda>c.
          sign_tls_tbs env signing_key c)))))))))"

subsection \<open>Judging a certificate\<close>

fun check_migtd_eku :: "'h tls_env \<Rightarrow> extension list \<Rightarrow> (crypto_error, unit) outcome" where
  "check_migtd_eku env [] = Err ParseCertificate"
| "check_migtd_eku env (e # es) =
     (if extn_id e = EXTENDED_KEY_USAGE
      then (case extn_value e of
              None \<Rightarrow> check_migtd_eku env es
            | Some v \<Rightarrow>
                rbind (ok_or GenerateCertificate (te_eku_from_der env v)) (\<lambda>eku.
                  if MIGTD_EXTENDED_KEY_USAGE \<in> set eku then Ok () else check_migtd_eku env es))
      else check_migtd_eku env es)"

fun find_extension :: "extension list \<Rightarrow> oid \<Rightarrow> bytes option" where
  "find_extension [] oid = None"
| "find_extension (e # es) oid =
     (if extn_id e = oid then (case extn_value e of Some v \<Rightarrow> Some v | None \<Rightarrow> find_extension es oid)
      else find_extension es oid)"

definition verify_public_key :: "'h tls_env \<Rightarrow> bytes \<Rightarrow> bytes \<Rightarrow> (crypto_error, unit) outcome" where
  "verify_public_key env report key =
     (if me_emu (te_mig env) then Ok ()
      else if me_mock (te_mig env) then Ok ()
      else
        rbind (index_range 520 (520 + 48) report) (\<lambda>report_data.
        rbind (map_err (\<lambda>_. CalculateDigest) (digest_sha384 (sha384 (te_crypto env)) key)) (\<lambda>digest.
          if report_data = digest then Ok () else Err (TlsVerifyPeerCert MISMATCH_PUBLIC_KEY))))"

definition verify_public_key_with_tdreport :: "'h tls_env \<Rightarrow> bytes \<Rightarrow> bytes \<Rightarrow> (crypto_error, unit) outcome" where
  "verify_public_key_with_tdreport env tdreport key =
     (if me_emu (te_mig env) then Ok ()
      else
        rbind (ok_or (TlsVerifyPeerCert MISMATCH_PUBLIC_KEY) (me_read_report (te_mig env) tdreport)) (\<lambda>r.
        rbind (index_range 0 48 (te_report_data env r)) (\<lambda>report_data.
        rbind (map_err (\<lambda>_. CalculateDigest) (digest_sha384 (sha384 (te_crypto env)) key)) (\<lambda>digest.
          if report_data = digest then Ok () else Err (TlsVerifyPeerCert MISMATCH_PUBLIC_KEY)))))"

definition verify_signature :: "'h tls_env \<Rightarrow> certificate \<Rightarrow> bytes \<Rightarrow> (crypto_error, unit) outcome" where
  "verify_signature env cert report =
     rbind (ok_or ParseCertificate (as_bytes (subject_public_key (spki (tbs cert))))) (\<lambda>key.
     rbind (ok_or GenerateCertificate (tbs_to_der (te_crypto env) (tbs cert))) (\<lambda>body.
     rbind (ok_or ParseCertificate (as_bytes (signature_value cert))) (\<lambda>signature.
     rbind (verify_public_key env report key) (\<lambda>_.
       ecdsa_verify (te_crypto env) key body signature))))"

definition verify_signature_with_tdreport ::
    "'h tls_env \<Rightarrow> certificate \<Rightarrow> bytes \<Rightarrow> (crypto_error, unit) outcome" where
  "verify_signature_with_tdreport env cert tdreport =
     rbind (ok_or ParseCertificate (as_bytes (subject_public_key (spki (tbs cert))))) (\<lambda>key.
     rbind (ok_or GenerateCertificate (tbs_to_der (te_crypto env) (tbs cert))) (\<lambda>body.
     rbind (ok_or ParseCertificate (as_bytes (signature_value cert))) (\<lambda>signature.
     rbind (verify_public_key_with_tdreport env tdreport key) (\<lambda>_.
       ecdsa_verify (te_crypto env) key body signature))))"

definition parse_peer_cert :: "'h tls_env \<Rightarrow> bytes \<Rightarrow> (crypto_error, certificate \<times> extension list) outcome" where
  "parse_peer_cert env der =
     rbind (ok_or ParseCertificate (from_der (te_crypto env) der)) (\<lambda>cert.
     rbind (ok_or ParseCertificate (extensions (tbs cert))) (\<lambda>es.
     rbind (check_migtd_eku env es) (\<lambda>_. Ok (cert, es))))"

definition check_policy_hash :: "'h tls_env \<Rightarrow> bytes \<Rightarrow> bytes \<Rightarrow> (crypto_error, unit) outcome" where
  "check_policy_hash env expected_policy_hash peer_data =
     rbind (map_err (\<lambda>_. CalculateDigest) (digest_sha384 (sha384 (te_crypto env)) peer_data)) (\<lambda>exact_policy_hash.
       if expected_policy_hash \<noteq> exact_policy_hash then Err (TlsVerifyPeerCert INVALID_MIG_POLICY_ERROR)
       else Ok ())"

definition policy_check_error :: "policy_error \<Rightarrow> crypto_error" where
  "policy_check_error e =
     (if e = InvalidPolicy then TlsVerifyPeerCert INVALID_MIG_POLICY_ERROR
      else TlsVerifyPeerCert MIG_POLICY_UNSATISFIED_ERROR)"

definition verify_peer_cert ::
    "'h tls_env \<Rightarrow> bool \<Rightarrow> bytes \<Rightarrow> bytes \<Rightarrow> ('h retry_world, crypto_error, unit) prog" where
  "verify_peer_cert env is_client der peer_data =
     pbind (plift
       (rbind (parse_peer_cert env der) (\<lambda>(cert, es).
        rbind (ok_or ParseCertificate (find_extension es EXTNID_MIGTD_QUOTE_REPORT)) (\<lambda>quote_report.
        rbind (ok_or ParseCertificate (find_extension es EXTNID_MIGTD_EVENT_LOG)) (\<lambda>event_log.
        rbind (ok_or ParseCertificate (find_extension es EXTNID_MIGTD_POLICY_HASH)) (\<lambda>expected_policy_hash.
        rbind (check_policy_hash env expected_policy_hash peer_data) (\<lambda>_.
          Ok (cert, quote_report, event_log)))))))) (\<lambda>(cert, quote_report, event_log).
     pbind (pmap_err policy_check_error
       (authenticate_remote (te_mig env) is_client quote_report peer_data event_log)) (\<lambda>suppl_data.
     plift (verify_signature env cert suppl_data)))"

definition verify_rebinding_old_cert ::
    "'h tls_env \<Rightarrow> bytes \<Rightarrow> bytes \<Rightarrow> ('h retry_world, crypto_error, unit) prog" where
  "verify_rebinding_old_cert env der peer_data =
     pbind (plift
       (rbind (parse_peer_cert env der) (\<lambda>(cert, es).
        rbind (ok_or ParseCertificate (find_extension es EXTNID_MIGTD_TDREPORT)) (\<lambda>td_report.
        rbind (ok_or ParseCertificate (find_extension es EXTNID_MIGTD_EVENT_LOG)) (\<lambda>event_log.
        rbind (ok_or ParseCertificate (find_extension es EXTNID_MIGTD_POLICY_HASH)) (\<lambda>expected_policy_hash.
        rbind (ok_or ParseCertificate (find_extension es EXTNID_MIGTD_TDREPORT_INIT)) (\<lambda>init_tdinfo.
        rbind (ok_or ParseCertificate (find_extension es EXTNID_MIGTD_SERVTD_EXT)) (\<lambda>ext.
        rbind (check_policy_hash env expected_policy_hash peer_data) (\<lambda>_.
          Ok (cert, td_report, event_log, init_tdinfo, ext))))))))))
       (\<lambda>(cert, td_report, event_log, init_tdinfo, ext).
     pbind (pmap_err policy_check_error
       (authenticate_rebinding_old (te_mig env) td_report event_log peer_data init_tdinfo ext)) (\<lambda>suppl_data.
     plift (verify_signature_with_tdreport env cert suppl_data)))"

definition verify_rebinding_new_cert ::
    "'h tls_env \<Rightarrow> bytes \<Rightarrow> bytes \<Rightarrow> ('h retry_world, crypto_error, unit) prog" where
  "verify_rebinding_new_cert env der peer_data =
     pbind (plift
       (rbind (parse_peer_cert env der) (\<lambda>(cert, es).
        rbind (ok_or ParseCertificate (find_extension es EXTNID_MIGTD_TDREPORT)) (\<lambda>td_report.
        rbind (ok_or ParseCertificate (find_extension es EXTNID_MIGTD_EVENT_LOG)) (\<lambda>event_log.
        rbind (ok_or ParseCertificate (find_extension es EXTNID_MIGTD_POLICY_HASH)) (\<lambda>expected_policy_hash.
        rbind (check_policy_hash env expected_policy_hash peer_data) (\<lambda>_.
          Ok (cert, td_report, event_log)))))))) (\<lambda>(cert, td_report, event_log).
     pbind (pmap_err policy_check_error
       (authenticate_rebinding_new (te_mig env) td_report event_log peer_data)) (\<lambda>suppl_data.
     plift (verify_signature_with_tdreport env cert suppl_data)))"

definition verify_server_cert :: "'h tls_env \<Rightarrow> bytes \<Rightarrow> bytes \<Rightarrow> ('h retry_world, crypto_error, unit) prog" where
  "verify_server_cert env cert quote = verify_peer_cert env True cert quote"

definition verify_client_cert :: "'h tls_env \<Rightarrow> bytes \<Rightarrow> bytes \<Rightarrow> ('h retry_world, crypto_error, unit) prog" where
  "verify_client_cert env cert quote = verify_peer_cert env False cert quote"

subsection \<open>Setting up a session\<close>

text \<open>
  A configuration: the certificates and key the resolver presents, and the callback and the data the
  verifier uses.  \<open>mk\<close> stands for the TLS library's constructor of a connection over a stream.
\<close>

record 'h tls_config =
  tc_certs :: "bytes list"
  tc_signing_key :: ecdsa_pk
  tc_callback :: "bytes \<Rightarrow> bytes \<Rightarrow> ('h retry_world, crypto_error, unit) prog"
  tc_data :: bytes

definition tls_config_new ::
    "bytes list \<Rightarrow> ecdsa_pk \<Rightarrow> (bytes \<Rightarrow> bytes \<Rightarrow> ('h retry_world, crypto_error, unit) prog) \<Rightarrow> bytes
     \<Rightarrow> (crypto_error, 'h tls_config) outcome" where
  "tls_config_new certs_der signing_key verify_callback verify_callback_data =
     Ok \<lparr> tc_certs = certs_der, tc_signing_key = signing_key, tc_callback = verify_callback,
          tc_data = verify_callback_data \<rparr>"

definition server ::
    "'h tls_env \<Rightarrow> ('h tls_config \<Rightarrow> (crypto_error, 'c) outcome) \<Rightarrow> bytes \<Rightarrow> ('h retry_world, ratls_error, 'c) prog" where
  "server env tls_server peer_data =
     pbind (plift (ok_or (Crypto GenerateKeyPair) (te_new_key env))) (\<lambda>signing_key.
     pbind (create_certificate_for_server env signing_key) (\<lambda>(cert, _).
     plift
       (rbind (map_err Crypto (tls_config_new [cert] signing_key (verify_client_cert env) peer_data)) (\<lambda>config.
          map_err Crypto (tls_server config)))))"

definition client ::
    "'h tls_env \<Rightarrow> ('h tls_config \<Rightarrow> (crypto_error, 'c) outcome) \<Rightarrow> bytes \<Rightarrow> ('h retry_world, ratls_error, 'c) prog" where
  "client env tls_client peer_data =
     pbind (plift (ok_or (Crypto GenerateKeyPair) (te_new_key env))) (\<lambda>signing_key.
     pbind (create_certificate_for_client env signing_key) (\<lambda>(cert, _).
     plift
       (rbind (map_err Crypto (tls_config_new [cert] signing_key (verify_server_cert env) peer_data)) (\<lambda>config.
          map_err Crypto (tls_client config)))))"

definition server_rebinding ::
    "'h tls_env \<Rightarrow> ('h tls_config \<Rightarrow> (crypto_error, 'c) outcome) \<Rightarrow> bytes \<Rightarrow> ('h retry_world, ratls_error, 'c) prog" where
  "server_rebinding env tls_server peer_data =
     pbind (plift (ok_or (Crypto GenerateKeyPair) (te_new_key env))) (\<lambda>signing_key.
     pbind (create_certificate_for_rebinding_new env signing_key) (\<lambda>cert.
     plift
       (rbind (map_err Crypto (tls_config_new [cert] signing_key (verify_rebinding_old_cert env) peer_data)) (\<lambda>config.
          map_err Crypto (tls_server config)))))"

definition client_rebinding ::
    "'h tls_env \<Rightarrow> ('h tls_config \<Rightarrow> (crypto_error, 'c) outcome) \<Rightarrow> bytes \<Rightarrow> bytes \<Rightarrow> servtd_ext
     \<Rightarrow> ('h retry_world, ratls_error, 'c) prog" where
  "client_rebinding env tls_client peer_data init_tdinfo ext =
     pbind (plift (ok_or (Crypto GenerateKeyPair) (te_new_key env))) (\<lambda>signing_key.
     pbind (create_certificate_for_rebinding_old env signing_key init_tdinfo ext) (\<lambda>cert.
     plift
       (rbind (map_err Crypto (tls_config_new [cert] signing_key (verify_rebinding_new_cert env) peer_data)) (\<lambda>config.
          map_err Crypto (tls_client config)))))"

subsection \<open>Passing the verdict through the TLS library\<close>

definition TLS_CUSTOM_CALLBACK_ERROR :: string where "TLS_CUSTOM_CALLBACK_ERROR = ''TlsCustomCallbackError''"

text \<open>The text of \<open>rustls::Error::General\<close> with which the verifier reports the callback's error.\<close>

definition verifier_error :: "crypto_error \<Rightarrow> string" where
  "verifier_error e =
     (case e of
        TlsVerifyPeerCert d \<Rightarrow> TLS_CUSTOM_CALLBACK_ERROR @ ''('' @ d @ '')''
      | _ \<Rightarrow> ''Unexpected'')"

text \<open>\<open>str::find\<close>: the index of the first occurrence.\<close>

fun str_find :: "string \<Rightarrow> string \<Rightarrow> nat option" where
  "str_find sub [] = (if sub = [] then Some 0 else None)"
| "str_find sub (c # s) = (if take (length sub) (c # s) = sub then Some 0 else map_option Suc (str_find sub s))"

datatype tls_connection_error =
    TlsEncode | TlsEncrypt | UnexpectedState | TlsLibGeneral string | TlsLibOther | TlsTransport

text \<open>The texts are ASCII; \<open>desc[start..]\<close> panics when it starts behind the end.\<close>

definition handle_stream_error :: "tls_connection_error \<Rightarrow> ('e, crypto_error) outcome" where
  "handle_stream_error e =
     (case e of
        TlsLibGeneral desc \<Rightarrow>
          (case str_find TLS_CUSTOM_CALLBACK_ERROR desc of
             Some index \<Rightarrow>
               (let start = index + length TLS_CUSTOM_CALLBACK_ERROR + 1 in
                rbind (index_range start (length desc) desc) (\<lambda>rest.
                  case str_find '')'' rest of
                    Some index \<Rightarrow> Ok (TlsVerifyPeerCert (slice start (start + index) desc))
                  | None \<Rightarrow> Ok TlsStream))
           | None \<Rightarrow> Ok TlsStream)
      | _ \<Rightarrow> Ok TlsStream)"

section \<open>What an accepted certificate establishes\<close>

text \<open>The usages listed by the extensions that have a value, in order; absent where one does not decode.\<close>

definition eku_lists :: "'h tls_env \<Rightarrow> extension list \<Rightarrow> oid list option list" where
  "eku_lists env es =
     map (te_eku_from_der env) (List.map_filter (\<lambda>e. if extn_id e = EXTENDED_KEY_USAGE then extn_value e else None) es)"

definition reached :: "('a \<Rightarrow> bool) \<Rightarrow> 'a option list \<Rightarrow> bool" where
  "reached P xs \<longleftrightarrow> (\<exists>pre y post. xs = map Some pre @ Some y # post \<and> P y)"

definition migtd_usage :: "'h tls_env \<Rightarrow> extension list \<Rightarrow> bool" where
  "migtd_usage env es \<longleftrightarrow> reached (\<lambda>eku. MIGTD_EXTENDED_KEY_USAGE \<in> set eku) (eku_lists env es)"

lemma eku_lists_simps [simp]:
  "eku_lists env [] = []"
  "eku_lists env (e # es) =
     (if extn_id e = EXTENDED_KEY_USAGE
      then (case extn_value e of None \<Rightarrow> eku_lists env es | Some v \<Rightarrow> te_eku_from_der env v # eku_lists env es)
      else eku_lists env es)"
  by (simp_all add: eku_lists_def List.map_filter_simps split: option.split)

lemma reached_Nil [simp]: "\<not> reached P []"
  by (simp add: reached_def)

lemma reached_Cons [simp]: "reached P (x # xs) \<longleftrightarrow> (\<exists>y. x = Some y \<and> (P y \<or> reached P xs))"
proof
  assume "reached P (x # xs)"
  then obtain pre y post where "x # xs = map Some pre @ Some y # post" "P y" by (auto simp: reached_def)
  then show "\<exists>y. x = Some y \<and> (P y \<or> reached P xs)"
    by (cases pre) (auto simp: reached_def)
next
  assume "\<exists>y. x = Some y \<and> (P y \<or> reached P xs)"
  then obtain y where x: "x = Some y" and y: "P y \<or> reached P xs" by blast
  from y show "reached P (x # xs)"
  proof
    assume "P y"
    then show ?thesis using x unfolding reached_def by (intro exI [of _ "[]"]) auto
  next
    assume "reached P xs"
    then obtain pre z post where "xs = map Some pre @ Some z # post" "P z" by (auto simp: reached_def)
    then show ?thesis
      using x unfolding reached_def by (intro exI [of _ "y # pre"] exI [of _ z] exI [of _ post]) simp
  qed
qed

lemma check_migtd_eku_Ok [outcome_simps]: "check_migtd_eku env es = Ok u \<longleftrightarrow> migtd_usage env es"
  unfolding migtd_usage_def
  by (induction es) (auto simp: outcome_simps if_Ok_iff split: option.splits if_splits)

text \<open>The TLS key is the one the quote or report was made for.\<close>

definition key_in_quote :: "'h tls_env \<Rightarrow> bytes \<Rightarrow> bytes \<Rightarrow> bool" where
  "key_in_quote env suppl key \<longleftrightarrow> me_emu (te_mig env) \<or> me_mock (te_mig env) \<or>
     568 \<le> length suppl \<and> length (sha384 (te_crypto env) key) = 48 \<and> slice 520 568 suppl = sha384 (te_crypto env) key"

lemma verify_public_key_Ok [outcome_simps]: "verify_public_key env suppl key = Ok u \<longleftrightarrow> key_in_quote env suppl key"
  by (auto simp: verify_public_key_def key_in_quote_def digest_sha384_def SHA384_DIGEST_SIZE_def index_range_def)

definition self_signed :: "'h tls_env \<Rightarrow> certificate \<Rightarrow> bytes \<Rightarrow> bool" where
  "self_signed env cert key \<longleftrightarrow> as_bytes (subject_public_key (spki (tbs cert))) = Some key \<and>
     (\<exists>body signature. tbs_to_der (te_crypto env) (tbs cert) = Some body \<and>
        as_bytes (signature_value cert) = Some signature \<and> ecdsa_p384_verify (te_crypto env) key body signature)"

lemma verify_session_signature_Ok [outcome_simps]:
  "verify_signature env cert suppl = Ok u \<longleftrightarrow> (\<exists>key. self_signed env cert key \<and> key_in_quote env suppl key)"
  by (auto simp: verify_signature_def self_signed_def ecdsa_verify_def outcome_simps)

lemma parse_peer_cert_Ok [outcome_simps]:
  "parse_peer_cert env der = Ok (cert, es) \<longleftrightarrow>
     from_der (te_crypto env) der = Some cert \<and> extensions (tbs cert) = Some es \<and> migtd_usage env es"
  by (auto simp: parse_peer_cert_def outcome_simps)

lemma check_policy_hash_Ok [outcome_simps]:
  "check_policy_hash env h peer_data = Ok u \<longleftrightarrow>
     length (sha384 (te_crypto env) peer_data) = 48 \<and> h = sha384 (te_crypto env) peer_data"
  by (simp add: check_policy_hash_def outcome_simps if_Ok_iff)

text \<open>C19: the callback accepts the peer's certificate exactly when it is a certificate for MigTD use that names
  the hash of the very blob received before the session, its quote, event log and blob pass the
  authentication under the local policy, it is signed with its own key, and the hash of that key is the
  report data of the verified quote.\<close>

theorem verify_peer_cert_exact:
  "verify_peer_cert env is_client der peer_data w = Some (Ok (), w') \<longleftrightarrow>
     (\<exists>cert es quote log suppl key.
        from_der (te_crypto env) der = Some cert \<and> extensions (tbs cert) = Some es \<and> migtd_usage env es \<and>
        find_extension es EXTNID_MIGTD_QUOTE_REPORT = Some quote \<and>
        find_extension es EXTNID_MIGTD_EVENT_LOG = Some log \<and>
        find_extension es EXTNID_MIGTD_POLICY_HASH = Some (sha384 (te_crypto env) peer_data) \<and>
        length (sha384 (te_crypto env) peer_data) = 48 \<and>
        authenticate_remote (te_mig env) is_client quote peer_data log w = Some (Ok suppl, w') \<and>
        self_signed env cert key \<and> key_in_quote env suppl key)"
  by (simp add: verify_peer_cert_def outcome_simps split_paired_Ex; rule iffI; elim exE conjE; simp;
      intro exI conjI; assumption)

section \<open>What a MigTD presents\<close>

text \<open>
  The documented behaviour of the encoders and of a key pair: decoding is a left inverse of encoding, and
  what a key signs its public key verifies.
\<close>

definition faithful_codec :: "'h tls_env \<Rightarrow> bool" where
  "faithful_codec env \<longleftrightarrow>
     (\<forall>c d. te_cert_to_der env c = Some d \<longrightarrow> from_der (te_crypto env) d = Some c) \<and>
     (\<forall>bs b. bit_string_new (te_crypto env) 0 bs = Some b \<longrightarrow> as_bytes b = Some bs) \<and>
     (\<forall>bs b. octet_string_new (te_crypto env) bs = Some b \<longrightarrow> b = bs) \<and>
     (\<forall>l d. te_eku_to_der env l = Some d \<longrightarrow> te_eku_from_der env d = Some l)"

definition faithful_key :: "'h tls_env \<Rightarrow> ecdsa_pk \<Rightarrow> bytes \<Rightarrow> bool" where
  "faithful_key env k pub \<longleftrightarrow> (\<exists>sgn. from_pkcs8 k = Some (pub, sgn) \<and>
     (\<forall>m s. sgn m = Some s \<longrightarrow> ecdsa_p384_verify (te_crypto env) pub m s))"

definition ext_list :: "certificate \<Rightarrow> extension list" where
  "ext_list c = (case extensions (tbs c) of None \<Rightarrow> [] | Some es \<Rightarrow> es)"

lemma with_extension_Ok [outcome_simps]:
  "with_extension env oid crit v c = Ok d \<longleftrightarrow>
     (\<exists>b. octet_string_new (te_crypto env) v = Some b \<and>
        d = c\<lparr> tbs := (tbs c)\<lparr> extensions :=
          Some (ext_list c @ [\<lparr> extn_id = oid, critical = Some crit, extn_value = Some b \<rparr>]) \<rparr> \<rparr>)"
  by (auto simp: with_extension_def extension_new_def add_extension_def ext_list_def outcome_simps split: option.splits)

lemma find_extension_append:
  "find_extension (es @ fs) oid = (case find_extension es oid of None \<Rightarrow> find_extension fs oid | Some v \<Rightarrow> Some v)"
  by (induction es) (auto split: option.splits)

lemmas extension_oids = EXTENDED_KEY_USAGE_def EXTNID_MIGTD_QUOTE_REPORT_def EXTNID_MIGTD_EVENT_LOG_def
  EXTNID_MIGTD_POLICY_HASH_def EXTNID_MIGTD_TDREPORT_def EXTNID_MIGTD_SERVTD_EXT_def
  EXTNID_MIGTD_TDREPORT_INIT_def KEY_USAGE_EXTENSION_def

text \<open>The common part of every session certificate.\<close>

lemma create_tls_tbs_common_Ok:
  assumes "faithful_codec env" and "create_tls_tbs_common env key key_usage eku = Ok c"
  obtains log where "get_event_log (me_cc (te_mig env)) (te_event_log env) = Ok log"
    "as_bytes (subject_public_key (spki (tbs c))) = Some key"
    "extensions (tbs c) = Some
       [\<lparr> extn_id = KEY_USAGE_EXTENSION, critical = Some True, extn_value = Some key_usage \<rparr>,
        \<lparr> extn_id = EXTENDED_KEY_USAGE, critical = Some False, extn_value = Some eku \<rparr>,
        \<lparr> extn_id = EXTNID_MIGTD_EVENT_LOG, critical = Some False, extn_value = Some log \<rparr>]"
  using assms
  by (auto simp: create_tls_tbs_common_def certificate_new_def set_not_before_def set_not_after_def outcome_simps
      faithful_codec_def ext_list_def Let_def)

lemma rbind_Ok_right: "rbind m Ok = m"
  by (cases m) simp_all

lemma sign_tls_tbs_Ok:
  assumes "faithful_codec env" and "faithful_key env k pub"
    and "as_bytes (subject_public_key (spki (tbs c))) = Some pub" and "sign_tls_tbs env k c = Ok der"
  obtains d where "from_der (te_crypto env) der = Some d" "tbs d = tbs c" "self_signed env d pub"
proof -
  obtain sgn where sgn: "from_pkcs8 k = Some (pub, sgn)"
    "\<And>m s. sgn m = Some s \<Longrightarrow> ecdsa_p384_verify (te_crypto env) pub m s"
    using assms(2) by (auto simp: faithful_key_def)
  obtain body sig b where "tbs_to_der (te_crypto env) (tbs c) = Some body" "sgn body = Some sig"
    "bit_string_new (te_crypto env) 0 sig = Some b" "te_cert_to_der env (c\<lparr> signature_value := b \<rparr>) = Some der"
    using assms(4) sgn(1) by (auto simp: sign_tls_tbs_def ecdsa_sign_def set_signature_def outcome_simps)
  moreover from this have "from_der (te_crypto env) der = Some (c\<lparr> signature_value := b \<rparr>)" "as_bytes b = Some sig"
    using assms(1) by (auto simp: faithful_codec_def)
  ultimately show ?thesis
    using that [of "c\<lparr> signature_value := b \<rparr>"] sgn(2) assms(3) by (auto simp: self_signed_def)
qed

lemma create_certificate_Ok:
  assumes "faithful_codec env" and "faithful_key env k pub"
    and "create_certificate_for_client env k w = Some (Ok (der, quote), w')"
    and "local_peer_data (te_policy env) (te_issuer_chain env) = Some blob"
  obtains cert es log where "from_der (te_crypto env) der = Some cert" "extensions (tbs cert) = Some es"
    "self_signed env cert pub" "migtd_usage env es"
    "get_event_log (me_cc (te_mig env)) (te_event_log env) = Ok log"
    "find_extension es EXTNID_MIGTD_QUOTE_REPORT = Some quote"
    "find_extension es EXTNID_MIGTD_EVENT_LOG = Some log"
    "find_extension es EXTNID_MIGTD_POLICY_HASH = Some (sha384 (te_crypto env) blob)"
    "length (sha384 (te_crypto env) blob) = 48"
proof -
  have pub: "ecdsa_public_key k = Ok pub"
    using assms(2) by (auto simp: faithful_key_def ecdsa_public_key_def outcome_simps)
  have oct: "octet_string_new (te_crypto env) bs = Some b \<Longrightarrow> b = bs" for bs b
    using assms(1) by (auto simp: faithful_codec_def)
  obtain eku key_usage c q h where c: "te_eku_to_der env [SERVER_AUTH, CLIENT_AUTH, MIGTD_EXTENDED_KEY_USAGE] = Some eku"
    "create_tls_tbs_common env pub key_usage eku = Ok c" "q = quote" "h = sha384 (te_crypto env) blob" "length h = 48"
    "sign_tls_tbs env k (c\<lparr> tbs := (tbs c)\<lparr> extensions := Some (ext_list c @
       [\<lparr> extn_id = EXTNID_MIGTD_QUOTE_REPORT, critical = Some False, extn_value = Some q \<rparr>,
        \<lparr> extn_id = EXTNID_MIGTD_POLICY_HASH, critical = Some False, extn_value = Some h \<rparr>]) \<rparr> \<rparr>) = Ok der"
    using assms(3,4) oct pub
    by (auto simp: create_certificate_for_client_def policy_hash_def create_eku_def outcome_simps ext_list_def
        dest!: oct)
  obtain log where log: "get_event_log (me_cc (te_mig env)) (te_event_log env) = Ok log"
    "as_bytes (subject_public_key (spki (tbs c))) = Some pub"
    "extensions (tbs c) = Some
       [\<lparr> extn_id = KEY_USAGE_EXTENSION, critical = Some True, extn_value = Some key_usage \<rparr>,
        \<lparr> extn_id = EXTENDED_KEY_USAGE, critical = Some False, extn_value = Some eku \<rparr>,
        \<lparr> extn_id = EXTNID_MIGTD_EVENT_LOG, critical = Some False, extn_value = Some log \<rparr>]"
    by (rule create_tls_tbs_common_Ok [OF assms(1) c(2)])
  obtain d where d: "from_der (te_crypto env) der = Some d" "self_signed env d pub"
    "tbs d = (tbs c)\<lparr> extensions := Some (ext_list c @
       [\<lparr> extn_id = EXTNID_MIGTD_QUOTE_REPORT, critical = Some False, extn_value = Some q \<rparr>,
        \<lparr> extn_id = EXTNID_MIGTD_POLICY_HASH, critical = Some False, extn_value = Some h \<rparr>]) \<rparr>"
    using sign_tls_tbs_Ok [OF assms(1,2) _ c(6)] log(2) by auto
  have "te_eku_from_der env eku = Some [SERVER_AUTH, CLIENT_AUTH, MIGTD_EXTENDED_KEY_USAGE]"
    using assms(1) c(1) by (auto simp: faithful_codec_def)
  then show ?thesis
    using that [OF d(1) _ d(2) _ log(1)] d(3) log(3) c(3-5)
    by (simp add: ext_list_def extension_oids migtd_usage_def)
qed


text \<open>A platform on which a certificate can be made: every encoder is the identity where it can be, and one
  certificate has an encoding.\<close>

definition toy_report :: tdx_report where
  "toy_report = \<lparr> tr_report_mac = [], tr_tee_tcb_info_hash = [], tr_tee_info_hash = [], tr_tee_tcb_info = [],
     tr_tee_tcb_svn = [], tr_td_info = dec_td_info [] \<rparr>"

definition toy_ext :: "oid \<Rightarrow> bool \<Rightarrow> bytes \<Rightarrow> extension" where
  "toy_ext oid crit v = \<lparr> extn_id = oid, critical = Some crit, extn_value = Some v \<rparr>"

definition toy_cert :: certificate where
  "toy_cert = \<lparr> tbs = \<lparr> version = [2], serial_number = [1],
       tbs_signature = \<lparr> algorithm = ID_EC_SIG_OID, parameters = None \<rparr>, issuer = default_name,
       tbs_validity = \<lparr> not_before = Generalized 0, not_after = Generalized 253402300799 \<rparr>, subject = default_name,
       spki = \<lparr> spki_algorithm = \<lparr> algorithm = ID_EC_PUBKEY_OID, parameters = Some (6, []) \<rparr>,
         subject_public_key = \<lparr> unused_bits = 0, inner = [9] \<rparr> \<rparr>,
       issuer_unique_id = None, subject_unique_id = None,
       extensions = Some [toy_ext KEY_USAGE_EXTENSION True [0x80], toy_ext EXTENDED_KEY_USAGE False [5],
         toy_ext EXTNID_MIGTD_EVENT_LOG False (replicate 33 0), toy_ext EXTNID_MIGTD_QUOTE_REPORT False [3],
         toy_ext EXTNID_MIGTD_POLICY_HASH False (replicate 48 1)] \<rparr>,
     signature_algorithm = \<lparr> algorithm = ID_EC_SIG_OID, parameters = None \<rparr>,
     signature_value = \<lparr> unused_bits = 0, inner = [7] \<rparr> \<rparr>"

definition toy_crypto :: crypto_env where
  "toy_crypto = \<lparr> pem_slice_iter = (\<lambda>_. []), from_der = (\<lambda>d. if d = [1] then Some toy_cert else None),
     tbs_to_der = (\<lambda>_. Some [2]), basic_constraints_from_der = (\<lambda>_. None),
     bit_string_new = (\<lambda>n bs. Some \<lparr> unused_bits = n, inner = bs \<rparr>), octet_string_new = Some,
     generalized_time = Some, ecdsa_p384_verify = (\<lambda>k m s. k = [9] \<and> s = [7]),
     sha384 = (\<lambda>bs. replicate 48 (hd (bs @ [0]))) \<rparr>"

definition toy_mig :: "unit mig_env" where
  "toy_mig = \<lparr> me_crypto = toy_crypto,
     me_json = \<lparr> json_raw_policy = (\<lambda>_. None), json_policy_data = (\<lambda>_. None), json_td_identity = (\<lambda>_. None),
       json_tcb_mapping = (\<lambda>_. None), json_tcb_evaluation_data_number = (\<lambda>_. None) \<rparr>,
     me_pck = \<lparr> from_pem_slice = (\<lambda>_. None), inner_from_der = (\<lambda>_. None), as_octet_string = (\<lambda>_. None) \<rparr>,
     me_cc = \<lparr> reader = (\<lambda>log. Some (0, [])), pcr_header_size = 32, header_size = 66,
       header_bytes = (\<lambda>h. []), ev_firmware_blob2 = 0x8000000A, ev_config_flags = 0xA \<rparr>,
     me_bypass = False, me_mock = False, me_emu = False, me_crl_from_pem = (\<lambda>_. None),
     me_crl_from_der = (\<lambda>_. None), me_u32_from_der = (\<lambda>_. None), me_integrity = (\<lambda>_ _ _. (1, [], 0)),
     me_verify_report = (\<lambda>_. False), me_read_report = (\<lambda>_. None), me_report_bytes = (\<lambda>_. []),
     me_iso8601 = (\<lambda>_. None), me_tdcall_report = (\<lambda>_ h. (Some toy_report, h)),
     me_get_quote = (\<lambda>_ h. Some (Ok [3], h)), me_root_key = None, me_policy = None,
     me_policy_issuer_chain = None \<rparr>"

definition toy_key :: ecdsa_pk where "toy_key = \<lparr> from_pkcs8 = Some ([9], \<lambda>_. Some [7]) \<rparr>"

definition toy_tls :: "unit tls_env" where
  "toy_tls = \<lparr> te_mig = toy_mig, te_policy = Some [1], te_issuer_chain = Some [2],
     te_event_log = Some (replicate 40 0), te_new_key = Some toy_key,
     te_cert_to_der = (\<lambda>c. if c = toy_cert then Some [1] else None),
     te_eku_to_der = (\<lambda>l. if l = [SERVER_AUTH, CLIENT_AUTH, MIGTD_EXTENDED_KEY_USAGE] then Some [5] else None),
     te_eku_from_der = (\<lambda>d. if d = [5] then Some [SERVER_AUTH, CLIENT_AUTH, MIGTD_EXTENDED_KEY_USAGE] else None),
     te_bits_to_der = (\<lambda>b. Some (inner b)), te_any_new = (\<lambda>tag v. Some (tag, v)), te_oid_bytes = (\<lambda>_. []),
     te_report_data = (\<lambda>_. []) \<rparr>"

abbreviation toy_world :: "unit retry_world" where "toy_world \<equiv> \<lparr> rw_host = (), rw_delays = [] \<rparr>"

lemma toy_faithful: "faithful_codec toy_tls" "faithful_key toy_tls toy_key [9]"
  by (auto simp: faithful_codec_def faithful_key_def toy_tls_def toy_mig_def toy_crypto_def toy_key_def as_bytes_def
      split: if_splits)

lemma toy_blob: "local_peer_data (te_policy toy_tls) (te_issuer_chain toy_tls) = Some [1, 0, 0, 0, 1, 1, 0, 0, 0, 2]"
  by (simp add: toy_tls_def local_peer_data_def encode_peer_data_def) code_simp

lemma toy_created: "create_certificate_for_client toy_tls toy_key toy_world = Some (Ok ([1], [3]), toy_world)"
proof -
  have log: "get_event_log (me_cc toy_mig) (Some (replicate 40 0)) = Ok (replicate 33 0)"
    by (simp add: get_event_log_def event_log_size_def toy_mig_def index_range_def slice_def)
  have quote: "gen_quote toy_tls [9] toy_world = Some (Ok [3], toy_world)"
    by (simp add: gen_quote_def prepare_report_data_def digest_sha384_def SHA384_DIGEST_SIZE_def pbind_def pmap_err_def
        get_quote_with_retry_def retry_loop.simps toy_tls_def toy_mig_def toy_crypto_def)
  have hash: "policy_hash toy_tls = Ok (replicate 48 1)"
    using toy_blob by (simp add: policy_hash_def digest_sha384_def SHA384_DIGEST_SIZE_def toy_tls_def toy_mig_def toy_crypto_def)
  have key: "ecdsa_public_key toy_key = Ok [9]" "ecdsa_sign toy_key [2] = Ok [7]"
    by (simp_all add: ecdsa_public_key_def ecdsa_sign_def toy_key_def)
  note env = toy_tls_def toy_mig_def toy_crypto_def
  have common: "create_tls_tbs_common toy_tls [9] [0x80] [5] = Ok (toy_cert\<lparr> signature_value := \<lparr> unused_bits = 0, inner = [] \<rparr>,
      tbs := (tbs toy_cert)\<lparr> extensions := Some [toy_ext KEY_USAGE_EXTENSION True [0x80],
        toy_ext EXTENDED_KEY_USAGE False [5], toy_ext EXTNID_MIGTD_EVENT_LOG False (replicate 33 0)] \<rparr> \<rparr>)"
    using log by (simp add: create_tls_tbs_common_def certificate_new_def set_not_before_def set_not_after_def
        with_extension_def extension_new_def add_extension_def toy_cert_def toy_ext_def env Let_def)
  have sign: "sign_tls_tbs toy_tls toy_key (toy_cert\<lparr> signature_value := b \<rparr>) = Ok [1]" for b
    using key by (simp add: sign_tls_tbs_def set_signature_def toy_cert_def env)
  have add: "with_extension toy_tls EXTNID_MIGTD_QUOTE_REPORT False [3] (toy_cert\<lparr> signature_value := b,
      tbs := (tbs toy_cert)\<lparr> extensions := Some [toy_ext KEY_USAGE_EXTENSION True [0x80],
        toy_ext EXTENDED_KEY_USAGE False [5], toy_ext EXTNID_MIGTD_EVENT_LOG False (replicate 33 0)] \<rparr> \<rparr>) =
      Ok (toy_cert\<lparr> signature_value := b, tbs := (tbs toy_cert)\<lparr> extensions := Some [toy_ext KEY_USAGE_EXTENSION True [0x80],
        toy_ext EXTENDED_KEY_USAGE False [5], toy_ext EXTNID_MIGTD_EVENT_LOG False (replicate 33 0),
        toy_ext EXTNID_MIGTD_QUOTE_REPORT False [3]] \<rparr> \<rparr>)"
    "with_extension toy_tls EXTNID_MIGTD_POLICY_HASH False (replicate 48 1) (toy_cert\<lparr> signature_value := b,
      tbs := (tbs toy_cert)\<lparr> extensions := Some [toy_ext KEY_USAGE_EXTENSION True [0x80],
        toy_ext EXTENDED_KEY_USAGE False [5], toy_ext EXTNID_MIGTD_EVENT_LOG False (replicate 33 0),
        toy_ext EXTNID_MIGTD_QUOTE_REPORT False [3]] \<rparr> \<rparr>) = Ok (toy_cert\<lparr> signature_value := b \<rparr>)" for b
    by (simp_all add: with_extension_def extension_new_def add_extension_def toy_cert_def toy_ext_def env)
  have usage: "create_eku toy_tls = Ok [5]" "create_key_usage toy_tls = Ok [0x80]"
    by (simp_all add: create_eku_def create_key_usage_def env)
  show ?thesis
    by (simp add: create_certificate_for_client_def pbind_def key(1) quote hash usage common add sign)
qed


section \<open>Reporting the verdict\<close>

lemma str_find_prefix: "str_find sub (sub @ s) = Some 0"
  by (cases "sub @ s") (auto simp: append_eq_Cons_conv)

lemma str_find_char: "c \<in> set s \<Longrightarrow> str_find [c] s = Some (length (takeWhile (\<lambda>x. x \<noteq> c) s))"
  by (induction s) auto

lemma takeWhile_snoc: "\<not> P x \<Longrightarrow> takeWhile P (xs @ [x]) = takeWhile P xs"
  by (induction xs) auto

lemma unexpected_no_marker: "str_find TLS_CUSTOM_CALLBACK_ERROR ''Unexpected'' = None"
  by (simp add: TLS_CUSTOM_CALLBACK_ERROR_def)

declare str_find.simps [simp del]

lemma handle_verifier_error:
  "handle_stream_error (TlsLibGeneral (verifier_error e)) =
     Ok (case e of TlsVerifyPeerCert d \<Rightarrow> TlsVerifyPeerCert (takeWhile (\<lambda>x. x \<noteq> CHR '')'') d) | _ \<Rightarrow> TlsStream)"
proof (cases e)
  case (TlsVerifyPeerCert d)
  let ?m = "TLS_CUSTOM_CALLBACK_ERROR"
  let ?desc = "?m @ ''('' @ d @ '')''"
  let ?w = "takeWhile (\<lambda>x. x \<noteq> CHR '')'') d"
  have k: "str_find '')'' (d @ '')'') = Some (length ?w)"
    using str_find_char [of "CHR '')''" "d @ '')''"] by (simp only: takeWhile_snoc) simp
  have "take (length ?w) d = ?w" by (metis takeWhile_eq_take)
  then have w: "slice (0 + length ?m + 1) (0 + length ?m + 1 + length ?w) ?desc = ?w"
    using length_takeWhile_le [of "\<lambda>x. x \<noteq> CHR '')''" d] by (simp add: slice_def)
  have r: "slice (0 + length ?m + 1) (length ?desc) ?desc = d @ '')''" by (simp add: slice_def)
  have m: "str_find ?m ?desc = Some 0" by (rule str_find_prefix)
  have i: "index_range (0 + length ?m + 1) (length ?desc) ?desc = Ok (d @ '')'')"
    unfolding index_range_def r by simp
  show ?thesis
    unfolding TlsVerifyPeerCert handle_stream_error_def verifier_error_def crypto_error.case tls_connection_error.case
      m option.case Let_def i rbind.simps k w by (rule refl)
qed (simp_all add: handle_stream_error_def verifier_error_def unexpected_no_marker)

lemma no_paren: "CHR '')'' \<notin> set d \<Longrightarrow> takeWhile (\<lambda>x. x \<noteq> CHR '')'') d = d"
  by (induction d) auto

text \<open>The only descriptions the callback gives.\<close>

lemma verify_peer_cert_descriptions:
  assumes "verify_peer_cert env is_client der peer_data w = Some (Err (TlsVerifyPeerCert d), w')"
  shows "d \<in> {INVALID_MIG_POLICY_ERROR, MIG_POLICY_UNSATISFIED_ERROR, MISMATCH_PUBLIC_KEY}"
proof -
  have pk: "verify_public_key env r k = Err (TlsVerifyPeerCert d) \<Longrightarrow> d = MISMATCH_PUBLIC_KEY" for r k
    by (auto simp: verify_public_key_def outcome_simps split: if_splits)
  have sig: "verify_signature env c r = Err (TlsVerifyPeerCert d) \<Longrightarrow> d = MISMATCH_PUBLIC_KEY" for c r
    using pk by (auto simp: verify_signature_def ecdsa_verify_def outcome_simps)
  have eku: "check_migtd_eku env es \<noteq> Err (TlsVerifyPeerCert d)" for es
    by (induction es) (auto simp: outcome_simps split: option.splits if_splits)
  have pol: "TlsVerifyPeerCert d = policy_check_error e \<Longrightarrow> d \<in> {INVALID_MIG_POLICY_ERROR, MIG_POLICY_UNSATISFIED_ERROR}" for e
    by (auto simp: policy_check_error_def split: if_splits)
  show ?thesis
    using assms
    by (auto simp: verify_peer_cert_def parse_peer_cert_def check_policy_hash_def outcome_simps pmap_err_def
        dest: sig pol split: if_splits simp: eku)
qed

text \<open>C24: the reason for which the callback refuses a peer survives the passage through the TLS library, which
  keeps only a text: what the migration reports to the VMM is what the reason stands for.\<close>

theorem verify_peer_cert_verdict:
  assumes "verify_peer_cert env is_client der peer_data w = Some (Err e, w')"
  shows "\<exists>e'. handle_stream_error (TlsLibGeneral (verifier_error e)) = (Ok e' :: (unit, crypto_error) outcome) \<and>
    result_of_crypto_error e' = result_of_crypto_error e"
proof (cases e)
  case (TlsVerifyPeerCert d)
  have "d \<in> {INVALID_MIG_POLICY_ERROR, MIG_POLICY_UNSATISFIED_ERROR, MISMATCH_PUBLIC_KEY}"
    using assms verify_peer_cert_descriptions unfolding TlsVerifyPeerCert by metis
  then have "CHR '')'' \<notin> set d"
    by (elim insertE emptyE) (simp_all add: INVALID_MIG_POLICY_ERROR_def MIG_POLICY_UNSATISFIED_ERROR_def
        MISMATCH_PUBLIC_KEY_def)
  then show ?thesis using TlsVerifyPeerCert by (simp add: handle_verifier_error no_paren)
qed (simp_all add: handle_verifier_error result_of_crypto_error_def)

theorem verify_peer_cert_verdict_witness:
  "\<exists>e'. handle_stream_error (TlsLibGeneral (verifier_error (TlsVerifyPeerCert INVALID_MIG_POLICY_ERROR)))
      = (Ok e' :: (unit, crypto_error) outcome) \<and> result_of_crypto_error e' = InvalidPolicyError"
proof -
  have "verify_peer_cert toy_tls True [1] [2] toy_world = Some (Err (TlsVerifyPeerCert INVALID_MIG_POLICY_ERROR), toy_world)"
    by (simp add: verify_peer_cert_def parse_peer_cert_def check_policy_hash_def digest_sha384_def SHA384_DIGEST_SIZE_def
        pbind_def toy_tls_def toy_mig_def toy_crypto_def toy_cert_def toy_ext_def extension_oids)
  moreover have "result_of_crypto_error (TlsVerifyPeerCert INVALID_MIG_POLICY_ERROR) = InvalidPolicyError"
    by (simp add: result_of_crypto_error_def INVALID_MIG_POLICY_ERROR_def MIG_POLICY_UNSATISFIED_ERROR_def)
  ultimately show ?thesis using verify_peer_cert_verdict by metis
qed

end
