(* ===== verification/VmcallRaw.thy ===== *)
theory VmcallRaw
  imports Transport
begin

text \<open>
  The raw VMCALL stream of \<open>src/devices/vmcall_raw\<close>: submission of a payload, completion by
  interrupt and polling, sending in chunks of at most one MTU, and receiving through the packet
  queue.  The VMM is a parameter: shared memory, the two VMCALLs, and what each poll finds (whether
  an interrupt arrived, and the contents of the shared buffer).
\<close>

section \<open>Model\<close>

datatype vmcall_raw_error =
    VrInitialization | VrDeviceNotAvailable | VrNoAvailablePort | VrAddressAlreadyUsed
  | VrTransportError | VrTruncated | VrMalformed | VrIllegal | VrRefused | VrNotReady
  | VrTdVmcallErr | VrVmmCanceled | VrInterrupt

fun vmcall_raw_error_display :: "vmcall_raw_error \<Rightarrow> string" where
  "vmcall_raw_error_display VrInitialization = ''Initialization''"
| "vmcall_raw_error_display VrDeviceNotAvailable = ''DeviceNotAvailable''"
| "vmcall_raw_error_display VrTransportError = ''TransportError''"
| "vmcall_raw_error_display VrTruncated = ''Truncated''"
| "vmcall_raw_error_display VrMalformed = ''Malformed''"
| "vmcall_raw_error_display VrIllegal = ''Illegal''"
| "vmcall_raw_error_display VrRefused = ''REFUSED''"
| "vmcall_raw_error_display VrNoAvailablePort = ''NoAvailablePort''"
| "vmcall_raw_error_display VrAddressAlreadyUsed = ''AddressAlreadyUsed''"
| "vmcall_raw_error_display VrNotReady = ''NotReady''"
| "vmcall_raw_error_display VrTdVmcallErr = ''TdVmcallErr''"
| "vmcall_raw_error_display VrVmmCanceled = ''VmmCanceled''"
| "vmcall_raw_error_display VrInterrupt = ''Interrupt''"

definition io_error_of_vmcall_raw :: "vmcall_raw_error \<Rightarrow> io_error" where
  "io_error_of_vmcall_raw e =
     \<lparr> ioe_kind = (case e of VrVmmCanceled \<Rightarrow> ConnectionAborted | _ \<Rightarrow> Other), 
       ioe_desc = vmcall_raw_error_display e \<rparr>"

record 'h vmm =
  vmm_alloc :: "'h \<Rightarrow> nat \<Rightarrow> bytes option"
  vmm_send :: "'h \<Rightarrow> 64 word \<Rightarrow> bytes \<Rightarrow> bool \<times> 'h"
  vmm_receive :: "'h \<Rightarrow> 64 word \<Rightarrow> bytes \<Rightarrow> bool \<times> 'h"
  vmm_poll :: "'h \<Rightarrow> (bool \<times> bytes) \<times> 'h"

text \<open>A stream, the flags of the migration contexts, and the VMM it talks to.\<close>

record 'h vmcall_raw =
  transport_context :: "64 word"
  data_queue :: "bytes list"
  context_flags :: "64 word \<Rightarrow> bool option"
  host :: 'h

definition VR_PAGE_SIZE :: nat where "VR_PAGE_SIZE = 0x1000"
definition MAX_VMCALL_RAW_STREAM_MTU :: nat where "MAX_VMCALL_RAW_STREAM_MTU = 0x1000 * 16"
definition VMCALL_RAW_GHCI_HEADER_LEN :: nat where "VMCALL_RAW_GHCI_HEADER_LEN = 12"
definition VMCALL_RAW_SEND_PAYLOAD_MTU :: nat where
  "VMCALL_RAW_SEND_PAYLOAD_MTU = MAX_VMCALL_RAW_STREAM_MTU - VMCALL_RAW_GHCI_HEADER_LEN"

definition vr_align_up :: "nat \<Rightarrow> nat option" where
  "vr_align_up n =
     map_option (\<lambda>m. m - m mod VR_PAGE_SIZE) (checked_add_usize n (VR_PAGE_SIZE - 1))"

definition vmcall_raw_new :: "64 word \<Rightarrow> (64 word \<Rightarrow> bool option) \<Rightarrow> 'h \<Rightarrow> 'h vmcall_raw" where
  "vmcall_raw_new mid flags h =
     \<lparr> transport_context = mid, data_queue = [], context_flags = flags, host = h \<rparr>"

definition vmcall_raw_connect ::
    "(vmcall_raw_error, unit) outcome \<Rightarrow> ('h vmcall_raw, vmcall_raw_error, unit) prog" where
  "vmcall_raw_connect register_callback s =
     (case register_callback of
        Ok _ \<Rightarrow> Some (Ok (), s\<lparr> context_flags := (context_flags s)(transport_context s \<mapsto> False) \<rparr>)
      | Err e \<Rightarrow> Some (Err e, s)
      | Panic \<Rightarrow> Some (Panic, s))"

definition vmcall_raw_shutdown :: "('h vmcall_raw, vmcall_raw_error, unit) prog" where
  "vmcall_raw_shutdown s =
     Some (Ok (), s\<lparr> context_flags := (context_flags s)(transport_context s := None) \<rparr>)"

definition vmcall_raw_intr_notification ::
    "(64 word \<Rightarrow> bool option) \<Rightarrow> 64 word \<Rightarrow> bool option" where
  "vmcall_raw_intr_notification flags = (\<lambda>mid. map_option (\<lambda>_. True) (flags mid))"

definition vr_process_buffer ::
    "bytes \<Rightarrow> (vmcall_raw_error, bytes \<times> 64 word \<times> 32 word) outcome" where
  "vr_process_buffer buffer =
     (if length buffer < 12 then Panic
      else Ok (drop 12 buffer, u64_of (slice 0 8 buffer), u32_of (slice 8 12 buffer)))"

definition poll_vmcall_completion ::
    "64 word \<Rightarrow> bytes \<Rightarrow> (64 word \<Rightarrow> bool option)
     \<Rightarrow> (vmcall_raw_error, bytes \<times> 32 word) outcome poll \<times> (64 word \<Rightarrow> bool option)" where
  "poll_vmcall_completion mid data_buffer flags =
     (case flags mid of
        None \<Rightarrow> (Ready (Err VrIllegal), flags)
      | Some False \<Rightarrow> (Pending, flags)
      | Some True \<Rightarrow>
          (let flags' = flags(mid \<mapsto> False) in
           case vr_process_buffer data_buffer of
             Ok (payload, data_status, data_length) \<Rightarrow>
               (let status_bytes = u64_le data_status in
                if status_bytes ! 0 = 2 \<and> status_bytes ! 1 = 3
                  then (Ready (Err VrVmmCanceled), flags')
                else if status_bytes ! 0 \<noteq> 1 then (Pending, flags')
                else (Ready (Ok (payload, data_length)), flags'))
           | Err e \<Rightarrow> (Ready (Err e), flags')
           | Panic \<Rightarrow> (Ready Panic, flags')))"

text \<open>Polling until the completion is ready; an interrupt raises the flag of every context.\<close>

partial_function (option) await_completion ::
    "('h \<Rightarrow> (bool \<times> bytes) \<times> 'h) \<Rightarrow> 64 word \<Rightarrow> (64 word \<Rightarrow> bool option) \<Rightarrow> 'h
     \<Rightarrow> ((vmcall_raw_error, bytes \<times> 32 word) outcome \<times> (64 word \<Rightarrow> bool option) \<times> 'h) option" where
  "await_completion poll mid flags h =
     (let ((irq, data_buffer), h') = poll h;
          flags' = (if irq then vmcall_raw_intr_notification flags else flags)
      in case poll_vmcall_completion mid data_buffer flags' of
           (Pending, flags'') \<Rightarrow> await_completion poll mid flags'' h'
         | (Ready r, flags'') \<Rightarrow> Some (r, flags'', h'))"

definition await :: "'h vmm \<Rightarrow> ('h vmcall_raw, vmcall_raw_error, bytes \<times> 32 word) prog" where
  "await vmm s =
     map_option (\<lambda>(r, flags, h). (r, s\<lparr> context_flags := flags, host := h \<rparr>))
       (await_completion (vmm_poll vmm) (transport_context s) (context_flags s) (host s))"

definition vmcall_service_migtd_send ::
    "'h vmm \<Rightarrow> bytes \<Rightarrow> ('h vmcall_raw, vmcall_raw_error, nat) prog" where
  "vmcall_service_migtd_send vmm data_buffer s =
     (case vmm_send vmm (host s) (transport_context s) data_buffer of
        (ok, h) \<Rightarrow>
          let s' = s\<lparr> host := h \<rparr> in
          if ok then pbind (await vmm) (\<lambda>_. plift (Ok 0)) s' else Some (Err VrTdVmcallErr, s'))"

definition vmcall_service_migtd_receive ::
    "'h vmm \<Rightarrow> bytes \<Rightarrow> ('h vmcall_raw, vmcall_raw_error, bytes) prog" where
  "vmcall_service_migtd_receive vmm data_buffer s =
     (case vmm_receive vmm (host s) (transport_context s) data_buffer of
        (ok, h) \<Rightarrow>
          let s' = s\<lparr> host := h \<rparr> in
          if ok
          then pbind (await vmm) (\<lambda>(payload, data_length).
                 if data_length = 0 then plift (Err VrMalformed)
                 else plift (ok_or VrTdVmcallErr (get_range 0 (unat data_length) payload))) s'
          else Some (Err VrTdVmcallErr, s'))"

definition vmcall_raw_transport_enqueue ::
    "'h vmm \<Rightarrow> bytes \<Rightarrow> ('h vmcall_raw, vmcall_raw_error, nat) prog" where
  "vmcall_raw_transport_enqueue vmm buf s =
     (if 2 ^ 32 \<le> length buf then Some (Err VrIllegal, s)
      else
        let data_length = word_of_nat (length buf) :: 32 word in
        pbind (plift (ok_or VrIllegal (checked_add_usize 12 (length buf)))) (\<lambda>data_buffer_size.
        pbind (plift (ok_or VrIllegal (vr_align_up data_buffer_size))) (\<lambda>aligned.
        pbind (plift (ok_or VrIllegal (vmm_alloc vmm (host s) (aligned div VR_PAGE_SIZE)))) (\<lambda>mem.
          if length mem < 12 + length buf then plift Panic
          else vmcall_service_migtd_send vmm
                 (take data_buffer_size
                   (overwrite 12 buf (overwrite 0 (u64_le 0 @ u32_le data_length) mem)))))) s)"

definition vmcall_raw_transport_dequeue ::
    "'h vmm \<Rightarrow> ('h vmcall_raw, vmcall_raw_error, bytes) prog" where
  "vmcall_raw_transport_dequeue vmm s =
     (case vmm_alloc vmm (host s) (MAX_VMCALL_RAW_STREAM_MTU div VR_PAGE_SIZE) of
        None \<Rightarrow> Some (Err VrIllegal, s)
      | Some mem \<Rightarrow> vmcall_service_migtd_receive vmm mem s)"

definition vmcall_raw_transport_can_recv :: "(unit, bool) outcome" where
  "vmcall_raw_transport_can_recv = Ok False"

function send_chunks ::
    "'h vmm \<Rightarrow> bytes \<Rightarrow> nat \<Rightarrow> ('h vmcall_raw, vmcall_raw_error, nat) prog" where
  "send_chunks vmm buf sent s =
     (if sent < length buf
      then let stop = min (length buf) (sent + VMCALL_RAW_SEND_PAYLOAD_MTU) in
        (case vmcall_raw_transport_enqueue vmm (slice sent stop buf) s of
           None \<Rightarrow> None
         | Some (Ok _, s') \<Rightarrow> send_chunks vmm buf stop s'
         | Some (Err e, s') \<Rightarrow> Some (Err e, s')
         | Some (Panic, s') \<Rightarrow> Some (Panic, s'))
      else Some (Ok (length buf), s))"
  by pat_completeness auto
termination
  by (relation "measure (\<lambda>(vmm, buf, sent, s). length buf - sent)")
     (auto simp: VMCALL_RAW_SEND_PAYLOAD_MTU_def MAX_VMCALL_RAW_STREAM_MTU_def
        VMCALL_RAW_GHCI_HEADER_LEN_def)

definition vmcall_raw_send :: "'h vmm \<Rightarrow> bytes \<Rightarrow> ('h vmcall_raw, vmcall_raw_error, nat) prog" where
  "vmcall_raw_send vmm buf = send_chunks vmm buf 0"

definition recv_packet_connected :: "'h vmm \<Rightarrow> ('h vmcall_raw, vmcall_raw_error, unit) prog" where
  "recv_packet_connected vmm =
     pbind (vmcall_raw_transport_dequeue vmm) (\<lambda>recv s.
       Some (Ok (), if recv = [] then s else s\<lparr> data_queue := data_queue s @ [recv] \<rparr>))"

partial_function (option) recv_packets ::
    "'h vmm \<Rightarrow> 'h vmcall_raw \<Rightarrow> ((vmcall_raw_error, unit) outcome \<times> 'h vmcall_raw) option" where
  "recv_packets vmm s =
     (case recv_packet_connected vmm s of
        None \<Rightarrow> None
      | Some (Err e, s') \<Rightarrow> Some (Err e, s')
      | Some (Panic, s') \<Rightarrow> Some (Panic, s')
      | Some (Ok _, s') \<Rightarrow>
          (case vmcall_raw_transport_can_recv of
             Ok again \<Rightarrow> if again then recv_packets vmm s' else Some (Ok (), s')
           | Err _ \<Rightarrow> Some (Err VrIllegal, s')
           | Panic \<Rightarrow> Some (Panic, s')))"

text \<open>The copy loop of \<open>recv\<close>: the bytes put into a buffer with \<open>free\<close> bytes left, and the queue.\<close>

fun take_queue :: "bytes list \<Rightarrow> nat \<Rightarrow> bytes \<times> bytes list" where
  "take_queue [] free = ([], [])"
| "take_queue (head # queue) free =
     (if free = 0 then ([], head # queue)
      else if length head \<le> free
        then (case take_queue queue (free - length head) of (out, rest) \<Rightarrow> (head @ out, rest))
        else (take free head, drop free head # queue))"

definition vmcall_raw_recv ::
    "'h vmm \<Rightarrow> nat \<Rightarrow> ('h vmcall_raw, vmcall_raw_error, bytes) prog" where
  "vmcall_raw_recv vmm buflen s =
     pbind (\<lambda>s. if data_queue s = [] then recv_packets vmm s else Some (Ok (), s))
       (\<lambda>_ s. case take_queue (data_queue s) buflen of
          (out, rest) \<Rightarrow> Some (Ok out, s\<lparr> data_queue := rest \<rparr>)) s"

text \<open>The \<open>AsyncWrite\<close> and \<open>AsyncRead\<close> instances.\<close>

definition vmcall_raw_write :: "'h vmm \<Rightarrow> 'h vmcall_raw writer" where
  "vmcall_raw_write vmm s buf = pmap_err io_error_of_vmcall_raw (vmcall_raw_send vmm buf) s"

definition vmcall_raw_read :: "'h vmm \<Rightarrow> 'h vmcall_raw reader" where
  "vmcall_raw_read vmm s buflen = pmap_err io_error_of_vmcall_raw (vmcall_raw_recv vmm buflen) s"

section \<open>The receive queue keeps the byte stream\<close>

lemma take_queue_concat:
  "take_queue queue free = (out, rest) \<Longrightarrow> concat queue = out @ concat rest \<and> length out \<le> free"
proof (induction queue free arbitrary: out rest rule: take_queue.induct)
  case (2 head queue free)
  then show ?case by (auto split: if_splits prod.splits)
qed simp

lemma take_queue_nonempty:
  "take_queue queue free = (out, rest) \<Longrightarrow> \<forall>p \<in> set queue. p \<noteq> [] \<Longrightarrow>
     (\<forall>p \<in> set rest. p \<noteq> []) \<and> (0 < free \<longrightarrow> queue \<noteq> [] \<longrightarrow> out \<noteq> [])"
proof (induction queue free arbitrary: out rest rule: take_queue.induct)
  case (2 head queue free)
  then show ?case by (auto split: if_splits prod.splits)
qed simp

section \<open>A VMM that delivers\<close>

text \<open>
  The environment the stream is meant for: a VMM that completes every send with an interrupt, and
  completes a receive as soon as the peer has sent a packet.  \<open>f_accepted\<close> is what it has taken
  from this side, \<open>f_packets\<close> what is waiting for it.
\<close>

record fifo =
  f_accepted :: bytes
  f_packets :: "bytes list"
  f_done :: bool
  f_buffer :: bytes

definition fifo_receive :: "fifo \<Rightarrow> bytes \<Rightarrow> fifo" where
  "fifo_receive h buf = (case f_packets h of
     [] \<Rightarrow> h\<lparr> f_done := False, f_buffer := buf \<rparr>
   | p # ps \<Rightarrow> h\<lparr> f_packets := ps, f_done := True,
       f_buffer := overwrite 0 (u64_le 1 @ u32_le (word_of_nat (length p)) @ p) buf \<rparr>)"

definition fifo_vmm :: "fifo vmm" where
  "fifo_vmm =
     \<lparr> vmm_alloc = \<lambda>h n. Some (replicate (n * VR_PAGE_SIZE) 0),
       vmm_send = \<lambda>h mid buf. (True, h\<lparr> f_accepted := f_accepted h @ drop 12 buf, f_done := True,
         f_buffer := u64_le 1 @ drop 8 buf \<rparr>),
       vmm_receive = \<lambda>h mid buf. (True, fifo_receive h buf),
       vmm_poll = \<lambda>h. ((f_done h, f_buffer h), h) \<rparr>"

definition vr_connected :: "fifo vmcall_raw \<Rightarrow> bool" where
  "vr_connected s \<longleftrightarrow> context_flags s (transport_context s) \<noteq> None
     \<and> (\<forall>p \<in> set (data_queue s). p \<noteq> [])
     \<and> (\<forall>p \<in> set (f_packets (host s)). p \<noteq> [] \<and> length p \<le> VMCALL_RAW_SEND_PAYLOAD_MTU)"

definition vr_outgoing :: "fifo vmcall_raw \<Rightarrow> bytes" where
  "vr_outgoing s = f_accepted (host s)"

definition vr_incoming :: "fifo vmcall_raw \<Rightarrow> bytes" where
  "vr_incoming s = concat (data_queue s) @ concat (f_packets (host s))"

lemmas vr_view_defs = vr_connected_def vr_outgoing_def vr_incoming_def
lemmas vr_size_defs = VMCALL_RAW_SEND_PAYLOAD_MTU_def MAX_VMCALL_RAW_STREAM_MTU_def
  VMCALL_RAW_GHCI_HEADER_LEN_def VR_PAGE_SIZE_def

lemma status_byte_one: "u64_le 1 ! 0 = 1"
  by (simp add: u64_le_def nth_le_encode_0)

lemma await_done:
  assumes "context_flags s (transport_context s) \<noteq> None"
    and "f_done (host s)" and "f_buffer (host s) = u64_le 1 @ u32_le n @ payload"
  shows "\<exists>flags. flags (transport_context s) = Some False
    \<and> await fifo_vmm s = Some (Ok (payload, n), s\<lparr> context_flags := flags \<rparr>)"
proof -
  let ?mid = "transport_context s"
  obtain b where "context_flags s ?mid = Some b" using assms(1) by blast
  then have flag: "vmcall_raw_intr_notification (context_flags s) ?mid = Some True"
    by (simp add: vmcall_raw_intr_notification_def)
  have pb: "vr_process_buffer (f_buffer (host s)) = Ok (payload, 1, n)"
    by (simp add: assms(3) vr_process_buffer_def slice_def)
  from flag pb status_byte_one show ?thesis
    by (intro exI [of _ "(vmcall_raw_intr_notification (context_flags s))(?mid \<mapsto> False)"])
       (simp add: await_def fifo_vmm_def await_completion.simps [of _ ?mid] assms(2)
          poll_vmcall_completion_def Let_def)
qed


lemma await_blocked:
  assumes "await_completion poll mid flags h = Some r"
    and "poll h = ((False, buf), h)" and "12 \<le> length buf" and "slice 0 8 buf = replicate 8 0"
    and "flags mid \<noteq> None"
  shows False
proof -
  let ?P = "\<lambda>poll' mid' flags h' r. poll' = poll \<longrightarrow> mid' = mid \<longrightarrow> h' = h \<longrightarrow> flags mid \<noteq> None \<longrightarrow> False"
  have z: "u64_le (u64_of (replicate 8 0)) ! 0 = 0" by (simp add: u64_le_u64_of)
  have "?P poll mid flags h r"
  proof (rule await_completion.raw_induct [where P = ?P, OF _ assms(1)], intro impI, goal_cases)
    case (1 f poll' mid' flags h' r)
    then obtain b where "flags mid = Some b" by blast
    with 1 assms z have "f poll mid (if b then flags(mid \<mapsto> False) else flags) h = Some r"
      by (cases b) (auto simp: poll_vmcall_completion_def vr_process_buffer_def Let_def)
    with "1"(1) [OF this] \<open>flags mid = Some b\<close> show ?case by (simp split: if_splits)
  qed
  with assms(5) show False by simp
qed

lemma enqueue_delivers:
  assumes "vr_connected s" and "length buf \<le> VMCALL_RAW_SEND_PAYLOAD_MTU"
  shows "\<exists>s'. vmcall_raw_transport_enqueue fifo_vmm buf s = Some (Ok 0, s') \<and> vr_connected s'
    \<and> vr_outgoing s' = vr_outgoing s @ buf \<and> vr_incoming s' = vr_incoming s"
proof -
  let ?n = "word_of_nat (length buf) :: 32 word"
  let ?pages = "(12 + length buf + 4095) div 4096"
  have len: "length buf \<le> 65524" using assms(2) by (simp add: vr_size_defs)
  have al: "vr_align_up (12 + length buf) = Some (?pages * 4096)"
    using len by (simp add: vr_align_up_def checked_add_usize_def VR_PAGE_SIZE_def
        minus_mod_eq_div_mult)
  have cover: "12 + length buf \<le> ?pages * 4096" by linarith
  let ?frame = "u64_le 0 @ u32_le ?n @ buf"
  have frame: "take (12 + length buf) (overwrite 12 buf
      (overwrite 0 (u64_le 0 @ u32_le ?n) (replicate (?pages * 4096) 0))) = ?frame"
    using cover by (simp add: overwrite_def)
  define h where "h = (host s)\<lparr> f_accepted := f_accepted (host s) @ buf, f_done := True,
      f_buffer := u64_le 1 @ u32_le ?n @ buf \<rparr>"
  have "context_flags s (transport_context s) \<noteq> None" using assms(1) by (simp add: vr_connected_def)
  then obtain flags where fl: "flags (transport_context s) = Some False"
    and aw: "await fifo_vmm (s\<lparr> host := h \<rparr>) =
      Some (Ok (buf, ?n), s\<lparr> host := h, context_flags := flags \<rparr>)"
    using await_done [of "s\<lparr> host := h \<rparr>" ?n buf] by (auto simp: h_def)
  have "vmm_send fifo_vmm (host s) (transport_context s) ?frame = (True, h)"
    by (simp add: fifo_vmm_def h_def)
  then have "vmcall_service_migtd_send fifo_vmm ?frame s =
      Some (Ok 0, s\<lparr> host := h, context_flags := flags \<rparr>)"
    using aw by (simp add: vmcall_service_migtd_send_def pbind_def)
  then have "vmcall_raw_transport_enqueue fifo_vmm buf s =
      Some (Ok 0, s\<lparr> host := h, context_flags := flags \<rparr>)"
    using len al frame cover
    by (simp add: vmcall_raw_transport_enqueue_def checked_add_usize_def pbind_def Let_def
          VR_PAGE_SIZE_def fifo_vmm_def)
  then show ?thesis
    using assms(1) fl by (auto simp: vr_view_defs h_def)
qed


lemma recv_packets_eq: "recv_packets vmm s = recv_packet_connected vmm s"
  by (subst recv_packets.simps)
     (auto simp: vmcall_raw_transport_can_recv_def split: option.splits outcome.splits)

lemma dequeue_packet:
  assumes "vr_connected s" and "f_packets (host s) = p # ps"
  shows "\<exists>s'. vmcall_raw_transport_dequeue fifo_vmm s = Some (Ok p, s') \<and> vr_connected s'
    \<and> data_queue s' = data_queue s \<and> f_packets (host s') = ps \<and> vr_outgoing s' = vr_outgoing s"
proof -
  let ?n = "word_of_nat (length p) :: 32 word"
  let ?mem = "replicate (16 * 4096) 0 :: bytes"
  have p: "p \<noteq> []" "length p \<le> 65524"
    using assms by (auto simp: vr_connected_def vr_size_defs)
  then have n: "unat ?n = length p" "?n \<noteq> 0"
    by (auto simp: unsigned_of_nat take_bit_eq_mod word_unat_eq_iff)
  define h where "h = fifo_receive (host s) ?mem"
  let ?pad = "replicate (16 * 4096 - (12 + length p)) 0 :: bytes"
  have h: "f_done h" "f_buffer h = u64_le 1 @ u32_le ?n @ p @ ?pad" "f_packets h = ps"
    "f_accepted h = f_accepted (host s)"
    using assms(2) by (simp_all add: h_def fifo_receive_def overwrite_def)
  have "context_flags s (transport_context s) \<noteq> None" using assms(1) by (simp add: vr_connected_def)
  then obtain flags where fl: "flags (transport_context s) = Some False"
    and aw: "await fifo_vmm (s\<lparr> host := h \<rparr>) =
      Some (Ok (p @ ?pad, ?n), s\<lparr> host := h, context_flags := flags \<rparr>)"
    using await_done [of "s\<lparr> host := h \<rparr>" ?n "p @ ?pad"] h by auto
  have "vmm_receive fifo_vmm (host s) (transport_context s) ?mem = (True, h)"
    by (simp add: fifo_vmm_def h_def)
  then have "vmcall_service_migtd_receive fifo_vmm ?mem s =
      Some (Ok p, s\<lparr> host := h, context_flags := flags \<rparr>)"
    using aw n by (simp add: vmcall_service_migtd_receive_def pbind_def get_range_def slice_def)
  then have "vmcall_raw_transport_dequeue fifo_vmm s =
      Some (Ok p, s\<lparr> host := h, context_flags := flags \<rparr>)"
    by (simp add: vmcall_raw_transport_dequeue_def fifo_vmm_def vr_size_defs)
  then show ?thesis
    using assms fl h by (auto simp: vr_view_defs)
qed

lemma dequeue_blocked:
  assumes "vr_connected s" and "f_packets (host s) = []"
  shows "vmcall_raw_transport_dequeue fifo_vmm s = None"
proof -
  let ?mem = "replicate (16 * 4096) 0 :: bytes"
  define h where "h = (host s)\<lparr> f_done := False, f_buffer := ?mem \<rparr>"
  have fl: "context_flags s (transport_context s) \<noteq> None" using assms(1) by (simp add: vr_connected_def)
  have "vmm_poll fifo_vmm h = ((False, ?mem), h)"
    by (simp add: fifo_vmm_def h_def)
  then have "await_completion (vmm_poll fifo_vmm) (transport_context s) (context_flags s) h = None"
    using await_blocked [of "vmm_poll fifo_vmm" "transport_context s" "context_flags s" h _ ?mem] fl
    by (cases "await_completion (vmm_poll fifo_vmm) (transport_context s) (context_flags s) h")
       (auto simp: slice_def)
  moreover have "vmm_receive fifo_vmm (host s) (transport_context s) ?mem = (True, h)"
    using assms(2) by (simp add: fifo_vmm_def fifo_receive_def h_def)
  moreover have "vmm_alloc fifo_vmm (host s) (MAX_VMCALL_RAW_STREAM_MTU div VR_PAGE_SIZE) = Some ?mem"
    by (simp add: fifo_vmm_def vr_size_defs)
  ultimately show ?thesis
    by (simp add: vmcall_raw_transport_dequeue_def vmcall_service_migtd_receive_def pbind_def
          await_def)
qed

lemma recv_packet_cases:
  assumes "vr_connected s"
  shows "if f_packets (host s) = [] then recv_packets fifo_vmm s = None
    else \<exists>s'. recv_packets fifo_vmm s = Some (Ok (), s') \<and> vr_connected s'
      \<and> vr_incoming s' = vr_incoming s \<and> vr_outgoing s' = vr_outgoing s
      \<and> data_queue s' = data_queue s @ [hd (f_packets (host s))]"
proof (cases "f_packets (host s)")
  case Nil
  with dequeue_blocked [OF assms] show ?thesis
    by (simp add: recv_packets_eq recv_packet_connected_def pbind_def)
next
  case (Cons p ps)
  from dequeue_packet [OF assms Cons] obtain s' where
    d: "vmcall_raw_transport_dequeue fifo_vmm s = Some (Ok p, s')" and s': "vr_connected s'"
      "data_queue s' = data_queue s" "f_packets (host s') = ps" "vr_outgoing s' = vr_outgoing s" by blast
  have "p \<noteq> []" using assms Cons by (simp add: vr_connected_def)
  with d s' Cons show ?thesis
    by (auto simp: recv_packets_eq recv_packet_connected_def pbind_def vr_view_defs)
qed


lemma send_chunks_delivers:
  assumes "vr_connected s" and "sent \<le> length buf"
  shows "\<exists>s'. send_chunks fifo_vmm buf sent s = Some (Ok (length buf), s') \<and> vr_connected s'
    \<and> vr_outgoing s' = vr_outgoing s @ drop sent buf \<and> vr_incoming s' = vr_incoming s"
  using assms
proof (induction "length buf - sent" arbitrary: sent s rule: less_induct)
  case less
  show ?case
  proof (cases "sent < length buf")
    case False
    with less.prems show ?thesis by (subst send_chunks.simps) auto
  next
    case True
    let ?stop = "min (length buf) (sent + VMCALL_RAW_SEND_PAYLOAD_MTU)"
    have mtu: "0 < VMCALL_RAW_SEND_PAYLOAD_MTU" by (simp add: vr_size_defs)
    have "length (slice sent ?stop buf) \<le> VMCALL_RAW_SEND_PAYLOAD_MTU" by simp
    from enqueue_delivers [OF less.prems(1) this] obtain s1 where
      enq: "vmcall_raw_transport_enqueue fifo_vmm (slice sent ?stop buf) s = Some (Ok 0, s1)"
      and s1: "vr_connected s1" "vr_outgoing s1 = vr_outgoing s @ slice sent ?stop buf"
        "vr_incoming s1 = vr_incoming s" by blast
    have "length buf - ?stop < length buf - sent" and "?stop \<le> length buf" using True mtu by auto
    from less.hyps [OF this(1) s1(1) this(2)] obtain s2 where
      rest: "send_chunks fifo_vmm buf ?stop s1 = Some (Ok (length buf), s2)" "vr_connected s2"
        "vr_outgoing s2 = vr_outgoing s1 @ drop ?stop buf" "vr_incoming s2 = vr_incoming s1" by blast
    have "slice sent ?stop buf @ drop ?stop buf = drop sent buf"
      using True by (simp add: slice_def) (metis (no_types, lifting) append_take_drop_id drop_drop
          le_add_diff_inverse2 less_or_eq_imp_le min.bounded_iff le_add1)
    moreover have "send_chunks fifo_vmm buf sent s = Some (Ok (length buf), s2)"
      using True enq rest(1) by (subst send_chunks.simps) (simp del: send_chunks.simps)
    ultimately show ?thesis using s1 rest by auto
  qed
qed

interpretation vmcall_fifo: live_transport "vmcall_raw_write fifo_vmm" "vmcall_raw_read fifo_vmm"
    vr_outgoing vr_incoming vr_connected
proof (unfold_locales, goal_cases)
  case (1 t bs n t')
  from send_chunks_delivers [OF 1(1), of 0 bs] 1(2) show ?case
    by (auto simp: vmcall_raw_write_def vmcall_raw_send_def outcome_simps simp del: send_chunks.simps)
next
  case (2 t k chunk t')
  then obtain s where s: "(if data_queue t = [] then recv_packets fifo_vmm t else Some (Ok (), t))
        = Some (Ok (), s)"
    and out: "chunk = fst (take_queue (data_queue s) k)"
    and t': "t' = s\<lparr> data_queue := snd (take_queue (data_queue s) k) \<rparr>"
    by (auto simp: vmcall_raw_read_def vmcall_raw_recv_def outcome_simps case_prod_unfold)
  then have tq: "take_queue (data_queue s) k = (chunk, data_queue t')" by simp
  have "vr_connected s \<and> vr_incoming s = vr_incoming t \<and> vr_outgoing s = vr_outgoing t"
    using s recv_packet_cases [OF 2(1)] 2(1) by (auto split: if_splits)
  then show ?case
    using take_queue_concat [OF tq] take_queue_nonempty [OF tq] t' by (auto simp: vr_view_defs)
next
  case (3 t bs)
  from send_chunks_delivers [OF 3(1), of 0 bs] 3(2) show ?case
    by (auto simp: vmcall_raw_write_def vmcall_raw_send_def outcome_simps simp del: send_chunks.simps)
next
  case (4 t k)
  obtain s where s: "(if data_queue t = [] then recv_packets fifo_vmm t else Some (Ok (), t))
        = Some (Ok (), s)" and c: "vr_connected s" and ne: "data_queue s \<noteq> []"
  proof (cases "data_queue t = []")
    case True
    then have "f_packets (host t) \<noteq> []" using 4(3) by (auto simp: vr_incoming_def)
    with recv_packet_cases [OF 4(1)] True that show ?thesis by auto
  next
    case False
    with 4(1) that [of t] show ?thesis by simp
  qed
  obtain out rest where tq: "take_queue (data_queue s) k = (out, rest)" by fastforce
  have "out \<noteq> []" using take_queue_nonempty [OF tq] c ne 4(2) by (auto simp: vr_connected_def)
  with s tq show ?case
    by (auto simp: vmcall_raw_read_def vmcall_raw_recv_def outcome_simps split: prod.splits)
qed


text \<open>
  Over a VMM that delivers, sending a buffer of any length on the raw VMCALL stream returns,
  reports the whole buffer as sent, and delivers exactly its bytes in order, although each VMCALL
  carries at most one MTU and completes only after an interrupt.
\<close>
theorem vmcall_raw_send_delivers:
  assumes "vr_connected s"
  shows "\<exists>s'. vmcall_raw_send fifo_vmm buf s = Some (Ok (length buf), s') \<and> vr_connected s'
    \<and> vr_outgoing s' = vr_outgoing s @ buf \<and> vr_incoming s' = vr_incoming s"
  using send_chunks_delivers [OF assms, of 0 buf] by (simp add: vmcall_raw_send_def)

theorem vmcall_raw_send_delivers_witness:
  "\<exists>s'. vmcall_raw_send fifo_vmm (replicate 70000 7)
      (vmcall_raw_new 1 [1 \<mapsto> False]
        \<lparr> f_accepted = [9], f_packets = [[4, 5]], f_done = False, f_buffer = [] \<rparr>)
    = Some (Ok 70000, s') \<and> vr_connected s'
    \<and> vr_outgoing s' = 9 # replicate 70000 7 \<and> vr_incoming s' = [4, 5]"
  using vmcall_raw_send_delivers [of "vmcall_raw_new 1 [1 \<mapsto> False]
        \<lparr> f_accepted = [9], f_packets = [[4, 5]], f_done = False, f_buffer = [] \<rparr>" "replicate 70000 7"]
  by (simp add: vmcall_raw_new_def vr_view_defs vr_size_defs)

end
