(* ===== verification/TlsChannel.thy ===== *)
theory TlsChannel
  imports RaTls VmcallRaw
begin

text \<open>
  The secure channel over a transport, from \<open>src/crypto/src/rustls_impl/tls.rs\<close> (module \<open>connection\<close>): the
  record buffers, the queue of received application data, and the handshake, read and write loops
  that drive the TLS library's state machine, which is a parameter.
\<close>

section \<open>Model\<close>

text \<open>\<open>loop\<close>: the body returns a value to leave the loop with, or nothing to go round again.\<close>

partial_function (option) run_loop :: "('s, 'e, 'a option) prog \<Rightarrow> ('s, 'e, 'a) prog" where
  "run_loop body s =
     (case body s of
        None \<Rightarrow> None
      | Some (Ok None, s') \<Rightarrow> run_loop body s'
      | Some (Ok (Some x), s') \<Rightarrow> Some (Ok x, s')
      | Some (Err e, s') \<Rightarrow> Some (Err e, s')
      | Some (Panic, s') \<Rightarrow> Some (Panic, s'))"

subsection \<open>Record buffers\<close>

definition TLS_BUFFER_SIZE :: nat where "TLS_BUFFER_SIZE = 16 * 0x1000"
definition APP_DATA_BUFFER_LIMIT :: nat where "APP_DATA_BUFFER_LIMIT = 0x1000"

record tls_buffer =
  tb_inner :: bytes
  tb_used :: nat

definition tls_buffer_new :: tls_buffer where
  "tls_buffer_new = \<lparr> tb_inner = replicate TLS_BUFFER_SIZE 0, tb_used = 0 \<rparr>"

definition buffer_used :: "tls_buffer \<Rightarrow> bytes" where
  "buffer_used b = take (tb_used b) (tb_inner b)"

definition buffer_space :: "tls_buffer \<Rightarrow> nat" where
  "buffer_space b = length (tb_inner b) - tb_used b"

definition buffer_reset :: "tls_buffer \<Rightarrow> tls_buffer" where
  "buffer_reset b = \<lparr> tb_inner = replicate (tb_used b) 0 @ drop (tb_used b) (tb_inner b), tb_used = 0 \<rparr>"

text \<open>\<open>consume\<close> after \<open>chunk\<close> has been written to the front of the unused part.\<close>

definition buffer_fill :: "bytes \<Rightarrow> tls_buffer \<Rightarrow> tls_buffer" where
  "buffer_fill chunk b =
     \<lparr> tb_inner = overwrite (tb_used b) chunk (tb_inner b),
       tb_used = min (tb_used b + length chunk) (length (tb_inner b)) \<rparr>"

definition buffer_discard :: "nat \<Rightarrow> tls_buffer \<Rightarrow> ('e, tls_buffer) outcome" where
  "buffer_discard n b =
     (if n \<le> tb_used b \<and> tb_used b \<le> length (tb_inner b)
      then Ok \<lparr> tb_inner = slice n (tb_used b) (tb_inner b) @ replicate n 0 @ drop (tb_used b) (tb_inner b),
                tb_used = tb_used b - n \<rparr>
      else Panic)"

text \<open>The library either writes its output into the space given, or says how much it needs.\<close>

datatype size_error = InsufficientSize nat | EncodeOther

definition resize :: "nat \<Rightarrow> bytes \<Rightarrow> bytes" where
  "resize n bs = take n bs @ replicate (n - length bs) 0"

definition try_or_resize_and_retry ::
    "(nat \<Rightarrow> 'k \<Rightarrow> (size_error, bytes) outcome \<times> 'k) \<Rightarrow> tls_connection_error \<Rightarrow> 'k \<times> tls_buffer
     \<Rightarrow> (tls_connection_error, nat) outcome \<times> 'k \<times> tls_buffer" where
  "try_or_resize_and_retry f other s =
     (case s of (k, b) \<Rightarrow>
        (case f (buffer_space b) k of
           (Ok out, k') \<Rightarrow> (Ok (length out), k', buffer_fill out b)
         | (Panic, k') \<Rightarrow> (Panic, k', b)
         | (Err EncodeOther, k') \<Rightarrow> (Err other, k', b)
         | (Err (InsufficientSize n), k') \<Rightarrow>
             (let b' = b\<lparr> tb_inner := resize (tb_used b + n) (tb_inner b) \<rparr> in
              case f (buffer_space b') k' of
                (Ok out, k'') \<Rightarrow> (Ok (length out), k'', buffer_fill out b')
              | (Err _, k'') \<Rightarrow> (Err TlsEncode, k'', b')
              | (Panic, k'') \<Rightarrow> (Panic, k'', b'))))"

subsection \<open>Received application data\<close>

text \<open>\<open>ChunkVecBuffer\<close>: the chunks in the order they came.\<close>

definition chunks_len :: "bytes list \<Rightarrow> nat" where
  "chunks_len chunks = foldl (\<lambda>n ch. n + length ch) 0 chunks"

definition is_full :: "bytes list \<Rightarrow> bool" where
  "is_full chunks \<longleftrightarrow> chunks_len chunks > APP_DATA_BUFFER_LIMIT"

definition chunks_append :: "bytes \<Rightarrow> bytes list \<Rightarrow> bytes list" where
  "chunks_append bs chunks = (if bs \<noteq> [] then chunks @ [bs] else chunks)"

fun chunks_consume :: "nat \<Rightarrow> bytes list \<Rightarrow> bytes list" where
  "chunks_consume used [] = []"
| "chunks_consume used (buf # chunks) =
     (if used < length buf then drop used buf # chunks
      else chunks_consume (used - length buf) chunks)"

lemma length_chunks_consume: "length (chunks_consume used chunks) \<le> length chunks"
  by (induction used chunks rule: chunks_consume.induct) auto

lemma chunks_consume_first: "length (chunks_consume (length c) (c # chunks)) < length (c # chunks)"
  using length_chunks_consume [of 0 chunks] by simp

text \<open>\<open>read\<close> into a buffer of \<open>n\<close> bytes: the bytes read and the chunks left.\<close>

function chunks_read :: "nat \<Rightarrow> bytes list \<Rightarrow> bytes \<times> bytes list" where
  "chunks_read n [] = ([], [])"
| "chunks_read n (c # chunks) =
     (if n = 0 then ([], c # chunks)
      else
        let used = (if n \<ge> length c then length c else n);
            (bs, rest) = chunks_read (n - used) (chunks_consume used (c # chunks))
        in (take used c @ bs, rest))"
  by pat_completeness auto
termination
proof (relation "measures [\<lambda>(n, chunks). n + length chunks]", goal_cases)
  case (2 n c chunks used)
  then show ?case
    using chunks_consume_first [of c chunks] by (auto split: if_splits)
qed simp

subsection \<open>The library's state machine\<close>

datatype conn_state =
    EncodeTlsData | TransmitTlsData | BlockedHandshake | ReadTraffic | WriteTraffic | OtherState

text \<open>
  \<open>process\<close> looks at the bytes received so far, which it may decrypt in place, and gives the number of
  bytes it is done with and the state; \<open>next_record\<close> gives the next piece of application data; \<open>encode\<close>
  and \<open>encrypt\<close> write into a space of the given size.
\<close>

record 'k tls_lib =
  process_tls_records :: "'k \<Rightarrow> bytes \<Rightarrow> nat \<times> (tls_connection_error, conn_state) outcome \<times> bytes \<times> 'k"
  next_record :: "'k \<Rightarrow> bytes \<Rightarrow> (tls_connection_error, nat \<times> bytes) outcome option \<times> bytes \<times> 'k"
  lib_encode :: "nat \<Rightarrow> 'k \<Rightarrow> (size_error, bytes) outcome \<times> 'k"
  lib_encrypt :: "bytes \<Rightarrow> nat \<Rightarrow> 'k \<Rightarrow> (size_error, bytes) outcome \<times> 'k"
  transmit_done :: "'k \<Rightarrow> 'k"

record ('k, 't) tls_conn =
  tk_conn :: 'k
  tk_input :: tls_buffer
  tk_output :: tls_buffer
  tk_transport :: 't
  tk_handshaking :: bool
  tk_app_data :: "bytes list"

definition tls_connection_new :: "'k \<Rightarrow> 't \<Rightarrow> ('k, 't) tls_conn" where
  "tls_connection_new k t =
     \<lparr> tk_conn = k, tk_input = tls_buffer_new, tk_output = tls_buffer_new, tk_transport = t,
       tk_handshaking = True, tk_app_data = [] \<rparr>"

type_synonym ('k, 't, 'a) tls_prog = "(('k, 't) tls_conn, tls_connection_error, 'a) prog"

definition process_records :: "'k tls_lib \<Rightarrow> ('k, 't, nat \<times> (tls_connection_error, conn_state) outcome) tls_prog" where
  "process_records lib c =
     (case process_tls_records lib (tk_conn c) (buffer_used (tk_input c)) of
        (discard, state, bs, k) \<Rightarrow>
          Some (Ok (discard, state),
            c\<lparr> tk_conn := k, tk_input := (tk_input c)\<lparr> tb_inner := overwrite 0 bs (tb_inner (tk_input c)) \<rparr> \<rparr>))"

definition input_discard :: "nat \<Rightarrow> ('k, 't, unit) tls_prog" where
  "input_discard n c =
     (case (buffer_discard n (tk_input c) :: (unit, tls_buffer) outcome) of
        Ok b \<Rightarrow> Some (Ok (), c\<lparr> tk_input := b \<rparr>)
      | _ \<Rightarrow> Some (Panic, c))"

definition encode_output ::
    "(nat \<Rightarrow> 'k \<Rightarrow> (size_error, bytes) outcome \<times> 'k) \<Rightarrow> tls_connection_error \<Rightarrow> ('k, 't, nat) tls_prog" where
  "encode_output f other c =
     (case try_or_resize_and_retry f other (tk_conn c, tk_output c) of
        (r, k, b) \<Rightarrow> Some (r, c\<lparr> tk_conn := k, tk_output := b \<rparr>))"

text \<open>One \<open>write\<close> of the transport; an I/O error becomes \<open>Transport\<close>.\<close>

definition transport_write :: "'t writer \<Rightarrow> bytes \<Rightarrow> ('k, 't, nat) tls_prog" where
  "transport_write wr bs c =
     (case wr (tk_transport c) bs of
        None \<Rightarrow> None
      | Some (r, t) \<Rightarrow> Some (map_err (\<lambda>_. TlsTransport) r, c\<lparr> tk_transport := t \<rparr>))"

text \<open>\<open>transport.read(input.unused_mut())\<close> followed by \<open>input.consume(size)\<close>.\<close>

definition transport_fill :: "'t reader \<Rightarrow> ('k, 't, unit) tls_prog" where
  "transport_fill rd c =
     (case rd (tk_transport c) (buffer_space (tk_input c)) of
        None \<Rightarrow> None
      | Some (Ok chunk, t) \<Rightarrow> Some (Ok (), c\<lparr> tk_transport := t, tk_input := buffer_fill chunk (tk_input c) \<rparr>)
      | Some (Err _, t) \<Rightarrow> Some (Err TlsTransport, c\<lparr> tk_transport := t \<rparr>)
      | Some (Panic, t) \<Rightarrow> Some (Panic, c\<lparr> tk_transport := t \<rparr>))"

definition output_reset :: "('k, 't, unit) tls_prog" where
  "output_reset c = Some (Ok (), c\<lparr> tk_output := buffer_reset (tk_output c) \<rparr>)"

text \<open>
  The inner loop over the records of a \<open>ReadTraffic\<close> state; \<open>limited\<close> is the client's \<open>read\<close>, which keeps a
  record only while the queue is not full.  The result is the number of bytes to discard.
\<close>

partial_function (option) drain_records ::
    "'k tls_lib \<Rightarrow> bool \<Rightarrow> nat \<Rightarrow> ('k, 't) tls_conn \<Rightarrow> ((tls_connection_error, nat) outcome \<times> ('k, 't) tls_conn) option" where
  "drain_records lib limited discard c =
     (case next_record lib (tk_conn c) (buffer_used (tk_input c)) of
        (res, bs, k) \<Rightarrow>
          (let c' = c\<lparr> tk_conn := k, tk_input := (tk_input c)\<lparr> tb_inner := overwrite 0 bs (tb_inner (tk_input c)) \<rparr> \<rparr> in
           case res of
             None \<Rightarrow> Some (Ok discard, c')
           | Some (Ok (new_discard, payload)) \<Rightarrow>
               drain_records lib limited (discard + new_discard)
                 (if limited \<and> is_full (tk_app_data c') then c'
                  else c'\<lparr> tk_app_data := chunks_append payload (tk_app_data c') \<rparr>)
           | Some (Err e) \<Rightarrow> Some (Err e, c')
           | Some Panic \<Rightarrow> Some (Panic, c')))"

definition read_app_data :: "nat \<Rightarrow> ('k, 't, bytes) tls_prog" where
  "read_app_data n c =
     (case chunks_read n (tk_app_data c) of (bs, rest) \<Rightarrow> Some (Ok bs, c\<lparr> tk_app_data := rest \<rparr>))"

subsection \<open>Handshake\<close>

definition handle_tls_error :: "'k tls_lib \<Rightarrow> 't writer \<Rightarrow> ('k, 't, unit) tls_prog" where
  "handle_tls_error lib wr =
     pbind (process_records lib) (\<lambda>(_, state).
     pbind (plift state) (\<lambda>st.
       if st = EncodeTlsData
       then
         pbind (encode_output (lib_encode lib) TlsEncode) (\<lambda>_ c.
         pbind (transport_write wr (buffer_used (tk_output c))) (\<lambda>_. output_reset) c)
       else plift (Ok ())))"

definition handshake_step :: "'k tls_lib \<Rightarrow> 't writer \<Rightarrow> 't reader \<Rightarrow> ('k, 't, unit option) tls_prog" where
  "handshake_step lib wr rd =
     pbind (process_records lib) (\<lambda>(discard, state).
       case state of
         Panic \<Rightarrow> plift Panic
       | Err e \<Rightarrow>
           pbind (input_discard discard) (\<lambda>_.
           pbind (handle_tls_error lib wr) (\<lambda>_. plift (Err e)))
       | Ok st \<Rightarrow>
           (case st of
              EncodeTlsData \<Rightarrow>
                pbind (encode_output (lib_encode lib) TlsEncode) (\<lambda>_.
                pbind (input_discard discard) (\<lambda>_. plift (Ok None)))
            | TransmitTlsData \<Rightarrow>
                (\<lambda>c. pbind (transport_write wr (buffer_used (tk_output c))) (\<lambda>_.
                     pbind output_reset (\<lambda>_ c.
                     pbind (input_discard discard) (\<lambda>_. plift (Ok None))
                       (c\<lparr> tk_conn := transmit_done lib (tk_conn c) \<rparr>))) c)
            | BlockedHandshake \<Rightarrow>
                pbind (transport_fill rd) (\<lambda>_.
                pbind (input_discard discard) (\<lambda>_. plift (Ok None)))
            | ReadTraffic \<Rightarrow>
                pbind (drain_records lib False discard) (\<lambda>discard c.
                pbind (input_discard discard) (\<lambda>_. plift (Ok (Some ()))) (c\<lparr> tk_handshaking := False \<rparr>))
            | WriteTraffic \<Rightarrow>
                (\<lambda>c. pbind (input_discard discard) (\<lambda>_. plift (Ok (Some ()))) (c\<lparr> tk_handshaking := False \<rparr>))
            | OtherState \<Rightarrow> plift (Err UnexpectedState)))"

definition process_tls_status :: "'k tls_lib \<Rightarrow> 't writer \<Rightarrow> 't reader \<Rightarrow> ('k, 't, unit) tls_prog" where
  "process_tls_status lib wr rd = run_loop (handshake_step lib wr rd)"

definition when_handshaking :: "('k, 't, unit) tls_prog \<Rightarrow> ('k, 't, unit) tls_prog" where
  "when_handshaking p c = (if tk_handshaking c then p c else Some (Ok (), c))"

subsection \<open>Reading and writing\<close>

definition read_step :: "'k tls_lib \<Rightarrow> bool \<Rightarrow> 't reader \<Rightarrow> nat \<Rightarrow> ('k, 't, bytes option) tls_prog" where
  "read_step lib limited rd n =
     pbind (process_records lib) (\<lambda>(discard, state).
     pbind (plift state) (\<lambda>st.
       if st = ReadTraffic
       then
         pbind (drain_records lib limited discard) (\<lambda>discard.
         pbind (read_app_data n) (\<lambda>bs.
         pbind (input_discard discard) (\<lambda>_. plift (Ok (Some bs)))))
       else if st = WriteTraffic
       then
         pbind (transport_fill rd) (\<lambda>_.
         pbind (input_discard discard) (\<lambda>_. plift (Ok None)))
       else plift (Err UnexpectedState)))"

definition tls_read_with ::
    "bool \<Rightarrow> 'k tls_lib \<Rightarrow> 't writer \<Rightarrow> 't reader \<Rightarrow> nat \<Rightarrow> ('k, 't, bytes) tls_prog" where
  "tls_read_with limited lib wr rd n =
     pbind (when_handshaking (process_tls_status lib wr rd)) (\<lambda>_ c.
       if tk_app_data c \<noteq> [] then read_app_data n c
       else run_loop (read_step lib limited rd n) c)"

definition tls_server_read :: "'k tls_lib \<Rightarrow> 't writer \<Rightarrow> 't reader \<Rightarrow> nat \<Rightarrow> ('k, 't, bytes) tls_prog" where
  "tls_server_read = tls_read_with False"

definition tls_client_read :: "'k tls_lib \<Rightarrow> 't writer \<Rightarrow> 't reader \<Rightarrow> nat \<Rightarrow> ('k, 't, bytes) tls_prog" where
  "tls_client_read = tls_read_with True"

text \<open>All of the output, over as many writes as it takes; a write of nothing is an error.\<close>

partial_function (option) write_all ::
    "'t writer \<Rightarrow> bytes \<Rightarrow> nat \<Rightarrow> ('k, 't) tls_conn \<Rightarrow> ((tls_connection_error, unit) outcome \<times> ('k, 't) tls_conn) option" where
  "write_all wr out written c =
     (if written < length out
      then (case wr (tk_transport c) (drop written out) of
              None \<Rightarrow> None
            | Some (Ok n, t) \<Rightarrow>
                if n = 0 then Some (Err UnexpectedState, c\<lparr> tk_transport := t \<rparr>)
                else write_all wr out (written + n) (c\<lparr> tk_transport := t \<rparr>)
            | Some (Err _, t) \<Rightarrow> Some (Err TlsTransport, c\<lparr> tk_transport := t \<rparr>)
            | Some (Panic, t) \<Rightarrow> Some (Panic, c\<lparr> tk_transport := t \<rparr>))
      else Some (Ok (), c))"

definition write_step :: "'k tls_lib \<Rightarrow> 't writer \<Rightarrow> bytes \<Rightarrow> ('k, 't, unit option) tls_prog" where
  "write_step lib wr data =
     pbind (process_records lib) (\<lambda>(discard, state).
     pbind (plift state) (\<lambda>st.
       if st = ReadTraffic
       then
         pbind (drain_records lib False discard) (\<lambda>discard.
         pbind (input_discard discard) (\<lambda>_. plift (Ok None)))
       else if st = WriteTraffic
       then
         pbind (encode_output (lib_encrypt lib data) TlsEncrypt) (\<lambda>_ c.
         pbind (write_all wr (buffer_used (tk_output c)) 0) (\<lambda>_.
         pbind output_reset (\<lambda>_. plift (Ok (Some ())))) c)
       else plift (Err UnexpectedState)))"

definition tls_write :: "'k tls_lib \<Rightarrow> 't writer \<Rightarrow> 't reader \<Rightarrow> bytes \<Rightarrow> ('k, 't, nat) tls_prog" where
  "tls_write lib wr rd data =
     pbind (when_handshaking (process_tls_status lib wr rd)) (\<lambda>_.
     pbind (run_loop (write_step lib wr data)) (\<lambda>_. plift (Ok (length data))))"

section \<open>The queue of received data\<close>

text \<open>A queue holds no empty chunk, so that it is empty exactly when no byte is left.\<close>

definition chunks_wf :: "bytes list \<Rightarrow> bool" where
  "chunks_wf chunks \<longleftrightarrow> [] \<notin> set chunks"

lemma chunks_len_concat: "chunks_len chunks = length (concat chunks)"
proof -
  have "foldl (\<lambda>n ch. n + length ch) m chunks = m + length (concat chunks)" for m
    by (induction chunks arbitrary: m) auto
  then show ?thesis by (simp add: chunks_len_def)
qed

lemma chunks_wf_empty: "chunks_wf chunks \<Longrightarrow> chunks = [] \<longleftrightarrow> concat chunks = []"
  by (cases chunks) (auto simp: chunks_wf_def)

lemma chunks_append_concat [simp]: "concat (chunks_append bs chunks) = concat chunks @ bs"
  by (simp add: chunks_append_def)

lemma chunks_append_wf: "chunks_wf chunks \<Longrightarrow> chunks_wf (chunks_append bs chunks)"
  by (auto simp: chunks_wf_def chunks_append_def)

lemma chunks_consume_concat: "concat (chunks_consume n chunks) = drop n (concat chunks)"
  by (induction n chunks rule: chunks_consume.induct) auto

lemma chunks_consume_wf: "chunks_wf chunks \<Longrightarrow> chunks_wf (chunks_consume n chunks)"
  by (induction n chunks rule: chunks_consume.induct) (auto simp: chunks_wf_def)

text \<open>The queue of received data is a byte stream: reading into a buffer gives exactly the next bytes, as many
  as fit and as there are, and leaves the rest; chunk boundaries do not show, no chunk becomes empty,
  and the queue says that it is empty exactly when no byte is left.\<close>

theorem chunks_read_refines:
  "\<exists>rest. chunks_read n chunks = (take n (concat chunks), rest) \<and> concat rest = drop n (concat chunks) \<and>
     (chunks_wf chunks \<longrightarrow> chunks_wf rest \<and> (rest = [] \<longleftrightarrow> length (concat chunks) \<le> n))"
proof -
  have "\<exists>rest. chunks_read n chunks = (take n (concat chunks), rest) \<and> concat rest = drop n (concat chunks) \<and>
     (chunks_wf chunks \<longrightarrow> chunks_wf rest)"
  proof (induction n chunks rule: chunks_read.induct)
    case (2 n c chunks)
    show ?case
    proof (cases "n = 0")
      case False
      define used where "used = (if n \<ge> length c then length c else n)"
      obtain rest where r: "chunks_read (n - used) (chunks_consume used (c # chunks)) =
          (take (n - used) (concat (chunks_consume used (c # chunks))), rest)"
        "concat rest = drop (n - used) (concat (chunks_consume used (c # chunks)))"
        "chunks_wf (chunks_consume used (c # chunks)) \<longrightarrow> chunks_wf rest"
        using 2 [OF False, folded used_def, OF refl] by blast
      have "used \<le> n" "used \<le> length c" by (auto simp: used_def)
      then have "take n (c @ concat chunks) = take used c @ take (n - used) (drop used (c @ concat chunks))"
        using take_add [of used "n - used" "c @ concat chunks"] by simp
      then show ?thesis
        using r False chunks_consume_wf [of "c # chunks" used] \<open>used \<le> n\<close> \<open>used \<le> length c\<close>
        by (intro exI [of _ rest])
          (simp add: chunks_consume_concat used_def [symmetric] Let_def del: chunks_consume.simps)
    qed simp
  qed simp
  then obtain rest where r: "chunks_read n chunks = (take n (concat chunks), rest)"
    "concat rest = drop n (concat chunks)" "chunks_wf chunks \<longrightarrow> chunks_wf rest" by blast
  then have "chunks_wf chunks \<longrightarrow> (rest = [] \<longleftrightarrow> length (concat chunks) \<le> n)"
    using chunks_wf_empty [of rest] by simp
  then show ?thesis using r by (intro exI [of _ rest]) simp
qed

theorem chunks_read_refines_witness:
  "\<exists>rest. chunks_read 3 [[1, 2], [3, 4 :: byte]] = ([1, 2, 3], rest) \<and> concat rest = [4] \<and> chunks_wf rest"
  using chunks_read_refines [of 3 "[[1, 2], [3, 4]]"] by (auto simp: chunks_wf_def)

section \<open>Buffers\<close>

definition buffer_wf :: "tls_buffer \<Rightarrow> bool" where
  "buffer_wf b \<longleftrightarrow> tb_used b \<le> length (tb_inner b)"

lemma buffer_fill_used:
  "buffer_wf b \<Longrightarrow> length chunk \<le> buffer_space b \<Longrightarrow>
     buffer_used (buffer_fill chunk b) = buffer_used b @ chunk \<and> buffer_wf (buffer_fill chunk b)"
  by (simp add: buffer_used_def buffer_fill_def buffer_wf_def buffer_space_def overwrite_def)

lemma buffer_discard_used:
  "buffer_wf b \<Longrightarrow> n \<le> tb_used b \<Longrightarrow>
     \<exists>b'. buffer_discard n b = Ok b' \<and> buffer_used b' = drop n (buffer_used b) \<and> buffer_wf b' \<and>
       length (tb_inner b') = length (tb_inner b)"
  by (simp add: buffer_discard_def buffer_used_def buffer_wf_def slice_def drop_take)

text \<open>The library produces \<open>rec\<close>, at once or after it has said how much space it needs.\<close>

definition produces ::
    "(nat \<Rightarrow> 'k \<Rightarrow> (size_error, bytes) outcome \<times> 'k) \<Rightarrow> nat \<Rightarrow> 'k \<Rightarrow> bytes \<Rightarrow> 'k \<Rightarrow> bool" where
  "produces f space k rec k' \<longleftrightarrow>
     f space k = (Ok rec, k') \<and> length rec \<le> space \<or>
     (\<exists>n k1. f space k = (Err (InsufficientSize n), k1) \<and> space < n \<and> f n k1 = (Ok rec, k') \<and> length rec \<le> n)"

lemma try_or_resize_produces:
  assumes "buffer_wf b" and "produces f (buffer_space b) k rec k'"
  shows "\<exists>b'. try_or_resize_and_retry f other (k, b) = (Ok (length rec), k', b') \<and> buffer_wf b' \<and>
    buffer_used b' = buffer_used b @ rec"
proof (cases "f (buffer_space b) k = (Ok rec, k') \<and> length rec \<le> buffer_space b")
  case True
  then show ?thesis using buffer_fill_used [OF assms(1)] by (simp add: try_or_resize_and_retry_def)
next
  case False
  then obtain n k1 where n: "f (buffer_space b) k = (Err (InsufficientSize n), k1)" "buffer_space b < n"
    "f n k1 = (Ok rec, k')" "length rec \<le> n"
    using assms(2) by (auto simp: produces_def)
  let ?b = "b\<lparr> tb_inner := resize (tb_used b + n) (tb_inner b) \<rparr>"
  have "length (tb_inner b) \<le> tb_used b + n" using n(2) by (simp add: buffer_space_def)
  then have b: "buffer_space ?b = n" "buffer_wf ?b" "buffer_used ?b = buffer_used b"
    using assms(1) by (simp_all add: buffer_space_def buffer_wf_def buffer_used_def resize_def)
  then show ?thesis
    using n buffer_fill_used [of ?b rec] by (simp add: try_or_resize_and_retry_def Let_def)
qed

section \<open>Writing\<close>

context live_transport
begin

lemma write_all_total:
  assumes "connected (tk_transport c)" and "written \<le> length out"
  shows "\<exists>t'. write_all wr out written c = Some (Ok (), c\<lparr> tk_transport := t' \<rparr>) \<and> connected t' \<and>
    outgoing t' = outgoing (tk_transport c) @ drop written out \<and> incoming t' = incoming (tk_transport c)"
  using assms
proof (induction "length out - written" arbitrary: written c rule: less_induct)
  case less
  show ?case
  proof (cases "written < length out")
    case True
    then obtain n t where w: "wr (tk_transport c) (drop written out) = Some (Ok n, t)" and n: "0 < n"
      using wr_progress [OF less.prems(1), of "drop written out"] by auto
    note step = wr_Ok [OF less.prems(1) w]
    then have "connected t" "written + n \<le> length out" using True by auto
    moreover have "length out - (written + n) < length out - written" using True n by linarith
    ultimately obtain t' where t': "write_all wr out (written + n) (c\<lparr> tk_transport := t \<rparr>) =
        Some (Ok (), (c\<lparr> tk_transport := t \<rparr>)\<lparr> tk_transport := t' \<rparr>)" "connected t'"
      "outgoing t' = outgoing t @ drop (written + n) out" "incoming t' = incoming t"
      using less.hyps [of "written + n" "c\<lparr> tk_transport := t \<rparr>"] by auto
    have "drop written out = take n (drop written out) @ drop (written + n) out"
      by (metis add.commute append_take_drop_id drop_drop)
    then have "outgoing t' = outgoing (tk_transport c) @ drop written out" using t'(3) step by simp
    then show ?thesis
      using t' w n True step by (intro exI [of _ t']) (subst write_all.simps, simp)
  next
    case False
    then show ?thesis using less.prems
      by (intro exI [of _ "tk_transport c"]) (subst write_all.simps, simp)
  qed
qed

lemma tls_write_once:
  assumes "\<not> tk_handshaking c" and "connected (tk_transport c)" and "buffer_wf (tk_output c)"
    and "tb_used (tk_output c) = 0"
    and "process_tls_records lib (tk_conn c) (buffer_used (tk_input c)) = (d, Ok WriteTraffic, bs, k)"
    and "produces (lib_encrypt lib data) (buffer_space (tk_output c)) k rec k'"
  shows "\<exists>c'. tls_write lib wr rd data c = Some (Ok (length data), c') \<and> tk_conn c' = k' \<and>
    outgoing (tk_transport c') = outgoing (tk_transport c) @ rec \<and>
    incoming (tk_transport c') = incoming (tk_transport c) \<and> connected (tk_transport c') \<and>
    tb_used (tk_output c') = 0 \<and> tk_app_data c' = tk_app_data c \<and> tb_used (tk_input c') = tb_used (tk_input c)"
proof -
  obtain b where b: "try_or_resize_and_retry (lib_encrypt lib data) TlsEncrypt (k, tk_output c) = (Ok (length rec), k', b)"
    "buffer_used b = rec"
    using try_or_resize_produces [OF assms(3,6), of TlsEncrypt] assms(4) by (auto simp: buffer_used_def)
  let ?c = "c\<lparr> tk_input := (tk_input c)\<lparr> tb_inner := overwrite 0 bs (tb_inner (tk_input c)) \<rparr>, tk_conn := k', tk_output := b \<rparr>"
  obtain t' where t': "write_all wr rec 0 ?c = Some (Ok (), ?c\<lparr> tk_transport := t' \<rparr>)" "connected t'"
    "outgoing t' = outgoing (tk_transport c) @ rec" "incoming t' = incoming (tk_transport c)"
    using write_all_total [of ?c 0 rec] assms(2) by auto
  let ?c' = "?c\<lparr> tk_transport := t', tk_output := buffer_reset b \<rparr>"
  have "write_step lib wr data c = Some (Ok (Some ()), ?c')"
    using t'(1) b assms(5)
    by (simp add: write_step_def process_records_def encode_output_def output_reset_def pbind_def)
  then have "run_loop (write_step lib wr data) c = Some (Ok (), ?c')" by (subst run_loop.simps) simp
  then show ?thesis
    using t' assms(1) by (intro exI [of _ ?c'])
      (simp add: tls_write_def when_handshaking_def pbind_def buffer_reset_def)
qed

end

section \<open>Loops that never end\<close>

lemma run_loop_stuck:
  assumes "body s = Some (Ok None, s)"
  shows "run_loop body s = None"
proof (rule ccontr)
  assume "run_loop body s \<noteq> None"
  then obtain out where ret: "run_loop body s = Some out" by blast
  let ?P = "\<lambda>body' s' out. body' = body \<longrightarrow> s' = s \<longrightarrow> False"
  have "?P body s out"
  proof (rule run_loop.raw_induct [where P = ?P, OF _ ret], intro impI, goal_cases)
    case (1 f body' s' out)
    then have "f body s = Some out" using assms by simp
    from "1"(1) [OF this] show ?case by simp
  qed
  then show False by simp
qed

lemma overwrite_used [simp]: "overwrite 0 (buffer_used b) (tb_inner b) = tb_inner b"
  by (simp add: overwrite_def buffer_used_def min_def)

text \<open>
  C26: When the input buffer is full and the library still asks for more of a handshake message, the
  handshake never ends: the read that is meant to make progress is given no space, returns no bytes
  at once, and the loop goes round in the same state for ever.  The buffer of the input, unlike the one of the
  output, is never enlarged.
\<close>
theorem handshake_full_input_hangs:
  assumes "buffer_space (tk_input c) = 0" and "buffer_wf (tk_input c)"
    and "process_tls_records lib (tk_conn c) (buffer_used (tk_input c)) =
      (0, Ok BlockedHandshake, buffer_used (tk_input c), tk_conn c)"
    and "rd (tk_transport c) 0 = Some (Ok [], tk_transport c)"
  shows "process_tls_status lib wr rd c = None"
proof -
  obtain inner used where b: "tk_input c = \<lparr> tb_inner = inner, tb_used = used \<rparr>" by (cases "tk_input c")
  have "used = length inner" using assms(1,2) b by (simp add: buffer_space_def buffer_wf_def)
  moreover have "c\<lparr> tk_input := \<lparr> tb_inner = inner, tb_used = used \<rparr> \<rparr> = c" using b by (cases c) simp
  ultimately have "handshake_step lib wr rd c = Some (Ok None, c)"
    using assms(3,4) b
    by (simp add: handshake_step_def process_records_def transport_fill_def input_discard_def buffer_discard_def
        buffer_fill_def buffer_used_def buffer_space_def overwrite_def slice_def pbind_def plift_def)
  then show ?thesis by (simp add: process_tls_status_def run_loop_stuck)
qed

definition waiting_lib :: "unit tls_lib" where
  "waiting_lib = \<lparr> process_tls_records = \<lambda>k bs. (0, Ok BlockedHandshake, bs, k),
     next_record = \<lambda>k bs. (None, bs, k), lib_encode = \<lambda>n k. (Ok [], k), lib_encrypt = \<lambda>d n k. (Ok [], k),
     transmit_done = id \<rparr>"

definition full_link :: "fifo vmcall_raw" where
  "full_link = (vmcall_raw_new 1 [1 \<mapsto> False]
     \<lparr> f_accepted = [], f_packets = [], f_done = False, f_buffer = [] \<rparr>)\<lparr> data_queue := [[1]] \<rparr>"

lemma full_link_read: "vmcall_raw_read fifo_vmm full_link 0 = Some (Ok [], full_link)"
  by (simp add: vmcall_raw_read_def vmcall_raw_recv_def full_link_def outcome_simps pbind_def plift_def pmap_err_def)

theorem handshake_full_input_hangs_witness:
  "process_tls_status waiting_lib (vmcall_raw_write fifo_vmm) (vmcall_raw_read fifo_vmm)
     ((tls_connection_new () full_link)\<lparr> tk_input := \<lparr> tb_inner = replicate TLS_BUFFER_SIZE 22, tb_used = TLS_BUFFER_SIZE \<rparr> \<rparr>)
   = None"
  by (rule handshake_full_input_hangs)
    (simp_all add: buffer_space_def buffer_wf_def waiting_lib_def tls_connection_new_def full_link_read)

text \<open>
  C25: Application data written on an established connection over the raw VMCALL stream leaves as
  one encrypted record, whole and in order: whatever the number of VMCALLs it takes, and also when the output
  buffer has to be enlarged first, \<open>write\<close> returns the length of the data, the transport has accepted
  exactly the record after what it had accepted before, and the output buffer is empty again.  The
  input buffer is left as it is, even when the library reports bytes of it as done with.
\<close>
theorem tls_write_over_vmcall:
  assumes "\<not> tk_handshaking c" and "vr_connected (tk_transport c)" and "buffer_wf (tk_output c)"
    and "tb_used (tk_output c) = 0"
    and "process_tls_records lib (tk_conn c) (buffer_used (tk_input c)) = (d, Ok WriteTraffic, bs, k)"
    and "produces (lib_encrypt lib data) (buffer_space (tk_output c)) k rec k'"
  shows "\<exists>c'. tls_write lib (vmcall_raw_write fifo_vmm) (vmcall_raw_read fifo_vmm) data c = Some (Ok (length data), c') \<and>
    tk_conn c' = k' \<and> vr_outgoing (tk_transport c') = vr_outgoing (tk_transport c) @ rec \<and>
    vr_incoming (tk_transport c') = vr_incoming (tk_transport c) \<and> vr_connected (tk_transport c') \<and>
    tb_used (tk_output c') = 0 \<and> tk_app_data c' = tk_app_data c \<and> tb_used (tk_input c') = tb_used (tk_input c)"
  using assms by (rule vmcall_fifo.tls_write_once)

text \<open>A library that adds a header byte and asks for the space it needs.\<close>

definition framing_lib :: "nat tls_lib" where
  "framing_lib = \<lparr> process_tls_records = \<lambda>k bs. (0, Ok WriteTraffic, bs, k),
     next_record = \<lambda>k bs. (None, bs, k), lib_encode = \<lambda>n k. (Ok [], k),
     lib_encrypt = \<lambda>d n k. if n < Suc (length d) then (Err (InsufficientSize (Suc (length d))), k) else (Ok (23 # d), Suc k),
     transmit_done = id \<rparr>"

definition open_link :: "(nat, fifo vmcall_raw) tls_conn" where
  "open_link = (tls_connection_new 0 (vmcall_raw_new 1 [1 \<mapsto> False]
     \<lparr> f_accepted = [9], f_packets = [], f_done = False, f_buffer = [] \<rparr>))\<lparr> tk_handshaking := False \<rparr>"

theorem tls_write_over_vmcall_witness:
  "\<exists>c'. tls_write framing_lib (vmcall_raw_write fifo_vmm) (vmcall_raw_read fifo_vmm) (replicate 70000 5) open_link =
      Some (Ok 70000, c') \<and>
    tk_conn c' = 1 \<and> vr_outgoing (tk_transport c') = 9 # 23 # replicate 70000 5 \<and>
    vr_incoming (tk_transport c') = [] \<and> vr_connected (tk_transport c') \<and>
    tb_used (tk_output c') = 0 \<and> tk_app_data c' = [] \<and> tb_used (tk_input c') = 0"
  using tls_write_over_vmcall [of open_link framing_lib 0 "[]" 0 "replicate 70000 5" "23 # replicate 70000 5" 1]
  by (simp add: framing_lib_def open_link_def tls_connection_new_def tls_buffer_new_def TLS_BUFFER_SIZE_def
      vmcall_raw_new_def vr_view_defs buffer_wf_def buffer_space_def buffer_used_def produces_def)

end
