(* ===== verification/MskExchange.thy ===== *)
theory MskExchange
  imports TlsChannel
begin

text \<open>
  The exchange of the migration session keys, from \<open>src/migtd/src/migration/session.rs\<close> with
  \<open>src/migtd/src/migration/transport.rs\<close> and \<open>with_timeout\<close> of \<open>src/migtd/src/driver/ticks.rs\<close>: reading the own key and version range from the TDX
  module, exchanging them with the peer over the attested channel, choosing the version, and writing
  version and key back.  The configuration is the raw VMCALL transport with policies of version 2; the TDX
  module, the TLS library and the timers are parameters.
\<close>

section \<open>Model\<close>

subsection \<open>The information exchanged\<close>

definition TDCALL_STATUS_SUCCESS :: "64 word" where "TDCALL_STATUS_SUCCESS = 0"
definition TDCS_FIELD_MIG_DEC_KEY :: "64 word" where "TDCS_FIELD_MIG_DEC_KEY = 0x9810000300000010"
definition TDCS_FIELD_MIG_ENC_KEY :: "64 word" where "TDCS_FIELD_MIG_ENC_KEY = 0x9810000300000018"
definition TDCS_FIELD_MIG_VERSION :: "64 word" where "TDCS_FIELD_MIG_VERSION = 0x9810000100000020"
definition GSM_FIELD_MIN_EXPORT_VERSION :: "64 word" where "GSM_FIELD_MIN_EXPORT_VERSION = 0x2000000100000001"
definition GSM_FIELD_MAX_EXPORT_VERSION :: "64 word" where "GSM_FIELD_MAX_EXPORT_VERSION = 0x2000000100000002"
definition GSM_FIELD_MIN_IMPORT_VERSION :: "64 word" where "GSM_FIELD_MIN_IMPORT_VERSION = 0x2000000100000003"
definition GSM_FIELD_MAX_IMPORT_VERSION :: "64 word" where "GSM_FIELD_MAX_IMPORT_VERSION = 0x2000000100000004"

text \<open>\<open>MigrationSessionKey\<close> is its four words.\<close>

type_synonym migration_session_key = "64 word list"

definition migration_session_key_new :: migration_session_key where
  "migration_session_key_new = replicate 4 0"

record exchange_information =
  xi_key :: migration_session_key
  min_ver :: "16 word"
  max_ver :: "16 word"
  xi_reserved :: bytes

definition exchange_information_default :: exchange_information where
  "exchange_information_default =
     \<lparr> xi_key = migration_session_key_new, min_ver = 0, max_ver = 0, xi_reserved = replicate 4 0 \<rparr>"

definition exchange_information_validate :: "exchange_information \<Rightarrow> (migration_result, unit) outcome" where
  "exchange_information_validate xi = (if xi_reserved xi \<noteq> replicate 4 0 then Err InvalidParameter else Ok ())"

definition exchange_information_as_bytes :: "exchange_information \<Rightarrow> bytes" where
  "exchange_information_as_bytes xi =
     u64s_le (xi_key xi) @ u16_le (min_ver xi) @ u16_le (max_ver xi) @ xi_reserved xi"

definition dec_exchange_information :: "bytes \<Rightarrow> exchange_information" where
  "dec_exchange_information bs =
     \<lparr> xi_key = u64s_of 4 (slice 0 32 bs), min_ver = u16_of (slice 32 34 bs),
       max_ver = u16_of (slice 34 36 bs), xi_reserved = slice 36 40 bs \<rparr>"

text \<open>\<open>read(info.as_bytes_mut())\<close>: the bytes that were read replace the front of the structure.\<close>

definition received_into :: "exchange_information \<Rightarrow> bytes \<Rightarrow> exchange_information" where
  "received_into xi bs = dec_exchange_information (overwrite 0 bs (exchange_information_as_bytes xi))"

subsection \<open>The TDX module\<close>

text \<open>
  The calls a service TD makes: read and write a field of the TD it is bound to, named by the binding
  handle, the field and the TD's identifier, and read a field of the module, which gives a status
  and the registers \<open>rdx\<close> and \<open>r8\<close>.
\<close>

record 'm tdx_module =
  servtd_rd :: "64 word \<Rightarrow> 64 word \<Rightarrow> 64 word list \<Rightarrow> 'm \<Rightarrow> 64 word option"
  servtd_wr :: "64 word \<Rightarrow> 64 word \<Rightarrow> 64 word \<Rightarrow> 64 word list \<Rightarrow> 'm \<Rightarrow> 'm option"
  td_call_sys_rd :: "64 word \<Rightarrow> 64 word \<times> 64 word \<times> 64 word"

abbreviation module_rd :: "'m tdx_module \<Rightarrow> migtd_info \<Rightarrow> 'm \<Rightarrow> 64 word \<Rightarrow> 64 word option" where
  "module_rd md info m \<equiv> \<lambda>field. servtd_rd md (binding_handle info) field (target_td_uuid info) m"

abbreviation module_wr :: "'m tdx_module \<Rightarrow> migtd_info \<Rightarrow> 64 word \<Rightarrow> 64 word \<Rightarrow> 'm \<Rightarrow> 'm option" where
  "module_wr md info \<equiv> \<lambda>field content. servtd_wr md (binding_handle info) field content (target_td_uuid info)"

fun read_msk_from :: "(64 word \<Rightarrow> 64 word option) \<Rightarrow> nat list \<Rightarrow> (migration_result, migration_session_key) outcome" where
  "read_msk_from rd [] = Ok []"
| "read_msk_from rd (idx # idxs) =
     rbind (ok_or TdxModuleError (rd (TDCS_FIELD_MIG_ENC_KEY + word_of_nat idx))) (\<lambda>content.
     rbind (read_msk_from rd idxs) (\<lambda>rest. Ok (content # rest)))"

definition read_msk :: "'m tdx_module \<Rightarrow> migtd_info \<Rightarrow> 'm \<Rightarrow> (migration_result, migration_session_key) outcome" where
  "read_msk md info m = read_msk_from (module_rd md info m) [0..<length migration_session_key_new]"

fun write_msk_from ::
    "(64 word \<Rightarrow> 64 word \<Rightarrow> 'm \<Rightarrow> 'm option) \<Rightarrow> nat \<Rightarrow> migration_session_key \<Rightarrow> 'm
     \<Rightarrow> (migration_result, unit) outcome \<times> 'm" where
  "write_msk_from wr idx [] m = (Ok (), m)"
| "write_msk_from wr idx (field # rest) m =
     (case wr (TDCS_FIELD_MIG_DEC_KEY + word_of_nat idx) field m of
        None \<Rightarrow> (Err TdxModuleError, m)
      | Some m' \<Rightarrow> write_msk_from wr (Suc idx) rest m')"

definition write_msk ::
    "'m tdx_module \<Rightarrow> migtd_info \<Rightarrow> migration_session_key \<Rightarrow> 'm \<Rightarrow> (migration_result, unit) outcome \<times> 'm" where
  "write_msk md info msk m = write_msk_from (module_wr md info) 0 msk m"

definition tdcall_sys_rd :: "'m tdx_module \<Rightarrow> 64 word \<Rightarrow> (64 word, 64 word \<times> 64 word) outcome" where
  "tdcall_sys_rd md field_identifier =
     (case td_call_sys_rd md field_identifier of
        (ret, rdx, r8) \<Rightarrow> if ret \<noteq> TDCALL_STATUS_SUCCESS then Err ret else Ok (rdx, r8))"

definition exchange_info ::
    "'m tdx_module \<Rightarrow> migtd_info \<Rightarrow> bool \<Rightarrow> 'm \<Rightarrow> (migration_result, exchange_information) outcome" where
  "exchange_info md info is_src m =
     rbind (read_msk md info m) (\<lambda>key.
     (let (field_min, field_max) =
        (if is_src then (GSM_FIELD_MIN_EXPORT_VERSION, GSM_FIELD_MAX_EXPORT_VERSION)
         else (GSM_FIELD_MIN_IMPORT_VERSION, GSM_FIELD_MAX_IMPORT_VERSION)) in
      rbind (map_err (\<lambda>_. TdxModuleError) (tdcall_sys_rd md field_min)) (\<lambda>(_, min_version).
      rbind (map_err (\<lambda>_. TdxModuleError) (tdcall_sys_rd md field_max)) (\<lambda>(_, max_version).
        if min_version > 0xFFFF \<or> max_version > 0xFFFF then Err InvalidParameter
        else Ok (exchange_information_default
               \<lparr> xi_key := key, min_ver := ucast min_version, max_ver := ucast max_version \<rparr>)))))"

definition cal_mig_version ::
    "bool \<Rightarrow> exchange_information \<Rightarrow> exchange_information \<Rightarrow> (migration_result, 16 word) outcome" where
  "cal_mig_version is_src local_info remote_info =
     (let (min_export, max_export, min_import, max_import) =
        (if is_src then (min_ver local_info, max_ver local_info, min_ver remote_info, max_ver remote_info)
         else (min_ver remote_info, max_ver remote_info, min_ver local_info, max_ver local_info)) in
      if min_export > max_export \<or> min_import > max_import \<or> max_export < min_import \<or> max_import < min_export
      then Err InvalidParameter
      else Ok (min max_export max_import))"

definition set_mig_version ::
    "'m tdx_module \<Rightarrow> migtd_info \<Rightarrow> 16 word \<Rightarrow> 'm \<Rightarrow> (migration_result, unit) outcome \<times> 'm" where
  "set_mig_version md info mig_ver m =
     (case module_wr md info TDCS_FIELD_MIG_VERSION (ucast mig_ver) m of
        None \<Rightarrow> (Err TdxModuleError, m)
      | Some m' \<Rightarrow> (Ok (), m'))"

subsection \<open>Time-outs\<close>

text \<open>
  \<open>expires s\<close> tells whether the timer fires before the future is ready, and what the abandoned
  future then leaves behind.
\<close>

definition with_timeout :: "('s \<Rightarrow> 's option) \<Rightarrow> ('s, 'e, 'a) prog \<Rightarrow> ('s, unit, ('e, 'a) outcome) prog" where
  "with_timeout expires fut s =
     (case expires s of
        Some s' \<Rightarrow> Some (Err (), s')
      | None \<Rightarrow>
          (case fut s of
             None \<Rightarrow> None
           | Some (Panic, s') \<Rightarrow> Some (Panic, s')
           | Some (r, s') \<Rightarrow> Some (Ok r, s')))"

text \<open>\<open>with_timeout(..).await?.map_err(f)?\<close>, with the conversions of \<open>MigrationResult\<close>.\<close>

definition await_timely ::
    "('s \<Rightarrow> 's option) \<Rightarrow> ('e \<Rightarrow> migration_result) \<Rightarrow> ('s, 'e, 'a) prog \<Rightarrow> ('s, migration_result, 'a) prog" where
  "await_timely expires f fut =
     pbind (pmap_err (\<lambda>_. NetworkError) (with_timeout expires fut)) (\<lambda>r. plift (map_err f r))"

subsection \<open>The exchange\<close>

text \<open>\<open>TlsConnection::write\<close> and \<open>read\<close>: an error of the connection goes through \<open>handle_stream_error\<close>.\<close>

definition stream_result :: "(tls_connection_error, 'a) outcome \<Rightarrow> (crypto_error, 'a) outcome" where
  "stream_result r =
     (case r of
        Ok x \<Rightarrow> Ok x
      | Err e \<Rightarrow> rbind (handle_stream_error e) Err
      | Panic \<Rightarrow> Panic)"

definition channel :: "('k, 't, 'a) tls_prog \<Rightarrow> (('k, 't) tls_conn, crypto_error, 'a) prog" where
  "channel p c = map_option (map_prod stream_result id) (p c)"

record ('h, 'v, 'k, 'm) msk_env =
  xe_tls :: "'h tls_env"
  xe_vmm :: "'v vmm"
  xe_register_callback :: "(vmcall_raw_error, unit) outcome"
  xe_lib :: "'k tls_lib"
  xe_tls_client :: "'h tls_config \<Rightarrow> (crypto_error, 'k) outcome"
  xe_tls_server :: "'h tls_config \<Rightarrow> (crypto_error, 'k) outcome"
  xe_module :: "'m tdx_module"
  xe_pre_session_expires :: "'v vmcall_raw \<Rightarrow> 'v vmcall_raw option"
  xe_write_expires :: "('k, 'v vmcall_raw) tls_conn \<Rightarrow> ('k, 'v vmcall_raw) tls_conn option"
  xe_read_expires :: "('k, 'v vmcall_raw) tls_conn \<Rightarrow> ('k, 'v vmcall_raw) tls_conn option"

abbreviation xe_write :: "('h, 'v, 'k, 'm) msk_env \<Rightarrow> 'v vmcall_raw writer" where
  "xe_write env \<equiv> vmcall_raw_write (xe_vmm env)"

abbreviation xe_read :: "('h, 'v, 'k, 'm) msk_env \<Rightarrow> 'v vmcall_raw reader" where
  "xe_read env \<equiv> vmcall_raw_read (xe_vmm env)"

text \<open>
  What an exchange works on: the platform that makes quotes, the stream with the flags of the
  migration contexts and the VMM, and the TDX module.
\<close>

record ('h, 'v, 'm) msk_world =
  mw_platform :: "'h retry_world"
  mw_stream :: "'v vmcall_raw"
  mw_module :: 'm

definition on_platform :: "('h retry_world, 'e, 'a) prog \<Rightarrow> (('h, 'v, 'm) msk_world, 'e, 'a) prog" where
  "on_platform p w = map_option (map_prod id (\<lambda>h. w\<lparr> mw_platform := h \<rparr>)) (p (mw_platform w))"

definition on_stream :: "('v vmcall_raw, 'e, 'a) prog \<Rightarrow> (('h, 'v, 'm) msk_world, 'e, 'a) prog" where
  "on_stream p w = map_option (map_prod id (\<lambda>t. w\<lparr> mw_stream := t \<rparr>)) (p (mw_stream w))"

definition on_module :: "('m \<Rightarrow> ('e, 'a) outcome \<times> 'm) \<Rightarrow> (('h, 'v, 'm) msk_world, 'e, 'a) prog" where
  "on_module f w = (case f (mw_module w) of (r, m) \<Rightarrow> Some (r, w\<lparr> mw_module := m \<rparr>))"

definition on_connection ::
    "'k \<Rightarrow> (('k, 'v vmcall_raw) tls_conn, 'e, 'a) prog \<Rightarrow> (('h, 'v, 'm) msk_world, 'e, 'a) prog" where
  "on_connection k p =
     on_stream (\<lambda>t. map_option (map_prod id tk_transport) (p (tls_connection_new k t)))"

definition setup_transport ::
    "(vmcall_raw_error, unit) outcome \<Rightarrow> 64 word \<Rightarrow> ('v vmcall_raw, migration_result, unit) prog" where
  "setup_transport register_callback request_id t =
     pmap_err (\<lambda>_. InvalidParameter) (vmcall_raw_connect register_callback)
       (vmcall_raw_new request_id (context_flags t) (host t))"

definition shutdown_transport :: "('v vmcall_raw, migration_result, unit) prog" where
  "shutdown_transport = pmap_err (\<lambda>_. InvalidParameter) vmcall_raw_shutdown"

definition shutdown_connection :: "(('k, 'v vmcall_raw) tls_conn, migration_result, unit) prog" where
  "shutdown_connection c =
     map_option (map_prod id (\<lambda>t. c\<lparr> tk_transport := t \<rparr>)) (shutdown_transport (tk_transport c))"

text \<open>Send the own information and receive the peer's over a connection, then close it.\<close>

definition exchange_over ::
    "('h, 'v, 'k, 'm) msk_env \<Rightarrow> (nat \<Rightarrow> ('k, 'v vmcall_raw, bytes) tls_prog) \<Rightarrow> exchange_information
     \<Rightarrow> (('k, 'v vmcall_raw) tls_conn, migration_result, exchange_information) prog" where
  "exchange_over env tls_read exchange_information =
     pbind (await_timely (xe_write_expires env) result_of_crypto_error
       (channel (tls_write (xe_lib env) (xe_write env) (xe_read env)
          (exchange_information_as_bytes exchange_information)))) (\<lambda>_.
     pbind (await_timely (xe_read_expires env) result_of_crypto_error (channel (tls_read 40))) (\<lambda>received.
       if length received < 40 then plift (Err NetworkError)
       else
         let remote_information = received_into exchange_information_default received in
         pbind (plift (exchange_information_validate remote_information)) (\<lambda>_.
         pbind shutdown_connection (\<lambda>_. plift (Ok remote_information)))))"

definition migration_src_exchange_msk ::
    "('h, 'v, 'k, 'm) msk_env \<Rightarrow> exchange_information \<Rightarrow> bytes
     \<Rightarrow> (('h, 'v, 'm) msk_world, migration_result, exchange_information) prog" where
  "migration_src_exchange_msk env exchange_information peer_data =
     pbind (pmap_err result_of_ratls_error (on_platform (client (xe_tls env) (xe_tls_client env) peer_data))) (\<lambda>k.
       on_connection k
         (exchange_over env (tls_client_read (xe_lib env) (xe_write env) (xe_read env)) exchange_information))"

definition migration_dst_exchange_msk ::
    "('h, 'v, 'k, 'm) msk_env \<Rightarrow> exchange_information \<Rightarrow> bytes
     \<Rightarrow> (('h, 'v, 'm) msk_world, migration_result, exchange_information) prog" where
  "migration_dst_exchange_msk env exchange_information peer_data =
     pbind (pmap_err result_of_ratls_error (on_platform (server (xe_tls env) (xe_tls_server env) peer_data))) (\<lambda>k.
       on_connection k
         (exchange_over env (tls_server_read (xe_lib env) (xe_write env) (xe_read env)) exchange_information))"

definition is_src :: "migtd_info \<Rightarrow> bool" where
  "is_src info \<longleftrightarrow> migration_source info = 1"

text \<open>The end of \<open>exchange_msk\<close>: the only part that changes the TDX module.\<close>

definition install_msk ::
    "('h, 'v, 'k, 'm) msk_env \<Rightarrow> migtd_info \<Rightarrow> exchange_information \<Rightarrow> exchange_information
     \<Rightarrow> (('h, 'v, 'm) msk_world, migration_result, unit) prog" where
  "install_msk env info exchange_information remote_information =
     pbind (plift (cal_mig_version (is_src info) exchange_information remote_information)) (\<lambda>mig_ver.
     pbind (\<lambda>w. plift (verify_servtd_attr (module_rd (xe_module env) info (mw_module w))) w) (\<lambda>_.
     pbind (on_module (set_mig_version (xe_module env) info mig_ver)) (\<lambda>_.
       on_module (write_msk (xe_module env) info (xi_key remote_information)))))"

definition exchange_msk ::
    "('h, 'v, 'k, 'm) msk_env \<Rightarrow> migtd_info \<Rightarrow> (('h, 'v, 'm) msk_world, migration_result, unit) prog" where
  "exchange_msk env info =
     pbind (plift
       (case init_td_info_if_present info of
          None \<Rightarrow> Ok ()
        | Some td_info \<Rightarrow>
            map_err (\<lambda>_. PolicyUnsatisfiedError)
              (verify_init_migtd_data_policy_binding (te_mig (xe_tls env)) td_info))) (\<lambda>_.
     pbind (on_stream (setup_transport (xe_register_callback env) (mig_request_id info))) (\<lambda>_.
     pbind (on_stream (await_timely (xe_pre_session_expires env) id
       (pre_session_data_exchange (xe_write env) (xe_read env)
          (te_policy (xe_tls env)) (te_issuer_chain (xe_tls env))))) (\<lambda>peer_data.
     pbind (\<lambda>w. plift (exchange_info (xe_module env) info (is_src info) (mw_module w)) w) (\<lambda>exchange_information.
     pbind (if is_src info then migration_src_exchange_msk env exchange_information peer_data
            else migration_dst_exchange_msk env exchange_information peer_data) (\<lambda>remote_information.
       install_msk env info exchange_information remote_information)))))"

section \<open>The information as bytes\<close>

definition exchange_information_typed :: "exchange_information \<Rightarrow> bool" where
  "exchange_information_typed xi \<longleftrightarrow> length (xi_key xi) = 4 \<and> length (xi_reserved xi) = 4"

interpretation exchange_information: wire_struct 40 exchange_information_as_bytes
    dec_exchange_information exchange_information_typed
proof (unfold_locales, goal_cases)
  case (4 bs)
  then show ?case
    by (simp add: exchange_information_as_bytes_def dec_exchange_information_def layout_simps)
qed (simp_all add: exchange_information_as_bytes_def dec_exchange_information_def exchange_information_typed_def
      slice_def)

lemma received_into_full: "40 \<le> length bs \<Longrightarrow> received_into xi bs = dec_exchange_information bs"
  by (simp add: received_into_def dec_exchange_information_def overwrite_def slice_def)

section \<open>The version both sides choose\<close>

definition common_versions :: "exchange_information \<Rightarrow> exchange_information \<Rightarrow> 16 word set" where
  "common_versions a b = {min_ver a..max_ver a} \<inter> {min_ver b..max_ver b}"

lemma common_versions_eq: "common_versions a b = {max (min_ver a) (min_ver b)..min (max_ver a) (max_ver b)}"
  by (auto simp: common_versions_def)

lemma finite_common_versions [simp]: "finite (common_versions a b)"
  by (rule finite)

lemma Max_word_interval: "(a :: 16 word) \<le> b \<Longrightarrow> Max {a..b} = b"
  by (rule Max_eqI) auto

lemma cal_mig_version_eq:
  "cal_mig_version s a b =
     (if common_versions a b = {} then Err InvalidParameter else Ok (Max (common_versions a b)))"
proof -
  have "common_versions a b \<noteq> {} \<longleftrightarrow> max (min_ver a) (min_ver b) \<le> min (max_ver a) (max_ver b)"
    by (auto simp: common_versions_eq)
  then show ?thesis
    by (auto simp: cal_mig_version_def common_versions_eq Max_word_interval min.commute not_less not_le)
qed

text \<open>
  The two sides of a migration choose the same version without further messages, and the best one: the
  version calculated is the greatest that lies in the ranges of both, the calculation fails exactly
  if there is none, and exchanging the roles and the operands does not change the result.
\<close>
theorem cal_mig_version_greatest:
  "(cal_mig_version s a b = Ok v \<longleftrightarrow> common_versions a b \<noteq> {} \<and> v = Max (common_versions a b)) \<and>
   (cal_mig_version s a b = Err InvalidParameter \<longleftrightarrow> common_versions a b = {}) \<and>
   cal_mig_version (\<not> s) b a = cal_mig_version s a b"
  by (auto simp: cal_mig_version_eq common_versions_def Int_commute)

section \<open>What changes the TDX module\<close>

definition keeps_module :: "(('h, 'v, 'm) msk_world, 'e, 'a) prog \<Rightarrow> bool" where
  "keeps_module p \<longleftrightarrow> (\<forall>w r w'. p w = Some (r, w') \<longrightarrow> mw_module w' = mw_module w)"

lemma pbind_cases:
  "pbind m f s = Some (r, t) \<longleftrightarrow>
     (\<exists>x s'. m s = Some (Ok x, s') \<and> f x s' = Some (r, t)) \<or>
     (\<exists>e. m s = Some (Err e, t) \<and> r = Err e) \<or> m s = Some (Panic, t) \<and> r = Panic"
  by (auto simp: pbind_def split: option.splits prod.splits outcome.splits)

lemma pbind_assoc: "pbind (pbind m f) g = pbind m (\<lambda>x. pbind (f x) g)"
  by (rule ext) (auto simp: pbind_def split: option.splits prod.splits outcome.splits)

lemma keeps_module_pbind:
  "keeps_module m \<Longrightarrow> (\<And>x. keeps_module (f x)) \<Longrightarrow> keeps_module (pbind m f)"
  unfolding keeps_module_def pbind_cases by metis

lemma keeps_module_basic:
  "keeps_module (plift r)" "keeps_module (\<lambda>w. Some (g w, w))" "keeps_module (on_platform p)" "keeps_module (on_stream q)"
  "keeps_module (on_connection k c)"
  by (auto simp: keeps_module_def on_platform_def on_stream_def on_connection_def)

lemma keeps_module_pmap_err: "keeps_module p \<Longrightarrow> keeps_module (pmap_err f p)"
  by (auto simp: keeps_module_def pmap_err_def split: option.splits)

lemmas keeps_module_intros = keeps_module_pbind keeps_module_basic keeps_module_pmap_err

text \<open>Everything before the installation: it yields the own information and the peer's.\<close>

definition negotiated ::
    "('h, 'v, 'k, 'm) msk_env \<Rightarrow> migtd_info
     \<Rightarrow> (('h, 'v, 'm) msk_world, migration_result, exchange_information \<times> exchange_information) prog" where
  "negotiated env info =
     pbind (plift
       (case init_td_info_if_present info of
          None \<Rightarrow> Ok ()
        | Some td_info \<Rightarrow>
            map_err (\<lambda>_. PolicyUnsatisfiedError)
              (verify_init_migtd_data_policy_binding (te_mig (xe_tls env)) td_info))) (\<lambda>_.
     pbind (on_stream (setup_transport (xe_register_callback env) (mig_request_id info))) (\<lambda>_.
     pbind (on_stream (await_timely (xe_pre_session_expires env) id
       (pre_session_data_exchange (xe_write env) (xe_read env)
          (te_policy (xe_tls env)) (te_issuer_chain (xe_tls env))))) (\<lambda>peer_data.
     pbind (\<lambda>w. plift (exchange_info (xe_module env) info (is_src info) (mw_module w)) w) (\<lambda>xi.
     pbind (if is_src info then migration_src_exchange_msk env xi peer_data
            else migration_dst_exchange_msk env xi peer_data) (\<lambda>remote. plift (Ok (xi, remote)))))))"

lemma pbind_plift_Ok [simp]: "pbind (plift (Ok x)) f = f x"
  by (rule ext) (simp add: pbind_def)

lemma exchange_msk_split:
  "exchange_msk env info = pbind (negotiated env info) (\<lambda>(xi, remote). install_msk env info xi remote)"
  by (simp add: exchange_msk_def negotiated_def pbind_assoc)

lemma negotiated_keeps_module: "keeps_module (negotiated env info)"
  unfolding negotiated_def migration_src_exchange_msk_def migration_dst_exchange_msk_def
  by (auto intro!: keeps_module_intros)

text \<open>Writes to the fields of the target TD, in order; the state after the first \<open>n\<close> of them.\<close>

fun writes :: "(64 word \<Rightarrow> 64 word \<Rightarrow> 'm \<Rightarrow> 'm option) \<Rightarrow> (64 word \<times> 64 word) list \<Rightarrow> 'm \<Rightarrow> 'm option" where
  "writes wr [] m = Some m"
| "writes wr ((field, content) # ws) m = Option.bind (wr field content m) (writes wr ws)"

fun key_writes :: "nat \<Rightarrow> migration_session_key \<Rightarrow> (64 word \<times> 64 word) list" where
  "key_writes idx [] = []"
| "key_writes idx (k # ks) = (TDCS_FIELD_MIG_DEC_KEY + word_of_nat idx, k) # key_writes (Suc idx) ks"

definition msk_writes :: "16 word \<Rightarrow> migration_session_key \<Rightarrow> (64 word \<times> 64 word) list" where
  "msk_writes v key = (TDCS_FIELD_MIG_VERSION, ucast v) # key_writes 0 key"

lemma length_key_writes [simp]: "length (key_writes idx ks) = length ks"
  by (induction idx ks rule: key_writes.induct) simp_all

lemma write_msk_from_writes:
  "write_msk_from wr idx ks m = (r, m') \<Longrightarrow>
     \<exists>n \<le> length ks. writes wr (take n (key_writes idx ks)) m = Some m' \<and> (r = Ok () \<longleftrightarrow> n = length ks)"
proof (induction wr idx ks m rule: write_msk_from.induct)
  case (2 wr idx k ks m)
  show ?case
  proof (cases "wr (TDCS_FIELD_MIG_DEC_KEY + word_of_nat idx) k m")
    case None
    then show ?thesis using "2.prems" by (intro exI [of _ 0]) auto
  next
    case (Some m1)
    with "2.IH" [of m1] "2.prems" obtain n where "n \<le> length ks"
      "writes wr (take n (key_writes (Suc idx) ks)) m1 = Some m'" "r = Ok () \<longleftrightarrow> n = length ks" by auto
    then show ?thesis using Some by (intro exI [of _ "Suc n"]) auto
  qed
qed simp

lemma install_msk_writes:
  assumes "install_msk env info xi remote w = Some (res, w')"
  shows "mw_module w' = mw_module w \<and> res \<noteq> Ok () \<or>
    (\<exists>v n. cal_mig_version (is_src info) xi remote = Ok v \<and>
       verify_servtd_attr (module_rd (xe_module env) info (mw_module w)) = Ok () \<and>
       n \<le> Suc (length (xi_key remote)) \<and>
       writes (module_wr (xe_module env) info) (take n (msk_writes v (xi_key remote))) (mw_module w) = Some (mw_module w') \<and>
       (res = Ok () \<longleftrightarrow> n = Suc (length (xi_key remote))))"
proof (cases "\<exists>v. cal_mig_version (is_src info) xi remote = Ok v \<and>
    verify_servtd_attr (module_rd (xe_module env) info (mw_module w)) = Ok ()")
  case False
  then show ?thesis
    using assms by (auto simp: install_msk_def pbind_cases)
next
  case True
  then obtain v where v: "cal_mig_version (is_src info) xi remote = Ok v"
    "verify_servtd_attr (module_rd (xe_module env) info (mw_module w)) = Ok ()" by blast
  let ?wr = "module_wr (xe_module env) info"
  show ?thesis
  proof (cases "?wr TDCS_FIELD_MIG_VERSION (ucast v) (mw_module w)")
    case None
    then show ?thesis
      using assms v by (auto simp: install_msk_def pbind_cases on_module_def set_mig_version_def)
  next
    case (Some m)
    obtain r m' where r: "write_msk_from ?wr 0 (xi_key remote) m = (r, m')" by fastforce
    then have "res = r" "mw_module w' = m'"
      using assms v Some by (auto simp: install_msk_def pbind_cases on_module_def set_mig_version_def write_msk_def)
    moreover obtain n where "n \<le> length (xi_key remote)"
      "writes ?wr (take n (key_writes 0 (xi_key remote))) m = Some m'" "r = Ok () \<longleftrightarrow> n = length (xi_key remote)"
      using write_msk_from_writes [OF r] by blast
    ultimately show ?thesis
      using v Some by (intro disjI2 exI [of _ v] exI [of _ "Suc n"]) (simp add: msk_writes_def)
  qed
qed

lemma length_xi_key_dec [simp]: "length (xi_key (dec_exchange_information bs)) = 4"
  by (simp add: dec_exchange_information_def)

lemma exchange_over_Ok:
  "exchange_over env tls_read xi c = Some (Ok remote, c') \<Longrightarrow>
     \<exists>n c1 c2 bs. tls_write (xe_lib env) (xe_write env) (xe_read env) (exchange_information_as_bytes xi) c = Some (Ok n, c1) \<and>
       tls_read 40 c1 = Some (Ok bs, c2) \<and> 40 \<le> length bs \<and> remote = dec_exchange_information bs \<and>
       xi_reserved remote = replicate 4 0"
  by (auto simp: exchange_over_def await_timely_def with_timeout_def channel_def stream_result_def outcome_simps
      exchange_information_validate_def received_into_full shutdown_connection_def Let_def
      split: option.splits outcome.splits if_splits)

lemma on_stream_module: "on_stream p w = Some (r, w') \<Longrightarrow> mw_module w' = mw_module w"
  by (auto simp: on_stream_def)

text \<open>A completed negotiation: the blob received before the session, and the information received in it.\<close>

lemma negotiated_Ok:
  assumes "negotiated env info w = Some (Ok (xi, remote), w1)"
  shows "exchange_info (xe_module env) info (is_src info) (mw_module w) = Ok xi"
    and "\<exists>blob t0 t1 h h' k t c1 c2 n bs.
      pre_session_data_exchange (xe_write env) (xe_read env) (te_policy (xe_tls env)) (te_issuer_chain (xe_tls env)) t0
        = Some (Ok blob, t1) \<and>
      (if is_src info then client (xe_tls env) (xe_tls_client env) blob h
       else server (xe_tls env) (xe_tls_server env) blob h) = Some (Ok k, h') \<and>
      tls_write (xe_lib env) (xe_write env) (xe_read env) (exchange_information_as_bytes xi) (tls_connection_new k t)
        = Some (Ok n, c1) \<and>
      (if is_src info then tls_client_read else tls_server_read) (xe_lib env) (xe_write env) (xe_read env) 40 c1
        = Some (Ok bs, c2) \<and>
      remote = dec_exchange_information bs \<and> xi_reserved remote = replicate 4 0"
proof -
  obtain blob w0 w2 where
      opened: "on_stream (setup_transport (xe_register_callback env) (mig_request_id info)) w = Some (Ok (), w0)"
    and pre: "on_stream (await_timely (xe_pre_session_expires env) id
      (pre_session_data_exchange (xe_write env) (xe_read env) (te_policy (xe_tls env)) (te_issuer_chain (xe_tls env)))) w0
      = Some (Ok blob, w2)"
    and ex: "exchange_info (xe_module env) info (is_src info) (mw_module w2) = Ok xi"
    and x: "(if is_src info then migration_src_exchange_msk env xi blob else migration_dst_exchange_msk env xi blob) w2
      = Some (Ok remote, w1)"
    using assms unfolding negotiated_def by (auto simp: outcome_simps)
  have m: "mw_module w2 = mw_module w" using on_stream_module [OF pre] on_stream_module [OF opened] by simp
  show "exchange_info (xe_module env) info (is_src info) (mw_module w) = Ok xi" using m ex by simp
  obtain t1 where "pre_session_data_exchange (xe_write env) (xe_read env) (te_policy (xe_tls env)) (te_issuer_chain (xe_tls env))
      (mw_stream w0) = Some (Ok blob, t1)"
    using pre by (auto simp: on_stream_def await_timely_def with_timeout_def outcome_simps split: option.splits outcome.splits)
  moreover obtain k h' t c' where "(if is_src info then client (xe_tls env) (xe_tls_client env) blob (mw_platform w2)
       else server (xe_tls env) (xe_tls_server env) blob (mw_platform w2)) = Some (Ok k, h')"
    "exchange_over env ((if is_src info then tls_client_read else tls_server_read) (xe_lib env) (xe_write env) (xe_read env)) xi
      (tls_connection_new k t) = Some (Ok remote, c')"
    using x by (auto simp: migration_src_exchange_msk_def migration_dst_exchange_msk_def on_platform_def on_stream_def
        on_connection_def outcome_simps split: if_splits)
  ultimately show "\<exists>blob t0 t1 h h' k t c1 c2 n bs.
      pre_session_data_exchange (xe_write env) (xe_read env) (te_policy (xe_tls env)) (te_issuer_chain (xe_tls env)) t0
        = Some (Ok blob, t1) \<and>
      (if is_src info then client (xe_tls env) (xe_tls_client env) blob h
       else server (xe_tls env) (xe_tls_server env) blob h) = Some (Ok k, h') \<and>
      tls_write (xe_lib env) (xe_write env) (xe_read env) (exchange_information_as_bytes xi) (tls_connection_new k t)
        = Some (Ok n, c1) \<and>
      (if is_src info then tls_client_read else tls_server_read) (xe_lib env) (xe_write env) (xe_read env) 40 c1
        = Some (Ok bs, c2) \<and>
      remote = dec_exchange_information bs \<and> xi_reserved remote = replicate 4 0"
    using exchange_over_Ok by metis
qed

lemma exchange_msk_cases:
  assumes "exchange_msk env info w = Some (res, w')"
  obtains (failed) "mw_module w' = mw_module w" "res \<noteq> Ok ()"
  | (installed) xi remote w1 where "negotiated env info w = Some (Ok (xi, remote), w1)" "mw_module w1 = mw_module w"
      "install_msk env info xi remote w1 = Some (res, w')"
  using assms negotiated_keeps_module [of env info] unfolding exchange_msk_split pbind_cases keeps_module_def
  by fastforce


section \<open>Agreement of the two sides\<close>

text \<open>A TDX module in which a write takes place and changes nothing but the field written.\<close>

definition effective_module :: "'m tdx_module \<Rightarrow> migtd_info \<Rightarrow> bool" where
  "effective_module md info \<longleftrightarrow> (\<forall>field content m. \<exists>m'. module_wr md info field content m = Some m' \<and>
     (\<forall>g. module_rd md info m' g = (if g = field then Some content else module_rd md info m g)))"

lemma effective_writes:
  assumes "effective_module md info" and "distinct (map fst ws)"
  shows "\<exists>m'. writes (module_wr md info) ws m = Some m' \<and>
    (\<forall>g. module_rd md info m' g = (case map_of ws g of Some v \<Rightarrow> Some v | None \<Rightarrow> module_rd md info m g))"
  using assms(2)
proof (induction ws arbitrary: m)
  case (Cons w ws)
  obtain field content where w: "w = (field, content)" by (cases w)
  obtain m1 where m1: "module_wr md info field content m = Some m1"
    "\<forall>g. module_rd md info m1 g = (if g = field then Some content else module_rd md info m g)"
    using assms(1) unfolding effective_module_def by meson
  obtain m' where m': "writes (module_wr md info) ws m1 = Some m'"
    "\<forall>g. module_rd md info m' g = (case map_of ws g of Some v \<Rightarrow> Some v | None \<Rightarrow> module_rd md info m1 g)"
    using Cons.IH [of m1] Cons.prems by auto
  have "map_of ws field = None" using Cons.prems w by (simp add: map_of_eq_None_iff)
  then show ?case using m1 m' w by (intro exI [of _ m']) (auto split: option.splits)
qed simp

lemma length_4E: assumes "length xs = 4" obtains a b c d where "xs = [a, b, c, d]"
  using assms by (auto simp: length_Suc_conv numeral_eq_Suc)

lemma write_msk_from_Ok: "writes wr (key_writes idx ks) m = Some m' \<Longrightarrow> write_msk_from wr idx ks m = (Ok (), m')"
  by (induction wr idx ks m rule: write_msk_from.induct) (auto split: option.splits bind_splits)

lemma upt_4: "[0..<4] = [0, 1, 2, 3]"
  by code_simp

lemma install_msk_effective:
  assumes "effective_module (xe_module env) info" and "length (xi_key remote) = 4"
    and "cal_mig_version (is_src info) xi remote = Ok v"
    and "verify_servtd_attr (module_rd (xe_module env) info (mw_module w)) = Ok ()"
  shows "\<exists>w'. install_msk env info xi remote w = Some (Ok (), w') \<and>
    module_rd (xe_module env) info (mw_module w') TDCS_FIELD_MIG_VERSION = Some (ucast v) \<and>
    map (\<lambda>i. module_rd (xe_module env) info (mw_module w') (TDCS_FIELD_MIG_DEC_KEY + word_of_nat i)) [0..<4]
      = map Some (xi_key remote)"
proof -
  obtain a b c d where key: "xi_key remote = [a, b, c, d]" using assms(2) by (rule length_4E)
  let ?wr = "module_wr (xe_module env) info"
  have "distinct (map fst (msk_writes v (xi_key remote)))"
    by (simp add: msk_writes_def key TDCS_FIELD_MIG_VERSION_def TDCS_FIELD_MIG_DEC_KEY_def)
  from effective_writes [OF assms(1) this] obtain m where
    m: "writes ?wr (msk_writes v (xi_key remote)) (mw_module w) = Some m" and
    rd: "\<forall>g. module_rd (xe_module env) info m g = (case map_of (msk_writes v (xi_key remote)) g of
      Some v \<Rightarrow> Some v | None \<Rightarrow> module_rd (xe_module env) info (mw_module w) g)" by blast
  obtain m1 where m1: "?wr TDCS_FIELD_MIG_VERSION (ucast v) (mw_module w) = Some m1"
    "write_msk_from ?wr 0 (xi_key remote) m1 = (Ok (), m)"
    using m by (auto simp: msk_writes_def dest!: write_msk_from_Ok split: bind_splits)
  have "install_msk env info xi remote w = Some (Ok (), w\<lparr> mw_module := m \<rparr>)"
    using assms(3,4) m1 by (simp add: install_msk_def pbind_def on_module_def set_mig_version_def write_msk_def)
  moreover have "map_of (msk_writes v (xi_key remote)) TDCS_FIELD_MIG_VERSION = Some (ucast v)"
    "map (\<lambda>i. map_of (msk_writes v (xi_key remote)) (TDCS_FIELD_MIG_DEC_KEY + word_of_nat i)) [0..<4] = map Some (xi_key remote)"
    by (simp_all add: msk_writes_def key upt_4 TDCS_FIELD_MIG_VERSION_def TDCS_FIELD_MIG_DEC_KEY_def)
  then have "module_rd (xe_module env) info m TDCS_FIELD_MIG_VERSION = Some (ucast v)"
    "map (\<lambda>i. module_rd (xe_module env) info m (TDCS_FIELD_MIG_DEC_KEY + word_of_nat i)) [0..<4] = map Some (xi_key remote)"
    unfolding key upt_4 by (simp_all only: rd key list.map option.case list.inject)
  ultimately show ?thesis by (intro exI [of _ "w\<lparr> mw_module := m \<rparr>"]) simp
qed

lemma read_msk_from_Ok:
  "read_msk_from rd idxs = Ok key \<longleftrightarrow> map (\<lambda>i. rd (TDCS_FIELD_MIG_ENC_KEY + word_of_nat i)) idxs = map Some key"
proof (induction idxs arbitrary: key)
  case (Cons i idxs)
  then show ?case by (cases key) (simp_all add: outcome_simps)
qed auto

lemma exchange_info_Ok:
  assumes "exchange_info md info s m = Ok xi"
  shows "exchange_information_typed xi" "xi_reserved xi = replicate 4 0"
    and "map (\<lambda>i. module_rd md info m (TDCS_FIELD_MIG_ENC_KEY + word_of_nat i)) [0..<4] = map Some (xi_key xi)"
proof -
  have rd: "read_msk md info m = Ok (xi_key xi)" and "xi_reserved xi = replicate 4 0"
    using assms by (auto simp: exchange_info_def outcome_simps exchange_information_default_def Let_def split: if_splits)
  then show "xi_reserved xi = replicate 4 0"
    "map (\<lambda>i. module_rd md info m (TDCS_FIELD_MIG_ENC_KEY + word_of_nat i)) [0..<4] = map Some (xi_key xi)"
    by (simp_all add: read_msk_def read_msk_from_Ok migration_session_key_new_def)
  from this(2) have "length (xi_key xi) = length [0..<4]" by (metis length_map)
  then show "exchange_information_typed xi" using \<open>xi_reserved xi = _\<close> by (simp add: exchange_information_typed_def)
qed

text \<open>
  C6: Two MigTDs that receive each other's information end up with matching modules.  If their version ranges
  meet, their bindings have the expected attribute and their modules carry out writes, both
  installations succeed; the source and the destination then hold the same migration version, the greatest
  common one, and the decryption key of each is, word for word, the encryption key of the other.
\<close>
theorem msk_agreement:
  assumes "exchange_info (xe_module ea) ia (is_src ia) (mw_module wa) = Ok xa"
    and "exchange_info (xe_module eb) ib (is_src ib) (mw_module wb) = Ok xb"
    and "common_versions xa xb \<noteq> {}"
    and "effective_module (xe_module ea) ia" and "effective_module (xe_module eb) ib"
    and "verify_servtd_attr (module_rd (xe_module ea) ia (mw_module wa)) = Ok ()"
    and "verify_servtd_attr (module_rd (xe_module eb) ib (mw_module wb)) = Ok ()"
  shows "\<exists>wa' wb'.
    install_msk ea ia xa (received_into exchange_information_default (exchange_information_as_bytes xb)) wa = Some (Ok (), wa') \<and>
    install_msk eb ib xb (received_into exchange_information_default (exchange_information_as_bytes xa)) wb = Some (Ok (), wb') \<and>
    module_rd (xe_module ea) ia (mw_module wa') TDCS_FIELD_MIG_VERSION = Some (ucast (Max (common_versions xa xb))) \<and>
    module_rd (xe_module eb) ib (mw_module wb') TDCS_FIELD_MIG_VERSION = Some (ucast (Max (common_versions xa xb))) \<and>
    map (\<lambda>i. module_rd (xe_module ea) ia (mw_module wa') (TDCS_FIELD_MIG_DEC_KEY + word_of_nat i)) [0..<4] =
      map (\<lambda>i. module_rd (xe_module eb) ib (mw_module wb) (TDCS_FIELD_MIG_ENC_KEY + word_of_nat i)) [0..<4] \<and>
    map (\<lambda>i. module_rd (xe_module eb) ib (mw_module wb') (TDCS_FIELD_MIG_DEC_KEY + word_of_nat i)) [0..<4] =
      map (\<lambda>i. module_rd (xe_module ea) ia (mw_module wa) (TDCS_FIELD_MIG_ENC_KEY + word_of_nat i)) [0..<4]"
proof -
  note a = exchange_info_Ok [OF assms(1)] and b = exchange_info_Ok [OF assms(2)]
  have recv: "received_into exchange_information_default (exchange_information_as_bytes xa) = xa"
    "received_into exchange_information_default (exchange_information_as_bytes xb) = xb"
    using a(1) b(1) by (simp_all add: received_into_full exchange_information.length_enc exchange_information.dec_enc)
  have cal: "cal_mig_version (is_src ia) xa xb = Ok (Max (common_versions xa xb))"
    "cal_mig_version (is_src ib) xb xa = Ok (Max (common_versions xa xb))"
    using assms(3) by (simp_all add: cal_mig_version_eq common_versions_def Int_commute)
  have len: "length (xi_key xa) = 4" "length (xi_key xb) = 4"
    using a(1) b(1) by (simp_all add: exchange_information_typed_def)
  obtain wa' where
    "install_msk ea ia xa xb wa = Some (Ok (), wa')"
    "module_rd (xe_module ea) ia (mw_module wa') TDCS_FIELD_MIG_VERSION = Some (ucast (Max (common_versions xa xb)))"
    "map (\<lambda>i. module_rd (xe_module ea) ia (mw_module wa') (TDCS_FIELD_MIG_DEC_KEY + word_of_nat i)) [0..<4] = map Some (xi_key xb)"
    using install_msk_effective [OF assms(4) len(2) cal(1) assms(6)] by (elim exE conjE)
  moreover obtain wb' where
    "install_msk eb ib xb xa wb = Some (Ok (), wb')"
    "module_rd (xe_module eb) ib (mw_module wb') TDCS_FIELD_MIG_VERSION = Some (ucast (Max (common_versions xa xb)))"
    "map (\<lambda>i. module_rd (xe_module eb) ib (mw_module wb') (TDCS_FIELD_MIG_DEC_KEY + word_of_nat i)) [0..<4] = map Some (xi_key xa)"
    using install_msk_effective [OF assms(5) len(1) cal(2) assms(7)] by (elim exE conjE)
  ultimately show ?thesis
    unfolding recv a(3) b(3) by (intro exI [of _ wa'] exI [of _ wb'] conjI)
qed

section \<open>Only authenticated peers\<close>

text \<open>
  What the TLS library promises: a connection made from a configuration carries data only after the
  configuration's callback has accepted a certificate that the peer presented.
\<close>

definition library_authenticates :: "('h, 'v, 'k, 'm) msk_env \<Rightarrow> bool" where
  "library_authenticates env \<longleftrightarrow> (\<forall>new cfg k t data n c'.
     new \<in> {xe_tls_client env, xe_tls_server env} \<and> new cfg = Ok k \<and>
     tls_write (xe_lib env) (xe_write env) (xe_read env) data (tls_connection_new k t) = Some (Ok n, c') \<longrightarrow>
     (\<exists>der h h'. tc_callback cfg der (tc_data cfg) h = Some (Ok (), h')))"

lemma session_callback:
  assumes "library_authenticates env"
    and "(if s then client (xe_tls env) (xe_tls_client env) blob h else server (xe_tls env) (xe_tls_server env) blob h) = Some (Ok k, h')"
    and "tls_write (xe_lib env) (xe_write env) (xe_read env) data (tls_connection_new k t) = Some (Ok n, c')"
  shows "\<exists>der h h'. verify_peer_cert (xe_tls env) s der blob h = Some (Ok (), h')"
proof -
  obtain cert key where "(if s then xe_tls_client env else xe_tls_server env)
      \<lparr> tc_certs = [cert], tc_signing_key = key, tc_callback = verify_peer_cert (xe_tls env) s, tc_data = blob \<rparr> = Ok k"
    using assms(2)
    by (auto simp: client_def server_def outcome_simps tls_config_new_def verify_server_cert_def [abs_def]
        verify_client_cert_def [abs_def] split: if_splits)
  moreover have "(if s then xe_tls_client env else xe_tls_server env) \<in> {xe_tls_client env, xe_tls_server env}" by simp
  ultimately show ?thesis
    using assms(1) [unfolded library_authenticates_def, rule_format, OF conjI, OF _ conjI, OF _ _ assms(3)] by fastforce
qed

text \<open>
  C4: Keys are installed for an authenticated peer only.  With a TLS library that calls the callback it was given, an exchange
  that returns has either failed with the TDX module untouched, or the peer's certificate was accepted by the callback
  of the side's role against the very policy blob that the peer had sent before the session.
\<close>
theorem exchange_msk_authenticated:
  assumes "library_authenticates env" and "exchange_msk env info w = Some (res, w')"
  shows "mw_module w' = mw_module w \<and> res \<noteq> Ok () \<or>
    (\<exists>blob t t' der h h'.
       pre_session_data_exchange (xe_write env) (xe_read env) (te_policy (xe_tls env)) (te_issuer_chain (xe_tls env)) t
         = Some (Ok blob, t') \<and>
       verify_peer_cert (xe_tls env) (is_src info) der blob h = Some (Ok (), h'))"
  using assms(2)
proof (cases rule: exchange_msk_cases)
  case (installed xi remote w1)
  from negotiated_Ok(2) [OF this(1)] show ?thesis
  proof (elim exE conjE, goal_cases)
    case (1 blob t0 t1 h h' k t c1 c2 n bs)
    from session_callback [OF assms(1) 1(2,3)] 1(1) show ?case by (elim exE) (intro disjI2 exI conjI)
  qed
qed simp

section \<open>A complete run\<close>

text \<open>
  A source on the platform of \<open>toy_tls\<close> whose peer has sent its part of the pre-session exchange.
  The state of the TDX module is the content of the fields.
\<close>

definition toy_module :: "(64 word \<Rightarrow> 64 word) tdx_module" where
  "toy_module = \<lparr> servtd_rd = \<lambda>h field uuid m. Some (m field), servtd_wr = \<lambda>h field content uuid m. Some (m(field := content)),
     td_call_sys_rd = \<lambda>field. (0, 0, if field = GSM_FIELD_MIN_EXPORT_VERSION then 1 else 4) \<rparr>"

definition toy_info :: migtd_info where
  "toy_info = \<lparr> mig_request_id = 7, migration_source = 1, has_init_data = 0, info_reserved = replicate 6 0,
     target_td_uuid = replicate 4 0, binding_handle = 3, mig_policy_id = 0, communication_id = 0, init_td_info = [] \<rparr>"

definition toy_peer_blob :: bytes where "toy_peer_blob = [1, 0, 0, 0, 1, 1, 0, 0, 0, 2]"

definition toy_env :: "'k tls_lib \<Rightarrow> (unit tls_config \<Rightarrow> (crypto_error, 'k) outcome) \<Rightarrow>
    (unit, fifo, 'k, 64 word \<Rightarrow> 64 word) msk_env" where
  "toy_env lib new = \<lparr> xe_tls = toy_tls, xe_vmm = fifo_vmm, xe_register_callback = Ok (), xe_lib = lib, xe_tls_client = new,
     xe_tls_server = new, xe_module = toy_module, xe_pre_session_expires = Map.empty, xe_write_expires = Map.empty,
     xe_read_expires = Map.empty \<rparr>"

lemma toy_env_simps [simp]:
  "xe_tls (toy_env lib new) = toy_tls" "xe_vmm (toy_env lib new) = fifo_vmm" "xe_register_callback (toy_env lib new) = Ok ()"
  "xe_lib (toy_env lib new) = lib" "xe_tls_client (toy_env lib new) = new" "xe_tls_server (toy_env lib new) = new"
  "xe_module (toy_env lib new) = toy_module" "xe_pre_session_expires (toy_env lib new) = Map.empty"
  "xe_write_expires (toy_env lib new) = Map.empty" "xe_read_expires (toy_env lib new) = Map.empty"
  by (simp_all add: toy_env_def)

definition toy_msk_world :: "(unit, fifo, 64 word \<Rightarrow> 64 word) msk_world" where
  "toy_msk_world = \<lparr> mw_platform = toy_world, mw_stream = vmcall_raw_new 0 Map.empty
     \<lparr> f_accepted = [], f_packets = [local_script toy_peer_blob], f_done = False, f_buffer = [] \<rparr>, mw_module = \<lambda>_. 0 \<rparr>"

definition toy_stream :: "fifo vmcall_raw" where
  "toy_stream = vmcall_raw_new 7 [7 \<mapsto> False]
     \<lparr> f_accepted = [], f_packets = [local_script toy_peer_blob], f_done = False, f_buffer = [] \<rparr>"

lemma local_script_length: "length (local_script blob) = 32 + length blob"
  by (simp add: local_script_def exchange_script_def layout_simps pre_session_message_as_bytes_def
        hello_packet_payload_as_bytes_def hello_packet_payload_new_def HELLO_PACKET_MAGIC_WORD_def)

lemma toy_pre_session:
  "\<exists>t. pre_session_data_exchange (vmcall_raw_write fifo_vmm) (vmcall_raw_read fifo_vmm) (te_policy toy_tls) (te_issuer_chain toy_tls)
     toy_stream = Some (Ok toy_peer_blob, t)"
proof -
  have ok: "reserved_ok (replicate 3 0, replicate 3 0, replicate 3 0)" by (simp add: reserved_ok_def)
  have len: "length (local_script toy_peer_blob) = 42" by (simp add: local_script_length toy_peer_blob_def)
  then have "local_script toy_peer_blob \<noteq> []" by auto
  with len have conn: "vr_connected toy_stream" by (simp add: toy_stream_def vmcall_raw_new_def vr_view_defs vr_size_defs)
  have blob: "acceptable_blob toy_peer_blob"
    by (rule acceptable_blob_local [of "te_policy toy_tls" "te_issuer_chain toy_tls"])
       (simp_all add: toy_blob toy_peer_blob_def, simp_all add: toy_tls_def)
  have "vr_incoming toy_stream = local_script toy_peer_blob @ []" by (simp add: toy_stream_def vmcall_raw_new_def vr_incoming_def)
  from live_transport.pre_session_exchange_complete [OF vmcall_fifo.live_transport_axioms conn toy_blob ok acceptable_hello_new
      blob, folded local_script_def, OF this] show ?thesis by blast
qed

lemma toy_client:
  "client toy_tls new blob toy_world =
     Some (map_err Crypto (new \<lparr> tc_certs = [[1]], tc_signing_key = toy_key, tc_callback = verify_peer_cert toy_tls True,
       tc_data = blob \<rparr>), toy_world)"
proof -
  have "te_new_key toy_tls = Some toy_key" by (simp add: toy_tls_def)
  with toy_created show ?thesis
    by (simp add: client_def pbind_def tls_config_new_def verify_server_cert_def [abs_def])
qed

lemma replicate_4: "replicate 4 x = [x, x, x, x]"
  by (simp add: numeral_eq_Suc)

lemma toy_key_words:
  "read_msk toy_module toy_info (\<lambda>_. 0) = Ok migration_session_key_new"
  by (simp add: read_msk_def migration_session_key_new_def upt_4 toy_module_def replicate_4)

lemma toy_exchange:
  assumes "new \<lparr> tc_certs = [[1]], tc_signing_key = toy_key, tc_callback = verify_peer_cert toy_tls True,
       tc_data = toy_peer_blob \<rparr> = Ok k"
  shows "\<exists>t. exchange_msk (toy_env lib new) toy_info toy_msk_world =
    pbind (on_connection k (exchange_over (toy_env lib new)
        (tls_client_read lib (vmcall_raw_write fifo_vmm) (vmcall_raw_read fifo_vmm))
        (exchange_information_default\<lparr> min_ver := 1, max_ver := 4 \<rparr>)))
      (install_msk (toy_env lib new) toy_info (exchange_information_default\<lparr> min_ver := 1, max_ver := 4 \<rparr>))
      (toy_msk_world\<lparr> mw_stream := t \<rparr>)"
proof -
  obtain t where t: "pre_session_data_exchange (vmcall_raw_write fifo_vmm) (vmcall_raw_read fifo_vmm) (te_policy toy_tls) (te_issuer_chain toy_tls)
     toy_stream = Some (Ok toy_peer_blob, t)"
    using toy_pre_session by blast
  have src: "is_src toy_info" by (simp add: is_src_def toy_info_def)
  have opened: "on_stream (setup_transport (Ok ()) 7) toy_msk_world = Some (Ok (), toy_msk_world\<lparr> mw_stream :=
      toy_stream \<rparr>)"
    by (simp add: on_stream_def setup_transport_def vmcall_raw_connect_def pmap_err_def toy_msk_world_def toy_stream_def vmcall_raw_new_def)
  have "tdcall_sys_rd toy_module GSM_FIELD_MIN_EXPORT_VERSION = Ok (0, 1)" "tdcall_sys_rd toy_module GSM_FIELD_MAX_EXPORT_VERSION = Ok (0, 4)"
    by (simp_all add: tdcall_sys_rd_def toy_module_def TDCALL_STATUS_SUCCESS_def GSM_FIELD_MIN_EXPORT_VERSION_def
        GSM_FIELD_MAX_EXPORT_VERSION_def)
  then have info: "exchange_info toy_module toy_info True (\<lambda>_. 0) = Ok (exchange_information_default\<lparr> min_ver := 1, max_ver := 4 \<rparr>)"
    by (simp add: exchange_info_def toy_key_words exchange_information_default_def)
  have w: "mw_platform toy_msk_world = toy_world" "mw_module toy_msk_world = (\<lambda>_. 0)" by (simp_all add: toy_msk_world_def)
  have upd: "toy_msk_world\<lparr> mw_stream := t, mw_platform := toy_world \<rparr> = toy_msk_world\<lparr> mw_stream := t \<rparr>"
    by (simp add: toy_msk_world_def)
  have req: "has_init_data toy_info = 0" "mig_request_id toy_info = 7" by (simp_all add: toy_info_def)
  have pre: "on_stream (await_timely Map.empty id (pre_session_data_exchange (vmcall_raw_write fifo_vmm) (vmcall_raw_read fifo_vmm)
      (te_policy toy_tls) (te_issuer_chain toy_tls))) (toy_msk_world\<lparr> mw_stream := toy_stream \<rparr>)
      = Some (Ok toy_peer_blob, toy_msk_world\<lparr> mw_stream := t \<rparr>)"
    using t by (simp add: on_stream_def await_timely_def pmap_err_def with_timeout_def pbind_def)
  show ?thesis
    by (rule exI [of _ t])
      (simp add: exchange_msk_def init_td_info_if_present_def src req w upd pbind_def opened pre info toy_client assms
        migration_src_exchange_msk_def on_platform_def pmap_err_def)
qed

text \<open>A library that lets data pass: after one record has been sent, one record with the peer's information arrives.\<close>

definition toy_remote :: exchange_information where
  "toy_remote = \<lparr> xi_key = [11, 12, 13, 14], min_ver = 2, max_ver = 3, xi_reserved = replicate 4 0 \<rparr>"

definition open_lib :: "nat tls_lib" where
  "open_lib = \<lparr> process_tls_records = \<lambda>k bs. (0, Ok (if k = 0 then WriteTraffic else ReadTraffic), bs, k),
     next_record = \<lambda>k bs. (if k = 1 then Some (Ok (0, exchange_information_as_bytes toy_remote)) else None, bs, Suc k),
     lib_encode = \<lambda>n k. (Ok [], k), lib_encrypt = \<lambda>d n k. (Ok [], Suc k), transmit_done = id \<rparr>"

lemma open_lib_simps [simp]:
  "process_tls_records open_lib k bs = (0, Ok (if k = 0 then WriteTraffic else ReadTraffic), bs, k)"
  "next_record open_lib k bs = (if k = 1 then Some (Ok (0, exchange_information_as_bytes toy_remote)) else None, bs, Suc k)"
  "lib_encrypt open_lib d n k = (Ok [], Suc k)"
  by (simp_all add: open_lib_def)

text \<open>A connection between two calls.\<close>

definition idle :: "'k \<Rightarrow> 't \<Rightarrow> ('k, 't) tls_conn" where
  "idle k t = (tls_connection_new k t)\<lparr> tk_handshaking := False \<rparr>"

lemmas idle_defs = idle_def tls_connection_new_def tls_buffer_new_def buffer_used_def overwrite_def

lemma open_exchange:
  "\<exists>c. exchange_over (toy_env open_lib new) (tls_client_read open_lib (vmcall_raw_write fifo_vmm) (vmcall_raw_read fifo_vmm)) xi
     (tls_connection_new 0 t) = Some (Ok toy_remote, c)"
proof -
  have typed: "exchange_information_typed toy_remote"
    by (simp add: exchange_information_typed_def toy_remote_def)
  then have recv: "length (exchange_information_as_bytes toy_remote) = 40"
    "received_into exchange_information_default (exchange_information_as_bytes toy_remote) = toy_remote"
    by (simp_all add: received_into_full exchange_information.length_enc exchange_information.dec_enc)
  let ?wr = "vmcall_raw_write fifo_vmm" and ?rd = "vmcall_raw_read fifo_vmm"
  have "handshake_step open_lib ?wr ?rd (tls_connection_new 0 t) = Some (Ok (Some ()), idle 0 t)"
    by (simp add: handshake_step_def pbind_def process_records_def idle_defs input_discard_def buffer_discard_def slice_def)
  then have shake: "process_tls_status open_lib ?wr ?rd (tls_connection_new 0 t) = Some (Ok (), idle 0 t)"
    unfolding process_tls_status_def by (subst run_loop.simps) simp
  have none: "write_all ?wr [] 0 c = Some (Ok (), c)" for c :: "(nat, fifo vmcall_raw) tls_conn"
    by (subst write_all.simps) simp
  have "write_step open_lib ?wr data (idle 0 t) = Some (Ok (Some ()), idle 1 t)" for data
    by (simp add: write_step_def pbind_def process_records_def encode_output_def try_or_resize_and_retry_def
        buffer_fill_def none output_reset_def buffer_reset_def idle_defs)
  then have "run_loop (write_step open_lib ?wr data) (idle 0 t) = Some (Ok (), idle 1 t)" for data
    by (subst run_loop.simps) simp
  with shake have sent: "tls_write open_lib ?wr ?rd data (tls_connection_new 0 t) = Some (Ok (length data), idle 1 t)" for data
    by (simp add: tls_write_def pbind_def when_handshaking_def tls_connection_new_def)
  define bs where "bs = exchange_information_as_bytes toy_remote"
  have bs: "bs \<noteq> []" "length bs = 40" using recv(1) unfolding bs_def by auto
  have "drain_records open_lib True 0 ((idle 2 t)\<lparr> tk_app_data := [bs] \<rparr>) = Some (Ok 0, (idle 3 t)\<lparr> tk_app_data := [bs] \<rparr>)"
    by (rule trans [OF drain_records.simps]) (simp add: idle_defs)
  moreover have "drain_records open_lib True 0 (idle 1 t) = drain_records open_lib True 0 ((idle 2 t)\<lparr> tk_app_data := [bs] \<rparr>)"
    using bs(1) by (intro trans [OF drain_records.simps]) (simp add: idle_defs is_full_def chunks_len_def chunks_append_def bs_def numeral_2_eq_2)
  ultimately have drained: "drain_records open_lib True 0 (idle 1 t) = Some (Ok 0, (idle 3 t)\<lparr> tk_app_data := [bs] \<rparr>)" by simp
  have "process_records open_lib (idle 1 t) = Some (Ok (0, Ok ReadTraffic), idle 1 t)"
    by (simp add: process_records_def idle_defs)
  with drained bs(2) have "read_step open_lib True ?rd 40 (idle 1 t) = Some (Ok (Some bs), idle 3 t)"
    by (simp add: read_step_def pbind_def read_app_data_def input_discard_def buffer_discard_def slice_def idle_defs)
  then have "run_loop (read_step open_lib True ?rd 40) (idle 1 t) = Some (Ok bs, idle 3 t)"
    by (subst run_loop.simps) simp
  then have "tls_client_read open_lib ?wr ?rd 40 (idle 1 t) = Some (Ok bs, idle 3 t)"
    by (simp add: tls_client_read_def tls_read_with_def pbind_def when_handshaking_def idle_def tls_connection_new_def)
  then show ?thesis
    using sent recv [folded bs_def] by (simp add: exchange_over_def pbind_def await_timely_def pmap_err_def with_timeout_def channel_def
        stream_result_def exchange_information_validate_def toy_remote_def shutdown_connection_def shutdown_transport_def
        vmcall_raw_shutdown_def)
qed

lemma toy_effective: "effective_module toy_module info"
  by (simp add: effective_module_def toy_module_def)

lemma toy_attr: "m TDCS_FIELD_SERVTD_ATTR = 0 \<Longrightarrow> verify_servtd_attr (module_rd toy_module info m) = Ok ()"
  by (simp add: verify_servtd_attr_def toy_module_def EXPECTED_SERVTD_ATTR_def)

lemma toy_run: "\<exists>w'. exchange_msk (toy_env open_lib (\<lambda>_. Ok 0)) toy_info toy_msk_world = Some (Ok (), w')"
proof -
  let ?env = "toy_env open_lib (\<lambda>_. Ok 0)" and ?xi = "exchange_information_default\<lparr> min_ver := 1, max_ver := 4 \<rparr>"
  obtain t where t: "exchange_msk ?env toy_info toy_msk_world =
    pbind (on_connection 0 (exchange_over ?env (tls_client_read open_lib (vmcall_raw_write fifo_vmm) (vmcall_raw_read fifo_vmm)) ?xi))
      (install_msk ?env toy_info ?xi) (toy_msk_world\<lparr> mw_stream := t \<rparr>)"
    using toy_exchange [of "\<lambda>_. Ok 0" 0 open_lib] by blast
  obtain c where c: "exchange_over ?env (tls_client_read open_lib (vmcall_raw_write fifo_vmm) (vmcall_raw_read fifo_vmm)) ?xi
      (tls_connection_new 0 t) = Some (Ok toy_remote, c)"
    using open_exchange by blast
  have cal: "cal_mig_version (is_src toy_info) ?xi toy_remote = Ok 3"
    by (simp add: cal_mig_version_def exchange_information_default_def toy_remote_def)
  have "verify_servtd_attr (module_rd (xe_module ?env) toy_info (mw_module (toy_msk_world\<lparr> mw_stream := tk_transport c \<rparr>))) = Ok ()"
    using toy_attr by (simp add: toy_msk_world_def)
  then have "\<exists>w'. install_msk ?env toy_info ?xi toy_remote (toy_msk_world\<lparr> mw_stream := tk_transport c \<rparr>) = Some (Ok (), w')"
    using install_msk_effective [OF _ _ cal, of ?env "toy_msk_world\<lparr> mw_stream := tk_transport c \<rparr>"] toy_effective
    by (auto simp: toy_remote_def)
  with c t show ?thesis by (simp add: pbind_def on_connection_def on_stream_def)
qed


theorem msk_agreement_witness:
  "\<exists>xa xb wa' wb'.
    install_msk (toy_env open_lib (\<lambda>_. Ok 0)) toy_info xa
      (received_into exchange_information_default (exchange_information_as_bytes xb)) toy_msk_world = Some (Ok (), wa') \<and>
    install_msk (toy_env open_lib (\<lambda>_. Ok 0)) (toy_info\<lparr> migration_source := 0 \<rparr>) xb
      (received_into exchange_information_default (exchange_information_as_bytes xa))
      (toy_msk_world\<lparr> mw_module := (\<lambda>_. 0)(TDCS_FIELD_MIG_ENC_KEY := 9) \<rparr>) = Some (Ok (), wb') \<and>
    mw_module wa' TDCS_FIELD_MIG_VERSION = mw_module wb' TDCS_FIELD_MIG_VERSION \<and>
    mw_module wa' TDCS_FIELD_MIG_DEC_KEY = 9"
proof -
  let ?e = "toy_env open_lib (\<lambda>_. Ok 0)" and ?ib = "toy_info\<lparr> migration_source := 0 \<rparr>"
  let ?wb = "toy_msk_world\<lparr> mw_module := (\<lambda>_. 0)(TDCS_FIELD_MIG_ENC_KEY := 9) \<rparr>"
  have src: "is_src toy_info" "\<not> is_src ?ib" by (simp_all add: is_src_def toy_info_def)
  have sys: "tdcall_sys_rd toy_module f = Ok (0, if f = GSM_FIELD_MIN_EXPORT_VERSION then 1 else 4)" for f
    by (simp add: tdcall_sys_rd_def toy_module_def TDCALL_STATUS_SUCCESS_def)
  have keys: "read_msk toy_module toy_info (\<lambda>_. 0) = Ok [0, 0, 0, 0]"
    "read_msk toy_module ?ib ((\<lambda>_. 0)(TDCS_FIELD_MIG_ENC_KEY := 9)) = Ok [9, 0, 0, 0]"
    by (simp_all add: read_msk_def migration_session_key_new_def upt_4 toy_module_def)
  let ?xa = "\<lparr> xi_key = [0, 0, 0, 0], min_ver = 1, max_ver = 4, xi_reserved = replicate 4 0 \<rparr>"
  let ?xb = "\<lparr> xi_key = [9, 0, 0, 0], min_ver = 4, max_ver = 4, xi_reserved = replicate 4 0 \<rparr>"
  have xa: "exchange_info (xe_module ?e) toy_info (is_src toy_info) (mw_module toy_msk_world) = Ok ?xa"
    using src keys by (simp add: exchange_info_def sys toy_msk_world_def exchange_information_default_def
        GSM_FIELD_MIN_EXPORT_VERSION_def GSM_FIELD_MAX_EXPORT_VERSION_def)
  have xb: "exchange_info (xe_module ?e) ?ib (is_src ?ib) (mw_module ?wb) = Ok ?xb"
    using src keys by (simp add: exchange_info_def sys exchange_information_default_def
        GSM_FIELD_MIN_EXPORT_VERSION_def GSM_FIELD_MIN_IMPORT_VERSION_def GSM_FIELD_MAX_IMPORT_VERSION_def)
  have "common_versions ?xa ?xb \<noteq> {}" by (simp add: common_versions_eq)
  moreover have "verify_servtd_attr (module_rd (xe_module ?e) toy_info (mw_module toy_msk_world)) = Ok ()"
    "verify_servtd_attr (module_rd (xe_module ?e) ?ib (mw_module ?wb)) = Ok ()"
    using toy_attr by (simp_all add: toy_msk_world_def TDCS_FIELD_SERVTD_ATTR_def TDCS_FIELD_MIG_ENC_KEY_def)
  ultimately obtain wa' wb' where w:
    "install_msk ?e toy_info ?xa (received_into exchange_information_default (exchange_information_as_bytes ?xb)) toy_msk_world = Some (Ok (), wa')"
    "install_msk ?e ?ib ?xb (received_into exchange_information_default (exchange_information_as_bytes ?xa)) ?wb = Some (Ok (), wb')"
    "module_rd toy_module toy_info (mw_module wa') TDCS_FIELD_MIG_VERSION = Some (ucast (Max (common_versions ?xa ?xb)))"
    "module_rd toy_module ?ib (mw_module wb') TDCS_FIELD_MIG_VERSION = Some (ucast (Max (common_versions ?xa ?xb)))"
    "map (\<lambda>i. module_rd toy_module toy_info (mw_module wa') (TDCS_FIELD_MIG_DEC_KEY + word_of_nat i)) [0..<4] =
      map (\<lambda>i. module_rd toy_module ?ib (mw_module ?wb) (TDCS_FIELD_MIG_ENC_KEY + word_of_nat i)) [0..<4]"
    using msk_agreement [OF xa xb] toy_effective by (simp only: toy_env_simps) blast
  have rd: "module_rd toy_module info m f = Some (m f)" for info m f by (simp add: toy_module_def)
  have "mw_module wa' TDCS_FIELD_MIG_VERSION = mw_module wb' TDCS_FIELD_MIG_VERSION" using w(3,4) unfolding rd by simp
  moreover have "mw_module wa' TDCS_FIELD_MIG_DEC_KEY = 9" using w(5) unfolding rd upt_4 by simp
  ultimately show ?thesis using w(1,2) by blast
qed

text \<open>A library that presents one certificate to the callback and goes on only if it is accepted.\<close>

definition checking_lib :: "unit tls_config tls_lib" where
  "checking_lib = \<lparr> process_tls_records = \<lambda>cfg bs. (0, (case tc_callback cfg [1] (tc_data cfg) toy_world of
       Some (Ok _, _) \<Rightarrow> Ok WriteTraffic
     | Some (Err e, _) \<Rightarrow> Err (TlsLibGeneral (verifier_error e))
     | _ \<Rightarrow> Panic), bs, cfg),
     next_record = \<lambda>cfg bs. (None, bs, cfg), lib_encode = \<lambda>n cfg. (Ok [], cfg), lib_encrypt = \<lambda>d n cfg. (Ok [], cfg),
     transmit_done = id \<rparr>"

lemma checking_handshake:
  assumes "\<And>h'. tc_callback cfg [1] (tc_data cfg) toy_world \<noteq> Some (Ok (), h')"
  shows "\<exists>r c. process_tls_status checking_lib wr rd (tls_connection_new cfg t) = Some (r, c) \<and> (\<forall>x. r \<noteq> Ok x)"
proof -
  obtain r where r: "process_tls_records checking_lib cfg bs = (0, r, bs, cfg)" "\<And>st. r \<noteq> Ok st" for bs
    using assms by (auto simp: checking_lib_def split: option.splits outcome.splits)
  have "\<exists>r' c. handshake_step checking_lib wr rd (tls_connection_new cfg t) = Some (r', c) \<and> (\<forall>x. r' \<noteq> Ok x)"
  proof (cases r)
    case (Ok st)
    then show ?thesis using r(2) by blast
  qed (simp_all add: handshake_step_def pbind_def process_records_def r(1) tls_connection_new_def input_discard_def
        buffer_discard_def slice_def tls_buffer_new_def buffer_used_def overwrite_def handle_tls_error_def)
  then obtain r' c where "handshake_step checking_lib wr rd (tls_connection_new cfg t) = Some (r', c)" "\<forall>x. r' \<noteq> Ok x" by blast
  then show ?thesis
    unfolding process_tls_status_def by (subst run_loop.simps) (cases r', auto)
qed

lemma checking_refuses:
  assumes "\<And>h'. tc_callback cfg [1] (tc_data cfg) toy_world \<noteq> Some (Ok (), h')"
  shows "\<exists>r c. tls_write checking_lib wr rd data (tls_connection_new cfg t) = Some (r, c) \<and> (\<forall>n. r \<noteq> Ok n)"
proof -
  obtain r c where "process_tls_status checking_lib wr rd (tls_connection_new cfg t) = Some (r, c)" "\<forall>x. r \<noteq> Ok x"
    using checking_handshake [OF assms, where wr = wr and rd = rd and t = t] by (elim exE conjE)
  then show ?thesis
    by (cases r) (simp_all add: tls_write_def pbind_def when_handshaking_def tls_connection_new_def)
qed

lemma checking_authenticates: "library_authenticates (toy_env checking_lib Ok)"
  unfolding library_authenticates_def
proof (intro allI impI, elim conjE)
  fix new cfg k t data n c'
  assume "new \<in> {xe_tls_client (toy_env checking_lib Ok), xe_tls_server (toy_env checking_lib Ok)}" "new cfg = Ok k"
    and "tls_write (xe_lib (toy_env checking_lib Ok)) (xe_write (toy_env checking_lib Ok)) (xe_read (toy_env checking_lib Ok)) data
      (tls_connection_new k t) = Some (Ok n, c')"
  then have "k = cfg" "tls_write checking_lib (vmcall_raw_write fifo_vmm) (vmcall_raw_read fifo_vmm) data
      (tls_connection_new cfg t) = Some (Ok n, c')" by simp_all
  then show "\<exists>der h h'. tc_callback cfg der (tc_data cfg) h = Some (Ok (), h')"
    using checking_refuses [of cfg "vmcall_raw_write fifo_vmm" "vmcall_raw_read fifo_vmm" data t] by (metis option.inject prod.inject)
qed

lemma toy_refused: "verify_peer_cert toy_tls s der blob h \<noteq> Some (Ok (), h')"
proof -
  have "me_policy (te_mig toy_tls) = None" by (simp add: toy_tls_def toy_mig_def)
  then have "authenticate_remote (te_mig toy_tls) s q b l w \<noteq> Some (Ok x, w')" for q b l x w w'
    by (cases s) (simp_all add: authenticate_remote_def authenticate_migration_dest_def authenticate_migration_source_def
        authenticate_remote_common_def outcome_simps split_paired_Ex)
  then show ?thesis by (simp add: verify_peer_cert_def outcome_simps split_paired_Ex)
qed

theorem exchange_msk_authenticated_witness:
  "\<exists>res w'. exchange_msk (toy_env checking_lib Ok) toy_info toy_msk_world = Some (res, w') \<and>
     res \<noteq> Ok () \<and> mw_module w' = mw_module toy_msk_world"
proof -
  let ?env = "toy_env checking_lib Ok" and ?xi = "exchange_information_default\<lparr> min_ver := 1, max_ver := 4 \<rparr>"
  let ?cfg = "\<lparr> tc_certs = [[1]], tc_signing_key = toy_key, tc_callback = verify_peer_cert toy_tls True, tc_data = toy_peer_blob \<rparr>"
  let ?rd = "tls_client_read checking_lib (vmcall_raw_write fifo_vmm) (vmcall_raw_read fifo_vmm)"
  obtain t where t: "exchange_msk ?env toy_info toy_msk_world = pbind (on_connection ?cfg (exchange_over ?env ?rd ?xi))
      (install_msk ?env toy_info ?xi) (toy_msk_world\<lparr> mw_stream := t \<rparr>)"
    using toy_exchange [of Ok ?cfg checking_lib] by blast
  obtain r c where "tls_write checking_lib (vmcall_raw_write fifo_vmm) (vmcall_raw_read fifo_vmm)
      (exchange_information_as_bytes ?xi) (tls_connection_new ?cfg t) = Some (r, c)" "\<forall>n. r \<noteq> Ok n"
    using checking_refuses [of ?cfg "vmcall_raw_write fifo_vmm" "vmcall_raw_read fifo_vmm" "exchange_information_as_bytes ?xi" t]
      toy_refused by (simp del: split_paired_Ex) blast
  then have "\<exists>r c. exchange_over ?env ?rd ?xi (tls_connection_new ?cfg t) = Some (r, c) \<and> (\<forall>x. r \<noteq> Ok x)"
    by (cases r) (auto simp: exchange_over_def pbind_def await_timely_def pmap_err_def with_timeout_def channel_def stream_result_def
        outcome_simps split: outcome.splits)
  then obtain r c where "exchange_over ?env ?rd ?xi (tls_connection_new ?cfg t) = Some (r, c)" "\<forall>x. r \<noteq> Ok x" by blast
  then obtain res w' where "exchange_msk ?env toy_info toy_msk_world = Some (res, w')"
    unfolding t by (cases r) (auto simp: pbind_def on_connection_def on_stream_def)
  moreover from exchange_msk_authenticated [OF checking_authenticates this]
  have "res \<noteq> Ok () \<and> mw_module w' = mw_module toy_msk_world" using toy_refused by simp
  ultimately show ?thesis by blast
qed

end
