(* ===== verification/Logging.thy ===== *)
theory Logging
  imports MigTypes
begin

text \<open>
  The log area (\<open>src/migtd/src/migration/logging.rs\<close>): one page per processor, shared with the VMM, to which records are
  written as binary entries; private pages take the records until the VMM enables the areas.  The
  model has the pages as byte lists, and the indexing and the arithmetic of the source with their panics, which depend on
  offsets that are read back from the shared page.  \<open>dbg\<close> tells a debug image from a release one.  The number of processors,
  the shared pages and the APIC id are parameters; the console of the debug image is not modelled.  A page
  is not changed by the VMM while one record is written to it.
\<close>

section \<open>Model\<close>

subsection \<open>Levels\<close>

datatype level = LevelError | LevelWarn | LevelInfo | LevelDebug | LevelTrace

datatype level_filter = FilterOff | FilterError | FilterWarn | FilterInfo | FilterDebug | FilterTrace

definition u8_to_levelfilter :: "8 word \<Rightarrow> level_filter" where
  "u8_to_levelfilter v =
     (if v = 0 then FilterOff else if v = 1 then FilterError else if v = 2 then FilterWarn
      else if v = 3 then FilterInfo else if v = 4 then FilterDebug else FilterTrace)"

definition u8_to_loglevel :: "8 word \<Rightarrow> level option" where
  "u8_to_loglevel v =
     (if v = 1 then Some LevelError else if v = 2 then Some LevelWarn else if v = 3 then Some LevelInfo
      else if v = 4 then Some LevelDebug else if v = 5 then Some LevelTrace else None)"

fun loglevel_to_u8 :: "level \<Rightarrow> 8 word" where
  "loglevel_to_u8 LevelError = 1"
| "loglevel_to_u8 LevelWarn = 2"
| "loglevel_to_u8 LevelInfo = 3"
| "loglevel_to_u8 LevelDebug = 4"
| "loglevel_to_u8 LevelTrace = 5"

text \<open>The order of \<open>Level\<close> and \<open>LevelFilter\<close> in the crate \<open>log\<close>.\<close>

fun filter_rank :: "level_filter \<Rightarrow> nat" where
  "filter_rank FilterOff = 0"
| "filter_rank FilterError = 1"
| "filter_rank FilterWarn = 2"
| "filter_rank FilterInfo = 3"
| "filter_rank FilterDebug = 4"
| "filter_rank FilterTrace = 5"

definition passes :: "level \<Rightarrow> level_filter \<Rightarrow> bool" where
  "passes l f \<longleftrightarrow> unat (loglevel_to_u8 l) \<le> filter_rank f"

subsection \<open>Structures\<close>

definition LOG_PAGE_SIZE :: nat where "LOG_PAGE_SIZE = 0x1000"
definition MIGRATION_REQUEST_ID_SENTINEL :: "64 word" where "MIGRATION_REQUEST_ID_SENTINEL = 0xFFFFFFFFFFFFFFFF"

definition LOGAREA_SIGNATURE :: bytes where
  "LOGAREA_SIGNATURE =
     [0x4d, 0x69, 0x67, 0x54, 0x44, 0x20, 0x4c, 0x6f, 0x67, 0x41, 0x72, 0x65, 0x61, 0x20, 0x31, 0x00]"

record log_area_buffer_header =
  signature_bytes :: bytes
  vcpuindex :: "32 word"
  area_reserved :: "32 word"
  startoffset :: "64 word"
  endoffset :: "64 word"

definition log_area_buffer_header_as_bytes :: "log_area_buffer_header \<Rightarrow> bytes" where
  "log_area_buffer_header_as_bytes h =
     signature_bytes h @ u32_le (vcpuindex h) @ u32_le (area_reserved h) @ u64_le (startoffset h) @ u64_le (endoffset h)"

definition LOGAREABUFFERHEADERSIZE :: nat where "LOGAREABUFFERHEADERSIZE = 40"

record log_entry_header =
  log_entry_id :: "64 word"
  entry_request_id :: "64 word"
  entry_loglevel :: "8 word"
  entry_reserved :: bytes
  entry_length :: "32 word"

definition log_entry_header_as_bytes :: "log_entry_header \<Rightarrow> bytes" where
  "log_entry_header_as_bytes h =
     u64_le (log_entry_id h) @ u64_le (entry_request_id h) @ [entry_loglevel h] @ entry_reserved h @ u32_le (entry_length h)"

definition dec_log_entry_header :: "bytes \<Rightarrow> log_entry_header" where
  "dec_log_entry_header bs =
     \<lparr> log_entry_id = u64_of (slice 0 8 bs), entry_request_id = u64_of (slice 8 16 bs), entry_loglevel = bs ! 16,
       entry_reserved = slice 17 20 bs, entry_length = u32_of (slice 20 24 bs) \<rparr>"

definition LOGENTRYHEADERSIZE :: nat where "LOGENTRYHEADERSIZE = 24"

text \<open>
  The statics \<open>LOGGING_INFORMATION\<close>, \<open>LOGAREAPTR\<close> and \<open>PROVISIONAL_LOGAREAPTR\<close>, and the level filter of the crate \<open>log\<close>.  A
  log area is a page with its address; it is shared with the VMM, a provisional page is private.
\<close>

record logging =
  num_vcpus :: "32 word"
  logarea_created :: bool
  logarea_initialized :: bool
  logentry_id :: "64 word"
  provisional_logs_enabled :: bool
  maxloglevel :: "8 word"
  logareaptr :: "(64 word \<times> bytes) list"
  provisional_logareaptr :: "bytes list"
  max_level :: level_filter

definition logging_new :: logging where
  "logging_new = \<lparr> num_vcpus = 0, logarea_created = False, logarea_initialized = False, logentry_id = 0,
     provisional_logs_enabled = False, maxloglevel = 0, logareaptr = [], provisional_logareaptr = [], max_level = FilterOff \<rparr>"

subsection \<open>Creating and enabling the log area\<close>

definition area_header :: "32 word \<Rightarrow> bytes" where
  "area_header index = log_area_buffer_header_as_bytes
     \<lparr> signature_bytes = LOGAREA_SIGNATURE, vcpuindex = index, area_reserved = 0,
       startoffset = word_of_nat LOGAREABUFFERHEADERSIZE, endoffset = word_of_nat LOGAREABUFFERHEADERSIZE \<rparr>"

text \<open>
  \<open>alloc index\<close> is the page that \<open>alloc_shared_pages(1)\<close> gives in that round; when there is none, the pages in both vectors
  are given back.
\<close>

fun create_areas ::
    "(32 word \<Rightarrow> (64 word \<times> bytes) option) \<Rightarrow> 32 word list \<Rightarrow> logging \<Rightarrow> (migration_result, unit) outcome \<times> logging" where
  "create_areas alloc [] st = (Ok (), st)"
| "create_areas alloc (index # indices) st =
     (case alloc index of
        None \<Rightarrow> (Err OutOfResource, st\<lparr> logareaptr := [], provisional_logareaptr := [] \<rparr>)
      | Some (addr, page) \<Rightarrow>
          create_areas alloc indices
            (st\<lparr> logareaptr := logareaptr st @ [(addr, overwrite 0 (area_header index) page)],
                provisional_logareaptr :=
                  provisional_logareaptr st @ [overwrite 0 (area_header index) (replicate LOG_PAGE_SIZE 0)] \<rparr>))"

definition create_logarea ::
    "64 word \<times> 64 word \<Rightarrow> (32 word \<Rightarrow> (64 word \<times> bytes) option) \<Rightarrow> logging \<Rightarrow> (migration_result, unit) outcome \<times> logging" where
  "create_logarea tdinfo alloc st =
     (case tdinfo of (ret, r8) \<Rightarrow>
        if ret \<noteq> 0 then (Err TdxModuleError, st)
        else
          let n = ucast r8 :: 32 word in
          (case create_areas alloc (map word_of_nat [0..<unat n]) st of
             (Ok _, st) \<Rightarrow>
               (Ok (), st\<lparr> num_vcpus := n, provisional_logs_enabled := True, logarea_created := True \<rparr>)
           | (r, st) \<Rightarrow> (r, st)))"

definition free_provisional_logarea :: "logging \<Rightarrow> logging" where
  "free_provisional_logarea st =
     (if provisional_logs_enabled st
      then st\<lparr> provisional_logs_enabled := False, provisional_logareaptr := [] \<rparr> else st)"

subsection \<open>Writing an entry\<close>

text \<open>\<open>a + b\<close> on \<open>usize\<close>: it wraps in a release image and panics in a debug one.\<close>

definition usize_add :: "bool \<Rightarrow> nat \<Rightarrow> nat \<Rightarrow> (unit, nat) outcome" where
  "usize_add debug_assertions a b =
     (if a + b < 2 ^ 64 then Ok (a + b) else if debug_assertions then Panic else Ok ((a + b) mod 2 ^ 64))"

definition fill_zero :: "nat \<Rightarrow> nat \<Rightarrow> bytes \<Rightarrow> (unit, bytes) outcome" where
  "fill_zero i j page =
     (if i \<le> j \<and> j \<le> length page then Ok (take i page @ replicate (j - i) 0 @ drop j page) else Panic)"

definition copy_into :: "nat \<Rightarrow> bytes \<Rightarrow> bytes \<Rightarrow> (unit, bytes) outcome" where
  "copy_into i bs page = (if i + length bs \<le> length page then Ok (overwrite i bs page) else Panic)"

text \<open>The loop that drops the oldest entries; every round frees at least a header.\<close>

function evict_entries :: "nat \<Rightarrow> nat \<Rightarrow> bytes \<Rightarrow> (unit, nat \<times> bytes) outcome" where
  "evict_entries reqdatasize currentstartoffset page =
     (if reqdatasize > 0
      then
        (let start = (if currentstartoffset + LOGENTRYHEADERSIZE \<ge> LOG_PAGE_SIZE then LOGAREABUFFERHEADERSIZE
                      else currentstartoffset) in
         case index_range start (start + LOGENTRYHEADERSIZE) page of
           Ok logentrybytes \<Rightarrow>
             (let totallength = unat (entry_length (dec_log_entry_header logentrybytes)) + LOGENTRYHEADERSIZE in
              case fill_zero start (start + totallength) page of
                Ok page' \<Rightarrow> evict_entries (reqdatasize - totallength) (start + totallength) page'
              | Err e \<Rightarrow> Err e
              | Panic \<Rightarrow> Panic)
         | Err e \<Rightarrow> Err e
         | Panic \<Rightarrow> Panic)
      else Ok (currentstartoffset, page))"
  by pat_completeness auto
termination
  by (relation "measure (\<lambda>(req, start, page). req)") (auto simp: LOGENTRYHEADERSIZE_def)

declare evict_entries.simps [simp del]

definition make_room :: "bool \<Rightarrow> nat \<Rightarrow> nat \<Rightarrow> nat \<Rightarrow> nat \<Rightarrow> bytes \<Rightarrow> (unit, nat \<times> nat \<times> bytes) outcome" where
  "make_room dbg len needed currentstartoffset currentendoffset page =
     (if needed > LOG_PAGE_SIZE \<or> currentendoffset < currentstartoffset
      then
        rbind (if needed > LOG_PAGE_SIZE
               then rbind (fill_zero currentendoffset LOG_PAGE_SIZE page) (\<lambda>page. Ok (LOGAREABUFFERHEADERSIZE, page))
               else Ok (currentendoffset, page)) (\<lambda>(currentendoffset, page).
          if currentendoffset < currentstartoffset
          then
            rbind (fill_zero currentendoffset currentstartoffset page) (\<lambda>page.
            rbind (rbind (usize_add dbg currentendoffset LOGENTRYHEADERSIZE) (\<lambda>n. usize_add dbg n len)) (\<lambda>needed.
              if needed > currentstartoffset
              then
                rbind (evict_entries (LOGENTRYHEADERSIZE + len - (currentstartoffset - currentendoffset))
                  currentstartoffset page) (\<lambda>(start, page). Ok (start, currentendoffset, page))
              else Ok (currentstartoffset, currentendoffset, page)))
          else Ok (currentstartoffset, currentendoffset, page))
      else Ok (currentstartoffset, currentendoffset, page))"

definition reset_start :: "bool \<Rightarrow> nat \<Rightarrow> bytes \<Rightarrow> (unit, nat \<times> bytes) outcome" where
  "reset_start dbg currentstartoffset page =
     rbind (usize_add dbg currentstartoffset LOGENTRYHEADERSIZE) (\<lambda>n.
     rbind (if n \<ge> LOG_PAGE_SIZE
            then rbind (fill_zero currentstartoffset LOG_PAGE_SIZE page) (\<lambda>page. Ok (LOGAREABUFFERHEADERSIZE, page))
            else Ok (currentstartoffset, page)) (\<lambda>(currentstartoffset, page).
       if currentstartoffset \<noteq> LOGAREABUFFERHEADERSIZE
       then
         rbind (usize_add dbg currentstartoffset LOGENTRYHEADERSIZE) (\<lambda>n.
         rbind (index_range currentstartoffset n page) (\<lambda>logentrybytes.
           if entry_length (dec_log_entry_header logentrybytes) = 0 \<and> log_entry_id (dec_log_entry_header logentrybytes) = 0
           then Ok (LOGAREABUFFERHEADERSIZE, page) else Ok (currentstartoffset, page)))
       else Ok (currentstartoffset, page)))"

text \<open>Writing the entry at the end offset, and then the two offsets.\<close>

definition write_entry ::
    "bool \<Rightarrow> log_entry_header \<Rightarrow> bytes \<Rightarrow> nat \<Rightarrow> nat \<Rightarrow> bytes \<Rightarrow> (unit, bytes) outcome" where
  "write_entry dbg logentryhdr msg currentstartoffset currentendoffset page =
     rbind (rbind (usize_add dbg currentendoffset LOGENTRYHEADERSIZE) (\<lambda>n. usize_add dbg n (length msg))) (\<lambda>stop.
     rbind (fill_zero currentendoffset stop page) (\<lambda>page.
     rbind (copy_into currentendoffset (log_entry_header_as_bytes logentryhdr) page) (\<lambda>page.
     rbind (copy_into (currentendoffset + LOGENTRYHEADERSIZE) msg page) (\<lambda>page.
     rbind (copy_into 24 (u64_le (word_of_nat currentstartoffset)) page) (\<lambda>page.
       copy_into 32 (u64_le (word_of_nat (currentendoffset + LOGENTRYHEADERSIZE + length msg))) page)))))"

text \<open>From reading the offsets to writing them back.\<close>

definition append_entry :: "bool \<Rightarrow> log_entry_header \<Rightarrow> bytes \<Rightarrow> bytes \<Rightarrow> (unit, bytes) outcome" where
  "append_entry dbg logentryhdr msg page =
     rbind (index_range 24 32 page) (\<lambda>start_bytes.
     rbind (index_range 32 40 page) (\<lambda>end_bytes.
     rbind (rbind (usize_add dbg (unat (u64_of end_bytes)) LOGENTRYHEADERSIZE) (\<lambda>n. usize_add dbg n (length msg))) (\<lambda>needed.
     rbind (make_room dbg (length msg) needed (unat (u64_of start_bytes)) (unat (u64_of end_bytes)) page)
       (\<lambda>(currentstartoffset, currentendoffset, page).
     rbind (reset_start dbg currentstartoffset page) (\<lambda>(currentstartoffset, page).
       write_entry dbg logentryhdr msg currentstartoffset currentendoffset page)))))"

definition new_entry :: "64 word \<Rightarrow> 64 word \<Rightarrow> level \<Rightarrow> bytes \<Rightarrow> log_entry_header" where
  "new_entry entry_id request_id loglevel msg =
     \<lparr> log_entry_id = entry_id, entry_request_id = request_id, entry_loglevel = loglevel_to_u8 loglevel,
       entry_reserved = [0, 0, 0], entry_length = word_of_nat (length msg) \<rparr>"

definition next_entry_id :: "64 word \<Rightarrow> 64 word" where
  "next_entry_id v = (if v = - 1 then 1 else v + 1)"

text \<open>\<open>apic_id\<close> is the initial local APIC id that \<open>cpuid\<close> reports, when it reports one.\<close>

definition entrylog ::
    "bool \<Rightarrow> 32 word option \<Rightarrow> bytes \<Rightarrow> level \<Rightarrow> 64 word \<Rightarrow> logging \<Rightarrow> (unit, unit) outcome \<times> logging" where
  "entrylog dbg apic_id msg loglevel request_id st =
     (let log_level = loglevel_to_u8 loglevel in
      if (logarea_initialized st \<and> log_level \<le> maxloglevel st)
         \<or> (provisional_logs_enabled st \<and> log_level \<le> loglevel_to_u8 LevelTrace)
      then
        if length msg > LOG_PAGE_SIZE - (LOGAREABUFFERHEADERSIZE + LOGENTRYHEADERSIZE) then (Ok (), st)
        else
          (case apic_id of
             None \<Rightarrow> (Ok (), st)
           | Some currvcpuindex \<Rightarrow>
               let i = unat currvcpuindex;
                   pages = (if provisional_logs_enabled st then provisional_logareaptr st else map snd (logareaptr st)) in
               if length pages \<le> i then (Panic, st)
               else if currvcpuindex = u32_of (slice 16 20 (pages ! i))
               then
                 let st = st\<lparr> logentry_id := next_entry_id (logentry_id st) \<rparr> in
                 (case append_entry dbg (new_entry (logentry_id st) request_id loglevel msg) msg (pages ! i) of
                    Ok page \<Rightarrow>
                      (Ok (), if provisional_logs_enabled st
                              then st\<lparr> provisional_logareaptr := (provisional_logareaptr st)[i := page] \<rparr>
                              else st\<lparr> logareaptr := (logareaptr st)[i := (fst (logareaptr st ! i), page)] \<rparr>)
                  | Err e \<Rightarrow> (Err e, st)
                  | Panic \<Rightarrow> (Panic, st))
               else (Ok (), st))
      else (Ok (), st))"

subsection \<open>The logger of the crate log\<close>

text \<open>A record: its level, its text, and its key-value pairs, of which a value may not be a number.\<close>

record log_record =
  record_level :: level
  record_args :: bytes
  record_key_values :: "(string \<times> 64 word option) list"

definition visit_pair :: "64 word option \<Rightarrow> string \<times> 64 word option \<Rightarrow> 64 word option" where
  "visit_pair cur kv =
     (case kv of (key, v) \<Rightarrow>
        if key = ''migration_request_id''
        then Some (case v of Some n \<Rightarrow> n | None \<Rightarrow> MIGRATION_REQUEST_ID_SENTINEL) else cur)"

definition enabled :: "bool \<Rightarrow> logging \<Rightarrow> level \<Rightarrow> bool" where
  "enabled dbg st lvl =
     passes lvl
       (if logarea_initialized st then u8_to_levelfilter (maxloglevel st)
        else if provisional_logs_enabled st then if dbg then FilterTrace else FilterInfo
        else max_level st)"

definition backend_log :: "bool \<Rightarrow> 32 word option \<Rightarrow> log_record \<Rightarrow> logging \<Rightarrow> (unit, unit) outcome \<times> logging" where
  "backend_log dbg apic_id r st =
     (if enabled dbg st (record_level r)
      then
        let id = foldl visit_pair None (record_key_values r) in
        entrylog dbg apic_id (record_args r @ [10]) (record_level r)
          (case id of Some n \<Rightarrow> n | None \<Rightarrow> MIGRATION_REQUEST_ID_SENTINEL) st
      else (Ok (), st))"

text \<open>The logging macros call the logger only for levels that pass the global filter.\<close>

definition log_macro :: "bool \<Rightarrow> 32 word option \<Rightarrow> log_record \<Rightarrow> logging \<Rightarrow> (unit, unit) outcome \<times> logging" where
  "log_macro dbg apic_id r st = (if passes (record_level r) (max_level st) then backend_log dbg apic_id r st else (Ok (), st))"

definition init_vmm_logger :: "bool \<Rightarrow> logging \<Rightarrow> (unit, unit) outcome \<times> logging" where
  "init_vmm_logger set_logger st = (if set_logger then (Ok (), st\<lparr> max_level := FilterTrace \<rparr>) else (Err (), st))"

text \<open>The formats \<open>{}\<close> and \<open>{:x}\<close> of an unsigned integer.\<close>

function in_radix :: "nat \<Rightarrow> nat \<Rightarrow> string" where
  "in_radix b n =
     (if n < b \<or> b < 2 then [''0123456789abcdef'' ! (n mod 16)]
      else in_radix b (n div b) @ [''0123456789abcdef'' ! (n mod b mod 16)])"
  by pat_completeness auto
termination
  by (relation "measure snd") auto

declare in_radix.simps [simp del]

definition text_bytes :: "string \<Rightarrow> bytes" where
  "text_bytes = map of_char"

definition request_record :: "level \<Rightarrow> 64 word \<Rightarrow> string \<Rightarrow> log_record" where
  "request_record lvl request_id msg =
     \<lparr> record_level = lvl, record_args = text_bytes msg,
       record_key_values = [(''migration_request_id'', Some request_id)] \<rparr>"

text \<open>The loop of \<open>enable_logarea\<close> over the areas, and the whole of it.\<close>

fun publish_areas :: "bool \<Rightarrow> nat list \<Rightarrow> logging \<Rightarrow> bytes \<Rightarrow> (unit, bytes) outcome \<times> logging" where
  "publish_areas prov [] st data = (Ok data, st)"
| "publish_areas prov (i # is) st data =
     (if length (logareaptr st) \<le> i \<or> (prov \<and> length (provisional_logareaptr st) \<le> i) then (Panic, st)
      else
        let addr = fst (logareaptr st ! i);
            page = (if prov then provisional_logareaptr st ! i else snd (logareaptr st ! i)) in
        publish_areas prov is (st\<lparr> logareaptr := (logareaptr st)[i := (addr, page)] \<rparr>)
          (data @ u64_le addr @ u64_le (word_of_nat LOG_PAGE_SIZE)))"

definition enabled_text :: "8 word \<Rightarrow> string" where
  "enabled_text level =
     ''enable_logarea: Logging has been enabled with MaxLevel: '' @ in_radix 10 (unat level) @ [CHR 0x0A]"

definition rejected_text :: "8 word \<Rightarrow> string" where
  "rejected_text level =
     ''enable_logarea: rejected request with invalid MaxLogLevel: '' @ in_radix 10 (unat level) @ [CHR 0x0A]"

definition invalid_level_text :: "8 word \<Rightarrow> string" where
  "invalid_level_text level =
     ''Error: enable_logarea(): Invalid MaxLogLevel: '' @ in_radix 16 (unat level) @ '' requested'' @ [CHR 0x0A]"

definition not_created_text :: string where
  "not_created_text = ''Error: LogArea has not been successfuly created by create_logarea()'' @ [CHR 0x0A]"

definition enable_logarea ::
    "bool \<Rightarrow> 32 word option \<Rightarrow> 8 word \<Rightarrow> 64 word \<Rightarrow> bytes \<Rightarrow> logging
     \<Rightarrow> (migration_result, unit) outcome \<times> bytes \<times> logging" where
  "enable_logarea dbg apic_id level request_id data st =
     (let level = (if dbg then level else min level 3) in
      if \<not> logarea_created st
      then (Err UnsupportedOperationError, data @ text_bytes not_created_text, st)
      else if u8_to_loglevel level \<noteq> None
      then
        let prov = provisional_logs_enabled st;
            st = st\<lparr> maxloglevel := level \<rparr>;
            data = data @ u32_le (num_vcpus st) @ u32_le 0 in
        (case publish_areas prov [0..<unat (num_vcpus st)] st data of
           (Ok data, st) \<Rightarrow>
             let st = (free_provisional_logarea st)\<lparr> logarea_initialized := True, max_level := u8_to_levelfilter level \<rparr> in
             (case log_macro dbg apic_id (request_record LevelInfo request_id (enabled_text level)) st of
                (Ok _, st) \<Rightarrow> (Ok (), data, st)
              | (_, st) \<Rightarrow> (Panic, data, st))
         | (_, st) \<Rightarrow> (Panic, data, st))
      else
        (case log_macro dbg apic_id (request_record LevelError request_id (rejected_text level)) st of
           (Ok _, st) \<Rightarrow> (Err InvalidParameter, data @ text_bytes (invalid_level_text level), st)
         | (_, st) \<Rightarrow> (Panic, data, st)))"

section \<open>An area as a list of entries\<close>

lemmas area_sizes = LOG_PAGE_SIZE_def LOGENTRYHEADERSIZE_def LOGAREABUFFERHEADERSIZE_def

definition entry_bytes :: "log_entry_header \<times> bytes \<Rightarrow> bytes" where
  "entry_bytes e = log_entry_header_as_bytes (fst e) @ snd e"

text \<open>
  The page of processor \<open>i\<close> holds the entries \<open>es\<close>: they follow the header one after the other, and the offsets in the header
  delimit them.
\<close>

definition area_holds :: "nat \<Rightarrow> (log_entry_header \<times> bytes) list \<Rightarrow> bytes \<Rightarrow> bool" where
  "area_holds i es page \<longleftrightarrow> length page = LOG_PAGE_SIZE \<and>
     (\<exists>rest. page = log_area_buffer_header_as_bytes
          \<lparr> signature_bytes = LOGAREA_SIGNATURE, vcpuindex = word_of_nat i, area_reserved = 0, startoffset = 40,
            endoffset = word_of_nat (40 + length (concat (map entry_bytes es))) \<rparr> @ concat (map entry_bytes es) @ rest)"

text \<open>What a new entry does to the list: it is added at the end if it fits on the page, otherwise it replaces the list.\<close>

definition push_entry :: "(log_entry_header \<times> bytes) list \<Rightarrow> log_entry_header \<times> bytes \<Rightarrow> (log_entry_header \<times> bytes) list" where
  "push_entry es e =
     (if LOGAREABUFFERHEADERSIZE + length (concat (map entry_bytes (es @ [e]))) \<le> LOG_PAGE_SIZE then es @ [e] else [e])"

lemma length_entry_header [simp]: "length (entry_reserved h) = 3 \<Longrightarrow> length (log_entry_header_as_bytes h) = 24"
  by (simp add: log_entry_header_as_bytes_def)

lemma reserved_new_entry [simp]: "length (entry_reserved (new_entry entry_id request_id lvl msg)) = 3"
  by (simp add: new_entry_def)

lemma copy_into_append:
  "length a = i \<Longrightarrow> length b = length bs \<Longrightarrow> copy_into i bs (a @ b @ c) = Ok (a @ bs @ c)"
  by (auto simp: copy_into_def overwrite_def)

lemma fill_zero_append:
  "length a = i \<Longrightarrow> i + length b = j \<Longrightarrow> fill_zero i j (a @ b @ c) = Ok (a @ replicate (length b) 0 @ c)"
  by (auto simp: fill_zero_def)

lemma usize_add_small [simp]: "a + b < 2 ^ 64 \<Longrightarrow> usize_add dbg a b = Ok (a + b)"
  by (simp add: usize_add_def)

lemma unat_small: "n \<le> 4096 \<Longrightarrow> unat (word_of_nat n :: 64 word) = n"
  by (simp add: unsigned_of_nat take_bit_nat_eq_self)

lemma write_entry_append:
  assumes "length pre = 24" and "length sx = 8" and "length ex = 8" and "length (entry_reserved h) = 3"
    and "length b = 24 + length msg" and "64 + length body + length msg \<le> 4096"
  shows "write_entry dbg h msg start (40 + length body) (pre @ sx @ ex @ body @ b @ c) =
    Ok (pre @ u64_le (word_of_nat start) @ u64_le (word_of_nat (40 + length (body @ entry_bytes (h, msg))))
          @ (body @ entry_bytes (h, msg)) @ c)"
proof -
  let ?e = "40 + length body"
  have 1: "fill_zero ?e (?e + 24 + length msg) (pre @ sx @ ex @ body @ b @ c) =
      Ok (pre @ sx @ ex @ body @ replicate 24 0 @ replicate (length msg) 0 @ c)"
    using fill_zero_append [of "pre @ sx @ ex @ body" ?e b "?e + 24 + length msg" c] assms
    by (simp add: replicate_add)
  have 2: "copy_into ?e (log_entry_header_as_bytes h) (pre @ sx @ ex @ body @ replicate 24 0 @ replicate (length msg) 0 @ c) =
      Ok (pre @ sx @ ex @ body @ log_entry_header_as_bytes h @ replicate (length msg) 0 @ c)"
    using copy_into_append [of "pre @ sx @ ex @ body" ?e "replicate 24 0" "log_entry_header_as_bytes h"] assms by simp
  have 3: "copy_into (?e + 24) msg (pre @ sx @ ex @ body @ log_entry_header_as_bytes h @ replicate (length msg) 0 @ c) =
      Ok (pre @ sx @ ex @ body @ log_entry_header_as_bytes h @ msg @ c)"
    using copy_into_append [of "pre @ sx @ ex @ body @ log_entry_header_as_bytes h" "?e + 24" "replicate (length msg) 0" msg]
      assms by simp
  have 4: "copy_into 24 s8 (pre @ sx @ z) = Ok (pre @ s8 @ z)" if "length s8 = 8" for s8 z :: bytes
    using copy_into_append [of pre 24 sx s8 z] assms that by simp
  have 5: "copy_into 32 s8 (pre @ t8 @ ex @ z) = Ok (pre @ t8 @ s8 @ z)" if "length s8 = 8" "length t8 = 8" for s8 t8 z :: bytes
    using copy_into_append [of "pre @ t8" 32 ex s8 z] assms that by simp
  have 6: "usize_add dbg ?e 24 = Ok (?e + 24)" "usize_add dbg (?e + 24) (length msg) = Ok (?e + 24 + length msg)"
    using assms(6) by simp_all
  show ?thesis
    unfolding write_entry_def LOGENTRYHEADERSIZE_def 6 rbind.simps 1 2 3 4 [OF length_u64_le]
      5 [OF length_u64_le length_u64_le]
    using assms(4) by (simp add: entry_bytes_def add_ac)
qed

text \<open>The page as the code finds it: the fixed part of the header, the two offsets, the entries and the rest.\<close>

definition area_prefix :: "nat \<Rightarrow> bytes" where
  "area_prefix i = LOGAREA_SIGNATURE @ u32_le (word_of_nat i) @ u32_le 0"

abbreviation area_page :: "nat \<Rightarrow> bytes \<Rightarrow> bytes \<Rightarrow> bytes" where
  "area_page i body rest \<equiv> area_prefix i @ u64_le 40 @ u64_le (word_of_nat (40 + length body)) @ body @ rest"

lemma length_area_prefix [simp]: "length (area_prefix i) = 24"
  by (simp add: area_prefix_def LOGAREA_SIGNATURE_def)

lemma area_holds_iff:
  "area_holds i es page \<longleftrightarrow> (\<exists>rest. page = area_page i (concat (map entry_bytes es)) rest
     \<and> 40 + length (concat (map entry_bytes es)) + length rest = 4096)"
  by (auto simp: area_holds_def log_area_buffer_header_as_bytes_def area_prefix_def LOG_PAGE_SIZE_def LOGAREA_SIGNATURE_def)

lemma reset_start_40 [simp]: "reset_start dbg 40 page = Ok (40, page)"
  by (simp add: reset_start_def area_sizes)

lemma append_entry_start:
  assumes "40 + length body + length rest = 4096" and "length msg \<le> 4032"
  shows "append_entry dbg h msg (area_page i body rest) =
    rbind (make_room dbg (length msg) (40 + length body + 24 + length msg) 40 (40 + length body) (area_page i body rest))
      (\<lambda>(s, e, p). rbind (reset_start dbg s p) (\<lambda>(s, p). write_entry dbg h msg s e p))"
proof -
  have rd: "index_range 24 32 (area_page i body rest) = Ok (u64_le 40)"
    "index_range 32 40 (area_page i body rest) = Ok (u64_le (word_of_nat (40 + length body)))"
    by (simp_all add: index_range_def slice_def)
  have offs: "unat (u64_of (u64_le 40)) = 40" "unat (u64_of (u64_le (word_of_nat (40 + length body)))) = 40 + length body"
    using assms(1) unat_small [of "40 + length body"] by simp_all
  show ?thesis
    unfolding append_entry_def rd rbind.simps offs using assms by (simp add: LOGENTRYHEADERSIZE_def)
qed

lemma append_entry_fits:
  assumes "40 + length body + length rest = 4096" and "length (entry_reserved h) = 3"
    and "64 + length body + length msg \<le> 4096"
  shows "append_entry dbg h msg (area_page i body rest) =
    Ok (area_page i (body @ entry_bytes (h, msg)) (drop (24 + length msg) rest))"
proof -
  have room: "make_room dbg (length msg) (40 + length body + 24 + length msg) 40 (40 + length body) p =
      Ok (40, 40 + length body, p)" for p
    using assms(3) by (simp add: make_room_def area_sizes)
  have "append_entry dbg h msg (area_page i body rest) = write_entry dbg h msg 40 (40 + length body)
      (area_prefix i @ u64_le 40 @ u64_le (word_of_nat (40 + length body)) @ body
         @ take (24 + length msg) rest @ drop (24 + length msg) rest)"
    using append_entry_start [OF assms(1), of msg dbg h i] assms(3)
    by (simp only: room rbind.simps prod.case reset_start_40 append_take_drop_id)
  also have "\<dots> = Ok (area_prefix i @ u64_le (word_of_nat 40) @ u64_le (word_of_nat (40 + length (body @ entry_bytes (h, msg))))
      @ (body @ entry_bytes (h, msg)) @ drop (24 + length msg) rest)"
    using assms by (intro write_entry_append) simp_all
  finally show ?thesis by simp
qed

lemma append_entry_wraps:
  assumes "40 + length body + length rest = 4096" and "length (entry_reserved h) = 3"
    and "\<not> 64 + length body + length msg \<le> 4096" and "length msg \<le> 4032"
  shows "append_entry dbg h msg (area_page i body rest) =
    Ok (area_page i (entry_bytes (h, msg)) (drop (24 + length msg) (body @ replicate (length rest) 0)))"
proof -
  let ?z = "body @ replicate (length rest) 0"
  let ?ends = "u64_le 40 @ u64_le (word_of_nat (40 + length body))"
  have fill: "fill_zero (40 + length body) 4096 (area_page i body rest) = Ok (area_prefix i @ ?ends @ ?z)"
    using fill_zero_append [of "area_prefix i @ ?ends @ body" _ rest 4096 "[]"] assms(1) by simp
  have room: "make_room dbg (length msg) (40 + length body + 24 + length msg) 40 (40 + length body) (area_page i body rest) =
      Ok (40, 40, area_prefix i @ ?ends @ ?z)"
    using assms(3) fill by (simp add: make_room_def area_sizes)
  have "append_entry dbg h msg (area_page i body rest) = write_entry dbg h msg 40 (40 + length ([] :: bytes))
      (area_prefix i @ u64_le 40 @ u64_le (word_of_nat (40 + length body)) @ [] @ take (24 + length msg) ?z @ drop (24 + length msg) ?z)"
    unfolding append_entry_start [OF assms(1,4)] room
    by (simp only: rbind.simps prod.case reset_start_40 append_take_drop_id append_Nil append_assoc list.size add_0_right)
  also have "\<dots> = Ok (area_prefix i @ u64_le (word_of_nat 40) @ u64_le (word_of_nat (40 + length ([] @ entry_bytes (h, msg))))
      @ ([] @ entry_bytes (h, msg)) @ drop (24 + length msg) ?z)"
    using assms by (intro write_entry_append) simp_all
  finally show ?thesis by simp
qed

lemma append_entry_holds:
  assumes "area_holds i es page" and "length msg \<le> LOG_PAGE_SIZE - (LOGAREABUFFERHEADERSIZE + LOGENTRYHEADERSIZE)"
    and "length (entry_reserved h) = 3"
  shows "\<exists>page'. append_entry dbg h msg page = Ok page' \<and> area_holds i (push_entry es (h, msg)) page'"
proof -
  let ?body = "concat (map entry_bytes es)"
  obtain rest where page: "page = area_page i ?body rest" and len: "40 + length ?body + length rest = 4096"
    using assms(1) unfolding area_holds_iff by blast
  have msg: "length msg \<le> 4032" using assms(2) by (simp add: area_sizes)
  show ?thesis
  proof (cases "64 + length ?body + length msg \<le> 4096")
    case True
    then show ?thesis
      unfolding page append_entry_fits [OF len assms(3) True] area_holds_iff
      using len assms(3) by (auto simp: push_entry_def area_sizes entry_bytes_def)
  next
    case False
    then show ?thesis
      unfolding page append_entry_wraps [OF len assms(3) False msg] area_holds_iff
      using len assms(3) msg by (auto simp: push_entry_def area_sizes entry_bytes_def)
  qed
qed

section \<open>The logger refines lists of entries\<close>

definition active_pages :: "logging \<Rightarrow> bytes list" where
  "active_pages st = (if provisional_logs_enabled st then provisional_logareaptr st else map snd (logareaptr st))"

definition areas_hold :: "logging \<Rightarrow> (log_entry_header \<times> bytes) list list \<Rightarrow> bool" where
  "areas_hold st ess \<longleftrightarrow> length (active_pages st) = length ess \<and> (\<forall>i < length ess. area_holds i (ess ! i) (active_pages st ! i))"

definition accepts :: "logging \<Rightarrow> level \<Rightarrow> bytes \<Rightarrow> bool" where
  "accepts st lvl msg \<longleftrightarrow>
     (logarea_initialized st \<and> loglevel_to_u8 lvl \<le> maxloglevel st \<or> provisional_logs_enabled st) \<and> length msg \<le> 4032"

lemma loglevel_le_trace [simp]: "loglevel_to_u8 lvl \<le> 5"
  by (cases lvl) simp_all

lemma area_holds_index: "area_holds i es page \<Longrightarrow> u32_of (slice 16 20 page) = word_of_nat i"
  by (auto simp: area_holds_iff area_prefix_def LOGAREA_SIGNATURE_def slice_def)

lemma entrylog_ignored:
  "\<not> accepts st lvl msg \<Longrightarrow> entrylog dbg apic_id msg lvl request_id st = (Ok (), st)"
  by (auto simp: entrylog_def accepts_def area_sizes Let_def)

lemma entrylog_appends:
  assumes "accepts st lvl msg" and "areas_hold st ess" and "unat v < length ess"
    and "append_entry dbg (new_entry (next_entry_id (logentry_id st)) request_id lvl msg) msg (active_pages st ! unat v) = Ok page"
  shows "\<exists>st'. entrylog dbg (Some v) msg lvl request_id st = (Ok (), st') \<and>
    active_pages st' = (active_pages st)[unat v := page] \<and> logentry_id st' = next_entry_id (logentry_id st)"
proof -
  have idx: "v = u32_of (slice 16 20 (active_pages st ! unat v))" and n: "\<not> length (active_pages st) \<le> unat v"
    using assms(2,3) area_holds_index [of "unat v"] by (auto simp: areas_hold_def)
  have pages: "(if provisional_logs_enabled st then provisional_logareaptr st else map snd (logareaptr st)) = active_pages st"
    by (simp add: active_pages_def)
  show ?thesis
    using assms(1,4) n
    by (auto simp: entrylog_def accepts_def area_sizes Let_def pages idx [symmetric])
       (auto simp: active_pages_def map_update)
qed

lemma entrylog_step:
  assumes "areas_hold st ess" and "unat v < length ess" and "accepts st lvl msg"
  shows "\<exists>st'. entrylog dbg (Some v) msg lvl request_id st = (Ok (), st') \<and>
    logentry_id st' = next_entry_id (logentry_id st) \<and>
    areas_hold st' (ess[unat v := push_entry (ess ! unat v) (new_entry (logentry_id st') request_id lvl msg, msg)])"
proof -
  let ?h = "new_entry (next_entry_id (logentry_id st)) request_id lvl msg"
  have "area_holds (unat v) (ess ! unat v) (active_pages st ! unat v)" using assms by (simp add: areas_hold_def)
  then obtain page where page: "append_entry dbg ?h msg (active_pages st ! unat v) = Ok page"
    "area_holds (unat v) (push_entry (ess ! unat v) (?h, msg)) page"
    using append_entry_holds [of _ _ _ msg ?h dbg] assms(3) by (simp add: accepts_def area_sizes) blast
  obtain st' where "entrylog dbg (Some v) msg lvl request_id st = (Ok (), st')"
    "active_pages st' = (active_pages st)[unat v := page]" "logentry_id st' = next_entry_id (logentry_id st)"
    using entrylog_appends [OF assms(3,1,2) page(1)] by blast
  with page(2) assms show ?thesis by (auto simp: areas_hold_def nth_list_update)
qed

text \<open>
  C27: On areas that nobody else has written to, logging never panics and refines one list of entries per processor.  A record that is
  not accepted, because of its level or its length, changes nothing; any other is put at the end of the list of the processor
  that logs it, under the next entry id, or, if the page has no room for it, replaces that list; the
  lists of the other processors stay.
\<close>
theorem entrylog_refines:
  assumes "areas_hold st ess" and "unat v < length ess"
  shows "\<exists>st'. entrylog dbg (Some v) msg lvl request_id st = (Ok (), st') \<and>
    (if accepts st lvl msg
     then logentry_id st' = next_entry_id (logentry_id st) \<and>
       areas_hold st' (ess[unat v := push_entry (ess ! unat v) (new_entry (logentry_id st') request_id lvl msg, msg)])
     else st' = st)"
  using entrylog_step [OF assms] entrylog_ignored by (cases "accepts st lvl msg") auto

section \<open>A hostile page\<close>

lemma write_entry_beyond:
  assumes "length page < e"
  shows "write_entry dbg h msg s e page = Panic"
proof -
  have "fill_zero e stop page = Panic" for stop using assms by (simp add: fill_zero_def)
  then show ?thesis by (auto simp: write_entry_def usize_add_def)
qed

lemma rbind_PanicI: "(\<And>e. m \<noteq> Err e) \<Longrightarrow> (\<And>x. m = Ok x \<Longrightarrow> f x = Panic) \<Longrightarrow> rbind m f = Panic"
  by (cases m) auto

lemma usize_add_noerr: "usize_add dbg a b \<noteq> Err e"
  by (simp add: usize_add_def)

lemma reset_start_noerr: "reset_start dbg s page \<noteq> Err e"
  by (auto simp: reset_start_def fill_zero_def usize_add_noerr outcome_simps split: if_splits)

lemma append_entry_beyond:
  assumes "length page = LOG_PAGE_SIZE" and "LOG_PAGE_SIZE < unat (u64_of (slice 32 40 page))" and "length msg \<le> 4032"
  shows "append_entry dbg h msg page = Panic"
proof -
  let ?e = "unat (u64_of (slice 32 40 page))"
  have fill: "fill_zero ?e j page = Panic" for j using assms(1,2) by (simp add: fill_zero_def)
  have room: "make_room dbg n needed s ?e page = Panic \<or> make_room dbg n needed s ?e page = Ok (s, ?e, page)" for n needed s
    by (simp add: make_room_def fill)
  have len: "length p = length page" if "reset_start dbg s page = Ok (s', p)" for s s' p
    using that by (auto simp: reset_start_def fill_zero_def outcome_simps split: if_splits)
  have beyond: "write_entry dbg h msg s ?e p = Panic" if "length p = length page" for s p
    using write_entry_beyond [of p ?e dbg h msg s] that assms by simp
  have tail: "rbind (reset_start dbg s page) (\<lambda>(s, p). write_entry dbg h msg s ?e p) = Panic" for s
    by (rule rbind_PanicI) (auto simp: beyond len reset_start_noerr)
  have rd: "index_range 24 32 page = Ok (slice 24 32 page)" "index_range 32 40 page = Ok (slice 32 40 page)"
    using assms(1) by (simp_all add: index_range_def LOG_PAGE_SIZE_def)
  show ?thesis
    unfolding append_entry_def rd rbind.simps
  proof (rule rbind_PanicI, goal_cases)
    case (1 e)
    then show ?case by (simp add: outcome_simps usize_add_noerr)
  next
    case (2 needed)
    then show ?case using room [of "length msg" needed "unat (u64_of (slice 24 32 page))"] tail by (elim disjE) simp_all
  qed
qed

text \<open>
  C38: The VMM can stop the TD through the log area.  The page is shared, and the end offset
  is read from it: if the VMM has stored one beyond the page, the next record that is accepted panics, in debug and release images.
\<close>
theorem entrylog_panics_on_hostile_offset:
  assumes "logarea_initialized st" and "\<not> provisional_logs_enabled st" and "loglevel_to_u8 lvl \<le> maxloglevel st"
    and "length msg \<le> 4032" and "unat v < length (logareaptr st)" and "snd (logareaptr st ! unat v) = page"
    and "length page = LOG_PAGE_SIZE" and "u32_of (slice 16 20 page) = v"
    and "LOG_PAGE_SIZE < unat (u64_of (slice 32 40 page))"
  shows "fst (entrylog dbg (Some v) msg lvl request_id st) = Panic"
  using assms append_entry_beyond [OF assms(7,9,4)]
  by (simp add: entrylog_def area_sizes Let_def)

section \<open>Release images\<close>

text \<open>
  The states of a release image: the logger is installed, areas are created and enabled, records are logged, and the VMM writes to
  the shared pages.
\<close>

inductive release_reachable :: "logging \<Rightarrow> bool" where
  fresh: "release_reachable logging_new"
| logger: "release_reachable st \<Longrightarrow> init_vmm_logger ok st = (r, st') \<Longrightarrow> release_reachable st'"
| create: "release_reachable st \<Longrightarrow> create_logarea tdinfo alloc st = (r, st') \<Longrightarrow> release_reachable st'"
| enable: "release_reachable st \<Longrightarrow> enable_logarea False apic_id lvl request_id data st = (r, data', st') \<Longrightarrow>
    release_reachable st'"
| free_provisional: "release_reachable st \<Longrightarrow> release_reachable (free_provisional_logarea st)"
| log: "release_reachable st \<Longrightarrow> log_macro False apic_id rec st = (r, st') \<Longrightarrow> release_reachable st'"
| host: "release_reachable st \<Longrightarrow> map fst areas = map fst (logareaptr st) \<Longrightarrow> release_reachable (st\<lparr> logareaptr := areas \<rparr>)"

lemma map_fst_update: "map fst (xs[i := (fst (xs ! i), y)]) = map fst xs"
  by (cases "i < length xs") (auto intro!: nth_equalityI simp: nth_list_update)

lemma entrylog_frame:
  "entrylog dbg apic_id msg lvl request_id st = (r, st') \<Longrightarrow>
     maxloglevel st' = maxloglevel st \<and> logarea_initialized st' = logarea_initialized st \<and>
     provisional_logs_enabled st' = provisional_logs_enabled st \<and> map fst (logareaptr st') = map fst (logareaptr st) \<and>
     (\<not> provisional_logs_enabled st \<longrightarrow> provisional_logareaptr st' = provisional_logareaptr st)"
  by (auto simp: entrylog_def Let_def map_fst_update
      split: if_splits option.splits outcome.splits)

lemma log_macro_maxloglevel: "log_macro dbg apic_id rec st = (r, st') \<Longrightarrow> maxloglevel st' = maxloglevel st"
  by (auto simp: log_macro_def backend_log_def Let_def dest: entrylog_frame split: if_splits)

lemma create_areas_maxloglevel: "create_areas alloc is st = (r, st') \<Longrightarrow> maxloglevel st' = maxloglevel st"
  by (induction alloc "is" st arbitrary: r rule: create_areas.induct) (auto split: option.splits)

lemma publish_areas_maxloglevel: "publish_areas prov is st data = (r, st') \<Longrightarrow> maxloglevel st' = maxloglevel st"
  by (induction prov "is" st data arbitrary: r rule: publish_areas.induct) (auto simp: Let_def split: if_splits)

lemma free_provisional_maxloglevel [simp]: "maxloglevel (free_provisional_logarea st) = maxloglevel st"
  by (simp add: free_provisional_logarea_def)

lemma enable_logarea_maxloglevel:
  assumes "enable_logarea dbg apic_id lvl request_id data st = (r, data', st')"
  shows "maxloglevel st' = maxloglevel st \<or> maxloglevel st' = (if dbg then lvl else min lvl 3)"
  using assms
  by (auto simp: enable_logarea_def Let_def dest!: log_macro_maxloglevel publish_areas_maxloglevel
      split: if_splits prod.splits outcome.splits)

lemma release_maxloglevel: "release_reachable st \<Longrightarrow> maxloglevel st \<le> 3"
proof (induction rule: release_reachable.induct)
  case (create st tdinfo alloc r st')
  then show ?case
    by (auto simp: create_logarea_def Let_def dest!: create_areas_maxloglevel split: if_splits prod.splits outcome.splits)
next
  case (enable st apic_id lvl request_id data r data' st')
  then show ?case using enable_logarea_maxloglevel [OF enable(2)] by auto
qed (auto simp: logging_new_def init_vmm_logger_def dest: log_macro_maxloglevel split: if_splits)

lemma filter_rank_Info: "v \<le> 3 \<Longrightarrow> filter_rank (u8_to_levelfilter v) \<le> 3"
proof -
  assume "v \<le> 3"
  then have "unat v \<le> 3" by (simp add: word_le_nat_alt)
  moreover have "v = word_of_nat (unat v)" by simp
  ultimately obtain n where "v = word_of_nat n" "n = 0 \<or> n = 1 \<or> n = 2 \<or> n = 3" by (atomize_elim) (rule exI [of _ "unat v"], simp, arith)
  then show ?thesis by (auto simp: u8_to_levelfilter_def)
qed

text \<open>
  C28: A release image never writes a Debug or Trace record to a log area, neither to a shared page nor to a provisional one that is
  copied there later: in every state it can get to, with whatever levels the VMM has asked for and whatever it has written
  to the pages, such a record changes nothing.
\<close>
theorem release_drops_debug_records:
  assumes "release_reachable st" and "record_level rec = LevelDebug \<or> record_level rec = LevelTrace"
  shows "log_macro False apic_id rec st = (Ok (), st)"
proof -
  have "\<not> passes (record_level rec) (u8_to_levelfilter (maxloglevel st))" "\<not> passes (record_level rec) FilterInfo"
    using filter_rank_Info [OF release_maxloglevel [OF assms(1)]] assms(2) by (auto simp: passes_def)
  then show ?thesis by (auto simp: log_macro_def backend_log_def enabled_def entrylog_def Let_def)
qed

lemma create_areas_Ok:
  "create_areas alloc is st = (Ok u, st') \<Longrightarrow>
     length (logareaptr st') = length (logareaptr st) + length is \<and> logarea_initialized st' = logarea_initialized st \<and>
     provisional_logareaptr st' = provisional_logareaptr st
       @ map (\<lambda>index. overwrite 0 (area_header index) (replicate LOG_PAGE_SIZE 0)) is"
  by (induction alloc "is" st rule: create_areas.induct) (auto split: option.splits)

lemma area_holds_new: "area_holds i [] (overwrite 0 (area_header (word_of_nat i)) (replicate LOG_PAGE_SIZE 0))"
  by (simp add: area_holds_def area_header_def overwrite_def area_sizes log_area_buffer_header_as_bytes_def LOGAREA_SIGNATURE_def)

lemma create_logarea_holds:
  assumes "create_logarea tdinfo alloc st0 = (Ok (), st)"
    and "logareaptr st0 = []" and "provisional_logareaptr st0 = []" and "\<not> logarea_initialized st0"
  shows "areas_hold st (replicate (unat (num_vcpus st)) [])" and "provisional_logs_enabled st" and "logarea_created st"
    and "length (logareaptr st) = unat (num_vcpus st)" and "\<not> logarea_initialized st"
  using assms
  by (auto simp: create_logarea_def areas_hold_def active_pages_def area_holds_new Let_def
      dest!: create_areas_Ok split: if_splits prod.splits outcome.splits)

lemma publish_areas_provisional:
  assumes "\<forall>i \<in> set is. i < length (logareaptr st) \<and> i < length (provisional_logareaptr st)"
  shows "\<exists>ptrs. publish_areas True is st data =
      (Ok (data @ concat (map (\<lambda>i. u64_le (fst (logareaptr st ! i)) @ u64_le (word_of_nat LOG_PAGE_SIZE)) is)),
       st\<lparr> logareaptr := ptrs \<rparr>) \<and> length ptrs = length (logareaptr st) \<and>
    (\<forall>i < length ptrs. ptrs ! i =
       (fst (logareaptr st ! i), if i \<in> set is then provisional_logareaptr st ! i else snd (logareaptr st ! i)))"
  using assms
proof (induction "is" arbitrary: st data)
  case Nil
  then show ?case by (intro exI [of _ "logareaptr st"]) simp
next
  case (Cons i "is")
  let ?st = "st\<lparr> logareaptr := (logareaptr st)[i := (fst (logareaptr st ! i), provisional_logareaptr st ! i)] \<rparr>"
  let ?data = "data @ u64_le (fst (logareaptr st ! i)) @ u64_le (word_of_nat LOG_PAGE_SIZE)"
  have fst_nth: "fst (logareaptr ?st ! j) = fst (logareaptr st ! j)" for j
    using Cons.prems by (cases "j = i") (simp_all add: nth_list_update)
  obtain ptrs where ptrs: "publish_areas True is ?st ?data =
      (Ok (?data @ concat (map (\<lambda>i. u64_le (fst (logareaptr ?st ! i)) @ u64_le (word_of_nat LOG_PAGE_SIZE)) is)),
       ?st\<lparr> logareaptr := ptrs \<rparr>)" "length ptrs = length (logareaptr ?st)"
    "\<forall>j < length ptrs. ptrs ! j =
       (fst (logareaptr ?st ! j), if j \<in> set is then provisional_logareaptr ?st ! j else snd (logareaptr ?st ! j))"
    using Cons.IH [of ?st ?data] Cons.prems by auto
  have "publish_areas True (i # is) st data = publish_areas True is ?st ?data"
    using Cons.prems by (simp add: Let_def)
  then show ?case
    unfolding ptrs(1) fst_nth using ptrs(2,3) unfolding fst_nth
    by (intro exI [of _ ptrs]) (auto simp: nth_list_update)
qed

lemma in_radix_digit: "n < b \<Longrightarrow> length (in_radix b n) = 1"
  by (subst in_radix.simps) simp

lemma loglevel_small: "u8_to_loglevel v \<noteq> None \<Longrightarrow> unat v < 10 \<and> v \<le> 5 \<and> v \<noteq> 0"
  by (auto simp: u8_to_loglevel_def split: if_splits)

definition enabled_message :: "8 word \<Rightarrow> bytes" where
  "enabled_message lvl = text_bytes (enabled_text lvl) @ [10]"

lemma length_enabled_message: "u8_to_loglevel lvl \<noteq> None \<Longrightarrow> length (enabled_message lvl) \<le> 4032"
  using loglevel_small [of lvl] by (simp add: enabled_message_def enabled_text_def text_bytes_def in_radix_digit)

lemma passes_Info: "u8_to_loglevel lvl \<noteq> None \<Longrightarrow> passes LevelInfo (u8_to_levelfilter lvl) \<longleftrightarrow> 3 \<le> lvl"
  by (auto simp: u8_to_loglevel_def u8_to_levelfilter_def passes_def word_le_nat_alt split: if_splits)

lemma log_macro_request:
  assumes "logarea_initialized st" and "max_level st = u8_to_levelfilter (maxloglevel st)"
  shows "log_macro dbg apic_id (request_record lvl request_id msg) st =
    (if passes lvl (max_level st) then entrylog dbg apic_id (text_bytes msg @ [10]) lvl request_id st else (Ok (), st))"
  using assms by (simp add: log_macro_def backend_log_def enabled_def request_record_def visit_pair_def)

lemma map_over_indices: "map (\<lambda>i. f (xs ! i)) [0..<length xs] = map f xs"
  by (rule nth_equalityI) simp_all

text \<open>The state in which the loop over the areas leaves the logger, once the flags are set.\<close>

lemma published_holds:
  assumes "areas_hold st ess" and "provisional_logs_enabled st" and "length ptrs = length ess"
    and "\<forall>i < length ptrs. snd (ptrs ! i) = provisional_logareaptr st ! i"
  shows "areas_hold ((free_provisional_logarea (st\<lparr> maxloglevel := eff, logareaptr := ptrs \<rparr>))
    \<lparr> logarea_initialized := True, max_level := f \<rparr>) ess"
  using assms by (auto simp: areas_hold_def active_pages_def free_provisional_logarea_def)

lemma enable_logarea_run:
  assumes "areas_hold st ess" and "provisional_logs_enabled st" and "logarea_created st"
    and "length (logareaptr st) = length ess" and "unat (num_vcpus st) = length ess"
    and "eff = (if dbg then lvl else min lvl 3)" and "u8_to_loglevel eff \<noteq> None"
    and "reply = data @ u32_le (num_vcpus st) @ u32_le 0 @ concat (map (\<lambda>a. u64_le a @ u64_le 0x1000) (map fst (logareaptr st)))"
  shows "\<exists>ptrs st1. st1 = (free_provisional_logarea (st\<lparr> maxloglevel := eff, logareaptr := ptrs \<rparr>))
      \<lparr> logarea_initialized := True, max_level := u8_to_levelfilter eff \<rparr> \<and>
    map fst ptrs = map fst (logareaptr st) \<and> areas_hold st1 ess \<and>
    enable_logarea dbg apic_id lvl request_id data st =
      (case log_macro dbg apic_id (request_record LevelInfo request_id (enabled_text eff)) st1 of
         (Ok _, st) \<Rightarrow> (Ok (), reply, st) | (_, st) \<Rightarrow> (Panic, reply, st))"
proof -
  have lens: "length (provisional_logareaptr st) = length ess" using assms(1,2) by (simp add: areas_hold_def active_pages_def)
  obtain ptrs where ptrs: "publish_areas True [0..<length ess] (st\<lparr> maxloglevel := eff \<rparr>) (data @ u32_le (num_vcpus st) @ u32_le 0)
      = (Ok reply, st\<lparr> maxloglevel := eff, logareaptr := ptrs \<rparr>)" "length ptrs = length ess"
    "\<forall>i < length ptrs. ptrs ! i = (fst (logareaptr st ! i), provisional_logareaptr st ! i)"
    using publish_areas_provisional [of "[0..<length ess]" "st\<lparr> maxloglevel := eff \<rparr>" "data @ u32_le (num_vcpus st) @ u32_le 0"]
      lens assms(4) map_over_indices [of "\<lambda>p. u64_le (fst p) @ u64_le 0x1000" "logareaptr st"]
    by (auto simp: LOG_PAGE_SIZE_def comp_def assms(8))
  have fsts: "map fst ptrs = map fst (logareaptr st)" using ptrs(2,3) assms(4) by (intro nth_equalityI) auto
  show ?thesis
    unfolding enable_logarea_def Let_def assms(6) [symmetric]
    using assms(2,3,5,7) ptrs(1) fsts published_holds [OF assms(1,2) ptrs(2), of "u8_to_levelfilter eff" eff] ptrs(3)
    by (intro exI [of _ ptrs] exI conjI; (rule refl)?; simp)
qed

text \<open>
  C29: Enabling the log area publishes what has been logged so far and nothing else.  Once the areas exist and are still provisional,
  a request with a valid level succeeds; its reply is the number of areas followed by the address and size of
  each; the shared pages then hold exactly the entries of the provisional ones and, if the level lets it
  through, the record that announces the new level; the provisional pages are gone.
\<close>
theorem enable_logarea_publishes:
  assumes "areas_hold st ess" and "provisional_logs_enabled st" and "logarea_created st"
    and "length (logareaptr st) = length ess" and "unat (num_vcpus st) = length ess" and "unat v < length ess"
    and "eff = (if dbg then lvl else min lvl 3)" and "u8_to_loglevel eff \<noteq> None"
  shows "\<exists>st'. enable_logarea dbg (Some v) lvl request_id data st =
      (Ok (), data @ u32_le (num_vcpus st) @ u32_le 0
         @ concat (map (\<lambda>a. u64_le a @ u64_le 0x1000) (map fst (logareaptr st))), st') \<and>
    logarea_initialized st' \<and> \<not> provisional_logs_enabled st' \<and> provisional_logareaptr st' = [] \<and> maxloglevel st' = eff \<and>
    map fst (logareaptr st') = map fst (logareaptr st) \<and>
    areas_hold st' (if 3 \<le> eff
      then ess[unat v := push_entry (ess ! unat v)
        (new_entry (next_entry_id (logentry_id st)) request_id LevelInfo (enabled_message eff), enabled_message eff)]
      else ess)"
proof -
  define reply where
    "reply = data @ u32_le (num_vcpus st) @ u32_le 0 @ concat (map (\<lambda>a. u64_le a @ u64_le 0x1000) (map fst (logareaptr st)))"
  obtain ptrs st1 where st1: "st1 = (free_provisional_logarea (st\<lparr> maxloglevel := eff, logareaptr := ptrs \<rparr>))
      \<lparr> logarea_initialized := True, max_level := u8_to_levelfilter eff \<rparr>"
    and fsts: "map fst ptrs = map fst (logareaptr st)" and holds: "areas_hold st1 ess"
    and run: "enable_logarea dbg (Some v) lvl request_id data st =
      (case log_macro dbg (Some v) (request_record LevelInfo request_id (enabled_text eff)) st1 of
         (Ok _, st) \<Rightarrow> (Ok (), reply, st) | (_, st) \<Rightarrow> (Panic, reply, st))"
    using enable_logarea_run [OF assms(1-5,7,8) reply_def, of "Some v" request_id] by (elim exE conjE)
  have flags: "logarea_initialized st1" "\<not> provisional_logs_enabled st1" "provisional_logareaptr st1 = []"
    "maxloglevel st1 = eff" "max_level st1 = u8_to_levelfilter eff" "logareaptr st1 = ptrs" "logentry_id st1 = logentry_id st"
    using assms(2) by (simp_all add: st1 free_provisional_logarea_def)
  have logged: "log_macro dbg (Some v) (request_record LevelInfo request_id (enabled_text eff)) st1 =
      (if 3 \<le> eff then entrylog dbg (Some v) (enabled_message eff) LevelInfo request_id st1 else (Ok (), st1))"
    using log_macro_request [OF flags(1), of dbg "Some v" LevelInfo request_id "enabled_text eff"] flags(4,5) passes_Info [OF assms(8)]
    by (simp add: enabled_message_def)
  show ?thesis
  proof (cases "3 \<le> eff")
    case True
    have "accepts st1 LevelInfo (enabled_message eff)"
      using True flags(1,4) length_enabled_message [OF assms(8)] by (simp add: accepts_def)
    then obtain st' where st': "entrylog dbg (Some v) (enabled_message eff) LevelInfo request_id st1 = (Ok (), st')"
      "logentry_id st' = next_entry_id (logentry_id st)"
      "areas_hold st' (ess[unat v := push_entry (ess ! unat v) (new_entry (logentry_id st') request_id LevelInfo
         (enabled_message eff), enabled_message eff)])"
      using entrylog_step [OF holds assms(6), of LevelInfo "enabled_message eff" dbg request_id] flags(7) by auto
    then show ?thesis
      unfolding run logged reply_def [symmetric] using True entrylog_frame [OF st'(1)] flags fsts by auto
  next
    case False
    then show ?thesis
      unfolding run logged reply_def [symmetric] using flags fsts holds by auto
  qed
qed

section \<open>A run\<close>

definition toy_logging :: logging where
  "toy_logging = snd (create_logarea (0, 1) (\<lambda>i. Some (0x8000, replicate LOG_PAGE_SIZE 0)) (snd (init_vmm_logger True logging_new)))"

lemma toy_areas_created:
  "create_logarea (0, 1) (\<lambda>i. Some (0x8000, replicate LOG_PAGE_SIZE 0)) (snd (init_vmm_logger True logging_new)) = (Ok (), toy_logging)"
  by (simp add: toy_logging_def create_logarea_def Let_def)

lemma toy_logging_simps [simp]:
  "num_vcpus toy_logging = 1" "map fst (logareaptr toy_logging) = [0x8000]" "logentry_id toy_logging = 0"
  by (simp_all add: toy_logging_def create_logarea_def Let_def init_vmm_logger_def logging_new_def)

lemma toy_holds:
  "areas_hold toy_logging [[]]" "provisional_logs_enabled toy_logging" "logarea_created toy_logging"
  "length (logareaptr toy_logging) = 1"
  using create_logarea_holds [OF toy_areas_created] by (simp_all add: init_vmm_logger_def logging_new_def)

lemma toy_reachable: "release_reachable toy_logging"
  by (rule release_reachable.create [OF release_reachable.logger [OF release_reachable.fresh, of True "Ok ()"] toy_areas_created])
    (simp add: init_vmm_logger_def)

theorem entrylog_refines_witness:
  "\<exists>st'. entrylog False (Some 0) [65] LevelInfo 7 toy_logging = (Ok (), st') \<and>
     areas_hold st' [[(new_entry 1 7 LevelInfo [65], [65])]]"
  using entrylog_refines [OF toy_holds(1), of 0 False "[65]" LevelInfo 7] toy_holds(2)
  by (auto simp: accepts_def next_entry_id_def push_entry_def area_sizes entry_bytes_def)

theorem entrylog_panics_on_hostile_offset_witness:
  "fst (entrylog False (Some 0) [65] LevelInfo 7
     (logging_new\<lparr> logarea_initialized := True, maxloglevel := 3,
        logareaptr := [(0x8000, area_prefix 0 @ u64_le 40 @ u64_le 5000 @ replicate 4056 0)] \<rparr>)) = Panic"
  by (rule entrylog_panics_on_hostile_offset [OF _ _ _ _ _ refl])
    (simp_all add: logging_new_def LOG_PAGE_SIZE_def slice_def area_prefix_def LOGAREA_SIGNATURE_def)

theorem release_drops_debug_records_witness:
  "log_macro False (Some 0) (request_record LevelDebug 7 ''key'') toy_logging = (Ok (), toy_logging)"
  by (rule release_drops_debug_records [OF toy_reachable]) (simp add: request_record_def)

theorem enable_logarea_publishes_witness:
  "\<exists>st'. enable_logarea False (Some 0) 5 7 [] toy_logging =
     (Ok (), u32_le 1 @ u32_le 0 @ u64_le 0x8000 @ u64_le 0x1000, st') \<and> maxloglevel st' = 3 \<and>
     areas_hold st' [[(new_entry 1 7 LevelInfo (enabled_message 3), enabled_message 3)]]"
  using enable_logarea_publishes [OF toy_holds(1-3), of 0 3 False 5 7 "[]"] toy_holds(4)
    length_enabled_message [of 3]
  by (auto simp: next_entry_id_def push_entry_def area_sizes entry_bytes_def u8_to_loglevel_def)

end
