(* ===== verification/Rebinding.thy ===== *)
theory Rebinding
  imports MskExchange Logging
begin

text \<open>
  Moving the binding of a TD to another MigTD (\<open>src/migtd/src/migration/rebinding.rs\<close>, without the feature \<open>spdm_attestation\<close>): the old
  MigTD reads the extension of the binding, authenticates the new one in a TLS session, sends it a random token and approves the
  token; the new MigTD stores the token, the attributes and the hash of the extension found in the peer's certificate.
  The session, the timers and the TDX module are those of \<open>MskExchange\<close>; the call of \<open>entrylog\<close> at the end goes to
  \<open>Logging\<close>, the records of the logging macros are left out.
\<close>

section \<open>Model\<close>

subsection \<open>Token and fields\<close>

definition TDCS_FIELD_SERVTD_REBIND_ACCEPT_TOKEN :: "64 word" where
  "TDCS_FIELD_SERVTD_REBIND_ACCEPT_TOKEN = 0x191000030000021E"
definition TDCS_FIELD_SERVTD_REBIND_ATTR :: "64 word" where
  "TDCS_FIELD_SERVTD_REBIND_ATTR = 0x1910000300000222"
definition REBINDING_TOKEN_SIZE :: nat where "REBINDING_TOKEN_SIZE = 32"

definition rebinding_token_read_from_bytes :: "bytes \<Rightarrow> bytes option" where
  "rebinding_token_read_from_bytes bs =
     (if length bs < REBINDING_TOKEN_SIZE then None else Some (take REBINDING_TOKEN_SIZE bs))"

text \<open>
  Beside the calls of a migration: writing a field of the own TD, approving a new binding, the random generator,
  the certificates of the peer of a session, the timers, and what the logger depends on.
\<close>

record ('h, 'v, 'k, 'm) rebind_env =
  re_msk :: "('h, 'v, 'k, 'm) msk_env"
  re_vm_write :: "64 word \<Rightarrow> 64 word \<Rightarrow> 64 word \<Rightarrow> 'm \<Rightarrow> 'm option"
  re_rebind_approve :: "64 word \<Rightarrow> bytes \<Rightarrow> 64 word list \<Rightarrow> 'm \<Rightarrow> 'm option"
  re_random :: "nat \<Rightarrow> bytes option"
  re_peer_certs :: "'k \<Rightarrow> bytes list option"
  re_write_expires :: "('k, 'v vmcall_raw) tls_conn \<Rightarrow> ('k, 'v vmcall_raw) tls_conn option"
  re_read_expires :: "('k, 'v vmcall_raw) tls_conn \<Rightarrow> ('k, 'v vmcall_raw) tls_conn option"
  re_dbg :: bool
  re_apic_id :: "32 word option"

abbreviation re_tls :: "('h, 'v, 'k, 'm) rebind_env \<Rightarrow> 'h tls_env" where
  "re_tls env \<equiv> xe_tls (re_msk env)"

text \<open>The world of a migration, the reply for the VMM and the logger.\<close>

record ('h, 'v, 'm) rebind_world =
  bw_msk :: "('h, 'v, 'm) msk_world"
  bw_data :: bytes
  bw_logging :: logging

definition on_msk :: "(('h, 'v, 'm) msk_world, 'e, 'a) prog \<Rightarrow> (('h, 'v, 'm) rebind_world, 'e, 'a) prog" where
  "on_msk p w = map_option (map_prod id (\<lambda>m. w\<lparr> bw_msk := m \<rparr>)) (p (bw_msk w))"

text \<open>A \<open>map_err\<close> that also notes a text in the reply.\<close>

definition noting :: "bytes \<Rightarrow> (('h, 'v, 'm) rebind_world, 'e, 'a) prog \<Rightarrow> (('h, 'v, 'm) rebind_world, 'e, 'a) prog" where
  "noting msg p w =
     (case p w of
        Some (Err e, w') \<Rightarrow> Some (Err e, w'\<lparr> bw_data := bw_data w' @ msg \<rparr>)
      | r \<Rightarrow> r)"

definition failed_text :: "string \<Rightarrow> 64 word \<Rightarrow> bytes" where
  "failed_text who request_id =
     text_bytes (''Error: '' @ who @ '': Failed in ratls transport. Migration ID: '' @ in_radix 16 (unat request_id) @ [CHR 0x0A])"

subsection \<open>Calls\<close>

fun write_token_words ::
    "(64 word \<Rightarrow> 64 word \<Rightarrow> 64 word \<Rightarrow> 'm \<Rightarrow> 'm option) \<Rightarrow> nat \<Rightarrow> bytes list
     \<Rightarrow> 'm \<Rightarrow> (migration_result, unit) outcome \<times> 'm" where
  "write_token_words vm_write idx [] m = (Ok (), m)"
| "write_token_words vm_write idx (chunk # chunks) m =
     (case vm_write (TDCS_FIELD_SERVTD_REBIND_ACCEPT_TOKEN + word_of_nat idx) (u64_of chunk) TDCS_FIELD_WRITE_MASK m of
        None \<Rightarrow> (Err TdxModuleError, m)
      | Some m' \<Rightarrow> write_token_words vm_write (Suc idx) chunks m')"

definition write_rebinding_session_token ::
    "(64 word \<Rightarrow> 64 word \<Rightarrow> 64 word \<Rightarrow> 'm \<Rightarrow> 'm option) \<Rightarrow> bytes \<Rightarrow> 'm \<Rightarrow> (migration_result, unit) outcome \<times> 'm" where
  "write_rebinding_session_token vm_write rebind_token m =
     (if length rebind_token \<noteq> 32 then (Err InvalidParameter, m)
      else write_token_words vm_write 0 (chunks_exact8 rebind_token) m)"

definition write_servtd_rebind_attr ::
    "(64 word \<Rightarrow> 64 word \<Rightarrow> 64 word \<Rightarrow> 'm \<Rightarrow> 'm option) \<Rightarrow> bytes \<Rightarrow> 'm \<Rightarrow> (migration_result, unit) outcome \<times> 'm" where
  "write_servtd_rebind_attr vm_write servtd_attr m =
     (if length servtd_attr \<noteq> 8 then (Err InvalidParameter, m)
      else
        (case vm_write TDCS_FIELD_SERVTD_REBIND_ATTR (u64_of servtd_attr) TDCS_FIELD_WRITE_MASK m of
           None \<Rightarrow> (Err TdxModuleError, m)
         | Some m' \<Rightarrow> (Ok (), m')))"

definition approve_rebinding ::
    "('h, 'v, 'k, 'm) rebind_env \<Rightarrow> migtd_info \<Rightarrow> bytes \<Rightarrow> 'm \<Rightarrow> (migration_result, unit) outcome \<times> 'm" where
  "approve_rebinding env info rebind_token m =
     (case re_rebind_approve env (binding_handle info) rebind_token (target_td_uuid info) m of
        None \<Rightarrow> (Err TdxModuleError, m)
      | Some m' \<Rightarrow> (Ok (), m'))"

definition get_servtd_ext_from_cert :: "crypto_env \<Rightarrow> bytes list option \<Rightarrow> (migration_result, servtd_ext) outcome" where
  "get_servtd_ext_from_cert env certs =
     (case certs of
        Some cert_chain \<Rightarrow>
          if cert_chain = [] then Err SecureSessionError
          else
            rbind (ok_or SecureSessionError (from_der env (cert_chain ! 0))) (\<lambda>cert.
            rbind (ok_or SecureSessionError (extensions (tbs cert))) (\<lambda>exts.
            rbind (ok_or SecureSessionError (find_extension exts EXTNID_MIGTD_SERVTD_EXT)) (\<lambda>ext.
              ok_or InvalidParameter (servtd_ext_read_from_bytes ext))))
      | None \<Rightarrow> Err SecureSessionError)"

definition create_rebind_token :: "('h, 'v, 'k, 'm) rebind_env \<Rightarrow> (migration_result, bytes) outcome" where
  "create_rebind_token env = ok_or InvalidParameter (re_random env REBINDING_TOKEN_SIZE)"

definition local_init_td_info :: "'h mig_env \<Rightarrow> ('h retry_world, migration_result, bytes) prog" where
  "local_init_td_info env w =
     (case me_tdcall_report env (replicate 64 0) (rw_host w) of
        (None, h) \<Rightarrow> Some (Err TdxModuleError, w\<lparr> rw_host := h \<rparr>)
      | (Some report, h) \<Rightarrow>
          let bs = td_info_as_bytes (tr_td_info report) in
          Some (if length bs = TD_INFO_SIZE then Ok bs else Panic, w\<lparr> rw_host := h \<rparr>))"

subsection \<open>The session\<close>

partial_function (option) tls_session_write_all ::
    "(bytes \<Rightarrow> 's \<Rightarrow> ((crypto_error, nat) outcome \<times> 's) option) \<Rightarrow> bytes \<Rightarrow> nat \<Rightarrow> 's
     \<Rightarrow> ((migration_result, unit) outcome \<times> 's) option" where
  "tls_session_write_all wr data sent s =
     (if sent < length data
      then
        (case wr (drop sent data) s of
           None \<Rightarrow> None
         | Some (Ok n, s') \<Rightarrow> tls_session_write_all wr data (sent + n) s'
         | Some (Err e, s') \<Rightarrow> Some (Err SecureSessionError, s')
         | Some (Panic, s') \<Rightarrow> Some (Panic, s'))
      else Some (Ok (), s))"

text \<open>\<open>recvd\<close> are the bytes in the buffer so far, which has room for \<open>n\<close>.\<close>

partial_function (option) tls_session_read_exact ::
    "(nat \<Rightarrow> 's \<Rightarrow> ((crypto_error, bytes) outcome \<times> 's) option) \<Rightarrow> nat \<Rightarrow> bytes \<Rightarrow> 's
     \<Rightarrow> ((migration_result, bytes) outcome \<times> 's) option" where
  "tls_session_read_exact rd n recvd s =
     (if length recvd < n
      then
        (case rd (n - length recvd) s of
           None \<Rightarrow> None
         | Some (Ok bs, s') \<Rightarrow> tls_session_read_exact rd n (recvd @ bs) s'
         | Some (Err e, s') \<Rightarrow> Some (Err NetworkError, s')
         | Some (Panic, s') \<Rightarrow> Some (Panic, s'))
      else Some (Ok recvd, s))"

abbreviation session_write ::
    "('h, 'v, 'k, 'm) rebind_env \<Rightarrow> bytes \<Rightarrow> (('k, 'v vmcall_raw) tls_conn, crypto_error, nat) prog" where
  "session_write env data \<equiv>
     channel (tls_write (xe_lib (re_msk env)) (xe_write (re_msk env)) (xe_read (re_msk env)) data)"

abbreviation session_read ::
    "('h, 'v, 'k, 'm) rebind_env \<Rightarrow> nat \<Rightarrow> (('k, 'v vmcall_raw) tls_conn, crypto_error, bytes) prog" where
  "session_read env n \<equiv>
     channel (tls_server_read (xe_lib (re_msk env)) (xe_write (re_msk env)) (xe_read (re_msk env)) n)"

definition tls_send_rebind_token ::
    "('h, 'v, 'k, 'm) rebind_env \<Rightarrow> bytes \<Rightarrow> (('k, 'v vmcall_raw) tls_conn, migration_result, unit) prog" where
  "tls_send_rebind_token env rebind_token =
     await_timely (re_write_expires env) id (tls_session_write_all (session_write env) rebind_token 0)"

definition tls_receive_rebind_token ::
    "('h, 'v, 'k, 'm) rebind_env \<Rightarrow> (('k, 'v vmcall_raw) tls_conn, migration_result, bytes) prog" where
  "tls_receive_rebind_token env =
     pbind (await_timely (re_read_expires env) id (tls_session_read_exact (session_read env) REBINDING_TOKEN_SIZE [])) (\<lambda>data.
       plift (ok_or InvalidParameter (rebinding_token_read_from_bytes data)))"

text \<open>A step of the session \<open>c\<close>, whose transport is the stream of the world; it gives the session after it.\<close>

definition on_session ::
    "('k, 'v vmcall_raw) tls_conn \<Rightarrow> (('k, 'v vmcall_raw) tls_conn, 'e, 'a) prog
     \<Rightarrow> (('h, 'v, 'm) msk_world, 'e, 'a \<times> ('k, 'v vmcall_raw) tls_conn) prog" where
  "on_session c p w =
     map_option (\<lambda>(r, c'). (rbind r (\<lambda>x. Ok (x, c')), w\<lparr> mw_stream := tk_transport c' \<rparr>)) (p (c\<lparr> tk_transport := mw_stream w \<rparr>))"

subsection \<open>The old and the new MigTD\<close>

definition initial_td_info :: "'h mig_env \<Rightarrow> migtd_info \<Rightarrow> ('h retry_world, migration_result, bytes) prog" where
  "initial_td_info env info =
     (case init_td_info_if_present info of Some t \<Rightarrow> plift (Ok t) | None \<Rightarrow> local_init_td_info env)"

text \<open>Sending the token over a new session, the approval and the end of the session.\<close>

definition approve_over_session ::
    "('h, 'v, 'k, 'm) rebind_env \<Rightarrow> migtd_info \<Rightarrow> 'k \<Rightarrow> bytes \<Rightarrow> (('h, 'v, 'm) msk_world, migration_result, unit) prog" where
  "approve_over_session env info k rebind_token w =
     pbind (on_session (tls_connection_new k (mw_stream w)) (tls_send_rebind_token env rebind_token)) (\<lambda>(_, c).
     pbind (on_module (approve_rebinding env info rebind_token)) (\<lambda>_.
     pbind (on_session c shutdown_connection) (\<lambda>_. plift (Ok ())))) w"

definition rebinding_old_prepare ::
    "('h, 'v, 'k, 'm) rebind_env \<Rightarrow> migtd_info \<Rightarrow> bytes \<Rightarrow> (('h, 'v, 'm) rebind_world, migration_result, unit) prog" where
  "rebinding_old_prepare env info peer_data =
     pbind (on_msk (\<lambda>w. plift (read_servtd_ext (module_rd (xe_module (re_msk env)) info (mw_module w))) w)) (\<lambda>ext.
     pbind (on_msk (on_platform (initial_td_info (te_mig (re_tls env)) info))) (\<lambda>init_tdinfo.
     pbind (noting (failed_text ''rebinding_old()'' (mig_request_id info)) (pmap_err (\<lambda>_. SecureSessionError)
       (on_msk (on_platform
         (client_rebinding (re_tls env) (xe_tls_client (re_msk env)) peer_data init_tdinfo ext))))) (\<lambda>k.
     pbind (plift (create_rebind_token env)) (\<lambda>rebind_token.
       on_msk (approve_over_session env info k rebind_token)))))"

text \<open>What the new MigTD writes once it has the token and the peer's extension.\<close>

definition install_rebinding ::
    "('h, 'v, 'k, 'm) rebind_env \<Rightarrow> bytes \<Rightarrow> servtd_ext \<Rightarrow> (('h, 'v, 'm) msk_world, migration_result, unit) prog" where
  "install_rebinding env rebind_token ext =
     pbind (on_module (write_rebinding_session_token (re_vm_write env) rebind_token)) (\<lambda>_.
     pbind (on_module (write_servtd_rebind_attr (re_vm_write env) (cur_servtd_attr ext))) (\<lambda>_.
     (let ext = ext\<lparr> cur_servtd_info_hash := replicate (length (cur_servtd_info_hash ext)) 0 \<rparr>;
          ext = ext\<lparr> cur_servtd_attr := replicate (length (cur_servtd_attr ext)) 0 \<rparr> in
      pbind (plift (calculate_approved_servtd_ext_hash (sha384 (te_crypto (re_tls env))) ext)) (\<lambda>hash.
        on_module (write_approved_servtd_ext_hash (re_vm_write env) hash)))))"

definition accept_over_session ::
    "('h, 'v, 'k, 'm) rebind_env \<Rightarrow> 'k \<Rightarrow> (('h, 'v, 'm) msk_world, migration_result, unit) prog" where
  "accept_over_session env k w =
     pbind (on_session (tls_connection_new k (mw_stream w)) (tls_receive_rebind_token env)) (\<lambda>(rebind_token, c).
     pbind (plift (get_servtd_ext_from_cert (te_crypto (re_tls env)) (re_peer_certs env (tk_conn c)))) (\<lambda>ext.
     pbind (install_rebinding env rebind_token ext) (\<lambda>_.
     pbind (on_session c shutdown_connection) (\<lambda>_. plift (Ok ()))))) w"

definition rebinding_new_prepare ::
    "('h, 'v, 'k, 'm) rebind_env \<Rightarrow> migtd_info \<Rightarrow> bytes \<Rightarrow> (('h, 'v, 'm) rebind_world, migration_result, unit) prog" where
  "rebinding_new_prepare env info peer_data =
     pbind (noting (failed_text ''rebinding_new()'' (mig_request_id info)) (pmap_err result_of_ratls_error
       (on_msk (on_platform (server_rebinding (re_tls env) (xe_tls_server (re_msk env)) peer_data))))) (\<lambda>k.
       on_msk (accept_over_session env k))"

definition log_completion :: "('h, 'v, 'k, 'm) rebind_env \<Rightarrow> migtd_info \<Rightarrow> (('h, 'v, 'm) rebind_world, migration_result, unit) prog" where
  "log_completion env info w =
     (case entrylog (re_dbg env) (re_apic_id env) (text_bytes (''Complete rebinding and report status'' @ [CHR 0x0A])) LevelInfo
             (mig_request_id info) (bw_logging w) of
        (r, l) \<Rightarrow> Some (case r of Panic \<Rightarrow> Panic | _ \<Rightarrow> Ok (), w\<lparr> bw_logging := l \<rparr>))"

definition start_rebinding ::
    "('h, 'v, 'k, 'm) rebind_env \<Rightarrow> migtd_info \<Rightarrow> (('h, 'v, 'm) rebind_world, migration_result, unit) prog" where
  "start_rebinding env info =
     pbind (plift
       (case init_td_info_if_present info of
          None \<Rightarrow> Ok ()
        | Some td_info \<Rightarrow>
            map_err (\<lambda>_. PolicyUnsatisfiedError)
              (verify_init_migtd_data_policy_binding (te_mig (re_tls env)) td_info))) (\<lambda>_.
     pbind (on_msk (on_stream (setup_transport (xe_register_callback (re_msk env)) (mig_request_id info)))) (\<lambda>_.
     pbind (on_msk (on_stream (await_timely (xe_pre_session_expires (re_msk env)) id
       (pre_session_data_exchange (xe_write (re_msk env)) (xe_read (re_msk env))
          (te_policy (re_tls env)) (te_issuer_chain (re_tls env)))))) (\<lambda>peer_data.
     pbind (if is_src info then rebinding_old_prepare env info peer_data else rebinding_new_prepare env info peer_data) (\<lambda>_.
       log_completion env info))))"

section \<open>Which writes the new MigTD makes\<close>

text \<open>A program that makes the writes \<open>ws\<close>, in order, to the module: a part of them if it fails, all of them if it succeeds.\<close>

definition performs ::
    "(64 word \<Rightarrow> 64 word \<Rightarrow> 'm \<Rightarrow> 'm option) \<Rightarrow> (64 word \<times> 64 word) list \<Rightarrow> (('h, 'v, 'm) msk_world, 'e, 'a) prog \<Rightarrow> bool" where
  "performs wr ws p \<longleftrightarrow> (\<forall>w r w'. p w = Some (r, w') \<longrightarrow>
     (\<exists>n \<le> length ws. writes wr (take n ws) (mw_module w) = Some (mw_module w') \<and> (is_ok r \<longrightarrow> n = length ws)))"

lemma writes_append: "writes wr (xs @ ys) m = Option.bind (writes wr xs m) (writes wr ys)"
proof (induction xs arbitrary: m)
  case (Cons x xs)
  then show ?case by (cases x; cases "wr (fst x) (snd x) m") simp_all
qed simp

lemma performsD:
  "performs wr ws p \<Longrightarrow> p w = Some (r, w') \<Longrightarrow>
     \<exists>n. n \<le> length ws \<and> writes wr (take n ws) (mw_module w) = Some (mw_module w') \<and> (is_ok r \<longrightarrow> n = length ws)"
  by (simp add: performs_def)

lemma performs_pbind:
  assumes "performs wr ws p" and "\<And>x. performs wr vs (f x)"
  shows "performs wr (ws @ vs) (pbind p f)"
  unfolding performs_def
proof (intro allI impI)
  fix w r w' assume "pbind p f w = Some (r, w')"
  then consider (ok) x w1 where "p w = Some (Ok x, w1)" "f x w1 = Some (r, w')" | (stop) q where "p w = Some (q, w')" "\<not> is_ok r"
    by (auto simp: pbind_cases)
  then show "\<exists>n \<le> length (ws @ vs). writes wr (take n (ws @ vs)) (mw_module w) = Some (mw_module w') \<and> (is_ok r \<longrightarrow> n = length (ws @ vs))"
  proof cases
    case ok
    have "writes wr ws (mw_module w) = Some (mw_module w1)" using assms(1) ok(1) unfolding performs_def by fastforce
    moreover obtain n where "n \<le> length vs" "writes wr (take n vs) (mw_module w1) = Some (mw_module w')" "is_ok r \<longrightarrow> n = length vs"
      using assms(2) ok(2) unfolding performs_def by blast
    ultimately show ?thesis by (intro exI [of _ "length ws + n"]) (simp add: writes_append)
  next
    case stop
    obtain n where "n \<le> length ws" "writes wr (take n ws) (mw_module w) = Some (mw_module w')"
      using assms(1) stop(1) unfolding performs_def by blast
    with stop(2) show ?thesis by (intro exI [of _ n]) simp
  qed
qed

lemma performs_keeps: "keeps_module p \<Longrightarrow> performs wr [] p"
  by (auto simp: performs_def keeps_module_def)

lemma performs_on_module:
  assumes "\<And>m r m'. f m = (r, m') \<Longrightarrow>
    \<exists>n \<le> length ws. writes wr (take n ws) m = Some m' \<and> (r = Ok () \<longrightarrow> n = length ws)"
  shows "performs wr ws (on_module f)"
  unfolding performs_def
proof (intro allI impI)
  fix w r w' assume run: "on_module f w = Some (r, w')"
  obtain m' where "f (mw_module w) = (r, m')" "mw_module w' = m'" using run by (auto simp: on_module_def split: prod.splits)
  with assms [of "mw_module w" r m'] show "\<exists>n \<le> length ws. writes wr (take n ws) (mw_module w) = Some (mw_module w') \<and> (is_ok r \<longrightarrow> n = length ws)"
    by (cases r) auto
qed

lemma performs_plift:
  assumes "\<And>x. r = Ok x \<Longrightarrow> performs wr ws (f x)"
  shows "performs wr ws (pbind (plift r) f)"
proof (cases r)
  case (Ok x)
  then show ?thesis using assms by simp
qed (auto simp: performs_def pbind_def intro: exI [of _ 0])

definition field_writes :: "64 word \<Rightarrow> nat \<Rightarrow> bytes list \<Rightarrow> (64 word \<times> 64 word) list" where
  "field_writes field idx chunks = map (\<lambda>(i, chunk). (field + word_of_nat i, u64_of chunk)) (enumerate idx chunks)"

lemma field_writes_simps [simp]:
  "field_writes field idx [] = []"
  "field_writes field idx (c # cs) = (field + word_of_nat idx, u64_of c) # field_writes field (Suc idx) cs"
  "length (field_writes field idx cs) = length cs"
  by (simp_all add: field_writes_def)

abbreviation own_write :: "('h, 'v, 'k, 'm) rebind_env \<Rightarrow> 64 word \<Rightarrow> 64 word \<Rightarrow> 'm \<Rightarrow> 'm option" where
  "own_write env \<equiv> \<lambda>field v. re_vm_write env field v TDCS_FIELD_WRITE_MASK"

text \<open>The two loops that write words make their writes one after the other.\<close>

fun write_seq ::
    "(64 word \<Rightarrow> 64 word \<Rightarrow> 'm \<Rightarrow> 'm option) \<Rightarrow> (64 word \<times> 64 word) list \<Rightarrow> 'm \<Rightarrow> (migration_result, unit) outcome \<times> 'm" where
  "write_seq wr [] m = (Ok (), m)"
| "write_seq wr ((field, v) # ws) m = (case wr field v m of None \<Rightarrow> (Err TdxModuleError, m) | Some m' \<Rightarrow> write_seq wr ws m')"

lemma write_token_words_seq:
  "write_token_words vm idx cs m =
     write_seq (\<lambda>field v. vm field v TDCS_FIELD_WRITE_MASK) (field_writes TDCS_FIELD_SERVTD_REBIND_ACCEPT_TOKEN idx cs) m"
  by (induction vm idx cs m rule: write_token_words.induct) (simp_all split: option.split)

lemma write_words_seq:
  "write_words vm idx cs m =
     write_seq (\<lambda>field v. vm field v TDCS_FIELD_WRITE_MASK) (field_writes TDCS_FIELD_SERVTD_ACCEPT_SERVTD_EXT_HASH idx cs) m"
  by (induction vm idx cs m rule: write_words.induct) (simp_all split: option.split)

lemma write_seq_performs:
  "write_seq wr ws m = (r, m') \<Longrightarrow> \<exists>n \<le> length ws. writes wr (take n ws) m = Some m' \<and> (r = Ok () \<longrightarrow> n = length ws)"
proof (induction wr ws m rule: write_seq.induct)
  case (2 wr field v ws m)
  show ?case
  proof (cases "wr field v m")
    case None
    then show ?thesis using "2.prems" by (intro exI [of _ 0]) auto
  next
    case (Some m1)
    with 2 obtain n where "n \<le> length ws" "writes wr (take n ws) m1 = Some m'" "r = Ok () \<longrightarrow> n = length ws" by auto
    with Some show ?thesis by (intro exI [of _ "Suc n"]) simp
  qed
qed simp

text \<open>The hash that is approved: of the peer's extension without the current measurement and attributes.\<close>

definition approved_hash :: "('h, 'v, 'k, 'm) rebind_env \<Rightarrow> servtd_ext \<Rightarrow> (migration_result, bytes) outcome" where
  "approved_hash env ext =
     calculate_approved_servtd_ext_hash (sha384 (te_crypto (re_tls env)))
       (ext\<lparr> cur_servtd_info_hash := replicate (length (cur_servtd_info_hash ext)) 0,
            cur_servtd_attr := replicate (length (cur_servtd_attr ext)) 0 \<rparr>)"

definition rebind_writes :: "('h, 'v, 'k, 'm) rebind_env \<Rightarrow> bytes \<Rightarrow> servtd_ext \<Rightarrow> (64 word \<times> 64 word) list" where
  "rebind_writes env token ext =
     field_writes TDCS_FIELD_SERVTD_REBIND_ACCEPT_TOKEN 0 (chunks_exact8 token) @
     [(TDCS_FIELD_SERVTD_REBIND_ATTR, u64_of (cur_servtd_attr ext))] @
     (case approved_hash env ext of
        Ok hash \<Rightarrow> field_writes TDCS_FIELD_SERVTD_ACCEPT_SERVTD_EXT_HASH 0 (chunks_exact8 hash)
      | _ \<Rightarrow> [])"

lemma install_rebinding_performs: "performs (own_write env) (rebind_writes env token ext) (install_rebinding env token ext)"
proof -
  let ?tail = "case approved_hash env ext of
        Ok hash \<Rightarrow> field_writes TDCS_FIELD_SERVTD_ACCEPT_SERVTD_EXT_HASH 0 (chunks_exact8 hash) | _ \<Rightarrow> []"
  have token: "performs (own_write env) (field_writes TDCS_FIELD_SERVTD_REBIND_ACCEPT_TOKEN 0 (chunks_exact8 token))
      (on_module (write_rebinding_session_token (re_vm_write env) token))"
    by (rule performs_on_module)
      (auto simp: write_rebinding_session_token_def write_token_words_seq simp del: field_writes_simps(3) dest: write_seq_performs split: if_splits)
  have attr: "performs (own_write env) [(TDCS_FIELD_SERVTD_REBIND_ATTR, u64_of (cur_servtd_attr ext))]
      (on_module (write_servtd_rebind_attr (re_vm_write env) (cur_servtd_attr ext)))"
    by (rule performs_on_module)
      (auto simp: write_servtd_rebind_attr_def split: if_splits option.splits intro: exI [of _ 0] exI [of _ 1])
  have "performs (own_write env) ?tail
      (pbind (plift (approved_hash env ext)) (\<lambda>hash. on_module (write_approved_servtd_ext_hash (re_vm_write env) hash)))"
    by (rule performs_plift, rule performs_on_module)
      (auto simp: write_approved_servtd_ext_hash_def write_words_seq simp del: field_writes_simps(3) dest: write_seq_performs split: if_splits)
  from performs_pbind [OF token performs_pbind [OF attr this]] show ?thesis
    by (simp add: install_rebinding_def rebind_writes_def approved_hash_def Let_def)
qed

section \<open>Only authenticated peers\<close>

text \<open>A session that has delivered data at least once.\<close>

inductive has_read :: "('h, 'v, 'k, 'm) rebind_env \<Rightarrow> ('k, 'v vmcall_raw) tls_conn \<Rightarrow> ('k, 'v vmcall_raw) tls_conn \<Rightarrow> bool"
  for env c where
  first: "session_read env n c = Some (Ok bs, c') \<Longrightarrow> has_read env c c'"
| more: "has_read env c c' \<Longrightarrow> session_read env n c' = Some (Ok bs, c'') \<Longrightarrow> has_read env c c''"

text \<open>
  What the TLS library promises a server: once a session has delivered data, the certificates it reports for the peer begin with one
  that the callback of the configuration has accepted.
\<close>

definition library_presents :: "('h, 'v, 'k, 'm) rebind_env \<Rightarrow> bool" where
  "library_presents env \<longleftrightarrow> (\<forall>cfg k t c. xe_tls_server (re_msk env) cfg = Ok k \<and> has_read env (tls_connection_new k t) c \<longrightarrow>
     (\<exists>der rest h h'. re_peer_certs env (tk_conn c) = Some (der # rest) \<and> tc_callback cfg der (tc_data cfg) h = Some (Ok (), h')))"

lemma read_exact_read:
  assumes "tls_session_read_exact (session_read env) n [] c = Some (Ok bs, c')" and "0 < n"
  shows "has_read env c c'" and "n \<le> length bs"
proof -
  let ?P = "\<lambda>rd n' (recvd :: bytes) s (out :: (migration_result, bytes) outcome \<times> _). rd = session_read env \<longrightarrow> n' = n \<longrightarrow> (recvd = [] \<and> s = c \<or> has_read env c s) \<longrightarrow>
      (\<forall>bs. fst out = Ok bs \<longrightarrow> has_read env c (snd out) \<and> n \<le> length bs)"
  have "?P (session_read env) n [] c (Ok bs, c')"
  proof (rule tls_session_read_exact.raw_induct [where P = ?P, OF _ assms(1)], intro impI, goal_cases)
    case (1 f rd n' recvd s out)
    show ?case
    proof (cases "length recvd < n")
      case True
      show ?thesis
      proof (cases "\<exists>x s'. session_read env (n - length recvd) s = Some (Ok x, s')")
        case more: True
        then obtain x s' where x: "session_read env (n - length recvd) s = Some (Ok x, s')" by blast
        have "f (session_read env) n (recvd @ x) s' = Some out" using 1(2-4) True x by simp
        moreover have "has_read env c s'" using 1(5) x by (auto intro: has_read.intros)
        ultimately show ?thesis using 1(1) by blast
      next
        case False
        with 1(2-4) True show ?thesis by (auto split: option.splits outcome.splits)
      qed
    next
      case False
      with 1(2-5) assms(2) show ?thesis by auto
    qed
  qed
  then show "has_read env c c'" and "n \<le> length bs" by simp_all
qed

lemma await_timely_Ok:
  "await_timely expires f fut s = Some (Ok x, s') \<Longrightarrow> fut s = Some (Ok x, s')"
  by (auto simp: await_timely_def with_timeout_def outcome_simps split: option.splits outcome.splits)

lemma receive_token_Ok:
  assumes "tls_receive_rebind_token env c = Some (Ok token, c')"
  shows "has_read env c c'" and "length token = 32"
  using assms read_exact_read [of env REBINDING_TOKEN_SIZE c]
  by (auto simp: tls_receive_rebind_token_def outcome_simps rebinding_token_read_from_bytes_def REBINDING_TOKEN_SIZE_def
      dest!: await_timely_Ok split: if_splits)

lemma on_session_Ok:
  "on_session c p w = Some (Ok (x, c'), w') \<longleftrightarrow>
     p (c\<lparr> tk_transport := mw_stream w \<rparr>) = Some (Ok x, c') \<and> w' = w\<lparr> mw_stream := tk_transport c' \<rparr>"
  by (auto simp: on_session_def outcome_simps)

lemma keeps_module_session: "keeps_module (on_session c p)"
  by (auto simp: keeps_module_def on_session_def)

text \<open>Programs on the larger world that leave the module alone.\<close>

definition spares_module :: "(('h, 'v, 'm) rebind_world, 'e, 'a) prog \<Rightarrow> bool" where
  "spares_module p \<longleftrightarrow> (\<forall>w r w'. p w = Some (r, w') \<longrightarrow> mw_module (bw_msk w') = mw_module (bw_msk w))"

lemma spares_module_intros:
  "keeps_module q \<Longrightarrow> spares_module (on_msk q)" "spares_module (plift r)" "spares_module (log_completion env info)"
  "spares_module p \<Longrightarrow> spares_module (noting msg p)" "spares_module p \<Longrightarrow> spares_module (pmap_err f p)"
  by (auto simp: spares_module_def keeps_module_def on_msk_def log_completion_def noting_def pmap_err_def
      split: prod.splits option.splits outcome.splits)

lemma spares_module_pbind: "spares_module p \<Longrightarrow> (\<And>x. spares_module (f x)) \<Longrightarrow> spares_module (pbind p f)"
  unfolding spares_module_def pbind_cases by metis

text \<open>If a program changes the module or succeeds, and its first part spares the module, then the second part was run.\<close>

definition acts :: "(('h, 'v, 'm) rebind_world, 'e, 'a) prog \<Rightarrow> ('h, 'v, 'm) rebind_world \<Rightarrow> ('e, 'a) outcome \<Rightarrow> ('h, 'v, 'm) rebind_world \<Rightarrow> bool" where
  "acts p w r w' \<longleftrightarrow> p w = Some (r, w') \<and> (mw_module (bw_msk w') = mw_module (bw_msk w) \<longrightarrow> is_ok r)"

lemma acts_pbind:
  assumes "acts (pbind p f) w r w'" and "spares_module p"
  obtains x w1 where "p w = Some (Ok x, w1)" "mw_module (bw_msk w1) = mw_module (bw_msk w)" "acts (f x) w1 r w'"
proof -
  from assms(1) have "pbind p f w = Some (r, w')" by (simp add: acts_def)
  then consider (ok) x w1 where "p w = Some (Ok x, w1)" "f x w1 = Some (r, w')" | (stop) q where "p w = Some (q, w')" "\<not> is_ok r"
    by (auto simp: pbind_cases)
  then show thesis
  proof cases
    case ok
    moreover from ok(1) assms(2) have "mw_module (bw_msk w1) = mw_module (bw_msk w)" by (auto simp: spares_module_def)
    ultimately show ?thesis using that assms(1) by (simp add: acts_def)
  next
    case stop
    with assms show ?thesis by (auto simp: acts_def spares_module_def)
  qed
qed

lemma noting_Ok: "noting msg p w = Some (Ok x, w') \<longleftrightarrow> p w = Some (Ok x, w')"
  by (auto simp: noting_def split: option.splits prod.splits outcome.splits)

lemma on_msk_Ok: "on_msk p w = Some (Ok x, w') \<longleftrightarrow> (\<exists>m. p (bw_msk w) = Some (Ok x, m) \<and> w' = w\<lparr> bw_msk := m \<rparr>)"
  by (auto simp: on_msk_def)

text \<open>The part of a rebinding before the two sides differ.\<close>

lemma start_rebinding_acts:
  assumes "acts (start_rebinding env info) w r w'"
  obtains blob t t' w1 where
    "pre_session_data_exchange (xe_write (re_msk env)) (xe_read (re_msk env)) (te_policy (re_tls env)) (te_issuer_chain (re_tls env)) t
       = Some (Ok blob, t')"
    "mw_module (bw_msk w1) = mw_module (bw_msk w)"
    "acts (pbind (if is_src info then rebinding_old_prepare env info blob else rebinding_new_prepare env info blob)
       (\<lambda>_. log_completion env info)) w1 r w'"
proof -
  obtain w0 where w0: "mw_module (bw_msk w0) = mw_module (bw_msk w)"
    "acts (pbind (on_msk (on_stream (setup_transport (xe_register_callback (re_msk env)) (mig_request_id info)))) (\<lambda>_.
     pbind (on_msk (on_stream (await_timely (xe_pre_session_expires (re_msk env)) id
       (pre_session_data_exchange (xe_write (re_msk env)) (xe_read (re_msk env))
          (te_policy (re_tls env)) (te_issuer_chain (re_tls env)))))) (\<lambda>peer_data.
     pbind (if is_src info then rebinding_old_prepare env info peer_data else rebinding_new_prepare env info peer_data) (\<lambda>_.
       log_completion env info)))) w0 r w'"
    by (rule acts_pbind [OF assms [unfolded start_rebinding_def] spares_module_intros(2)]) blast
  note stream = spares_module_intros(1) [OF keeps_module_basic(4)]
  show thesis
  proof (rule acts_pbind [OF w0(2) stream], goal_cases)
    case (1 x w1)
    show ?case
    proof (rule acts_pbind [OF 1(3) stream], goal_cases)
      case (1 blob w2)
      moreover obtain t t' where
        "pre_session_data_exchange (xe_write (re_msk env)) (xe_read (re_msk env)) (te_policy (re_tls env)) (te_issuer_chain (re_tls env)) t
           = Some (Ok blob, t')"
        using 1(1) by (auto simp: on_msk_Ok on_stream_def dest!: await_timely_Ok)
      ultimately show ?case using that w0(1) \<open>mw_module (bw_msk w1) = mw_module (bw_msk w0)\<close> by simp
    qed
  qed
qed

lemma server_rebinding_callback:
  assumes "library_presents env"
    and "server_rebinding (re_tls env) (xe_tls_server (re_msk env)) blob h0 = Some (Ok k, h1)"
    and "has_read env (tls_connection_new k t) c"
  shows "\<exists>der rest h h'. re_peer_certs env (tk_conn c) = Some (der # rest) \<and>
    verify_rebinding_old_cert (re_tls env) der blob h = Some (Ok (), h')"
proof -
  obtain cert key where "xe_tls_server (re_msk env)
      \<lparr> tc_certs = [cert], tc_signing_key = key, tc_callback = verify_rebinding_old_cert (re_tls env), tc_data = blob \<rparr> = Ok k"
    using assms(2) by (auto simp: server_rebinding_def outcome_simps tls_config_new_def)
  from assms(1) [unfolded library_presents_def, rule_format, OF conjI [OF this assms(3)]] show ?thesis by simp
qed

lemma acts_log:
  assumes "acts (pbind p (\<lambda>_. log_completion env info)) w r w'"
  obtains r0 w1 where "acts p w r0 w1" "mw_module (bw_msk w') = mw_module (bw_msk w1)" "is_ok r \<longrightarrow> is_ok r0"
proof -
  have "\<exists>r0 w1. p w = Some (r0, w1) \<and> mw_module (bw_msk w') = mw_module (bw_msk w1) \<and> (is_ok r \<longrightarrow> is_ok r0)"
    using assms spares_module_intros(3) [of env info] unfolding acts_def pbind_cases spares_module_def by fastforce
  with assms that show thesis unfolding acts_def by metis
qed

lemma accept_over_session_writes:
  assumes "accept_over_session env k w = Some (r, w')"
  shows "mw_module w' = mw_module w \<and> \<not> is_ok r \<or>
    (\<exists>c token ext n. has_read env (tls_connection_new k (mw_stream w)) c \<and> length token = 32 \<and>
       get_servtd_ext_from_cert (te_crypto (re_tls env)) (re_peer_certs env (tk_conn c)) = Ok ext \<and>
       n \<le> length (rebind_writes env token ext) \<and> (is_ok r \<longrightarrow> n = length (rebind_writes env token ext)) \<and>
       writes (own_write env) (take n (rebind_writes env token ext)) (mw_module w) = Some (mw_module w'))"
proof -
  let ?c0 = "tls_connection_new k (mw_stream w)"
  let ?stop = "\<lambda>c. pbind (on_session c shutdown_connection) (\<lambda>_. plift (Ok ()))"
  have fin: "performs (own_write env) (rebind_writes env token ext) (pbind (install_rebinding env token ext) (\<lambda>_. ?stop c))"
    for token ext c
    using performs_pbind [OF install_rebinding_performs performs_keeps,
        of "\<lambda>_. ?stop c" env token ext]
    by (simp add: keeps_module_intros keeps_module_session)
  have c0: "?c0\<lparr> tk_transport := mw_stream w \<rparr> = ?c0" by (simp add: tls_connection_new_def)
  from assms [unfolded accept_over_session_def] consider
      (ok) token c w1 where "on_session ?c0 (tls_receive_rebind_token env) w = Some (Ok (token, c), w1)"
        "pbind (plift (get_servtd_ext_from_cert (te_crypto (re_tls env)) (re_peer_certs env (tk_conn c)))) (\<lambda>ext.
           pbind (install_rebinding env token ext) (\<lambda>_. ?stop c)) w1 = Some (r, w')"
    | (stop) q where "on_session ?c0 (tls_receive_rebind_token env) w = Some (q, w')" "\<not> is_ok r"
    by (subst (asm) pbind_cases) auto
  then show ?thesis
  proof cases
    case ok
    have recv: "tls_receive_rebind_token env ?c0 = Some (Ok token, c)" and m: "mw_module w1 = mw_module w"
      using ok(1) c0 by (simp_all add: on_session_Ok)
    show ?thesis
    proof (cases "get_servtd_ext_from_cert (te_crypto (re_tls env)) (re_peer_certs env (tk_conn c))")
      case (Ok ext)
      then have run: "pbind (install_rebinding env token ext) (\<lambda>_. ?stop c) w1 = Some (r, w')" using ok(2) by simp
      obtain n where "n \<le> length (rebind_writes env token ext)" "is_ok r \<longrightarrow> n = length (rebind_writes env token ext)"
        "writes (own_write env) (take n (rebind_writes env token ext)) (mw_module w) = Some (mw_module w')"
        using performsD [OF fin run] m by (elim exE conjE) simp
      with receive_token_Ok [OF recv] Ok show ?thesis
        by (intro disjI2 exI [of _ c] exI [of _ token] exI [of _ ext] exI [of _ n] conjI)
    qed (use ok(2) m in \<open>auto simp: pbind_def\<close>)
  next
    case stop
    then show ?thesis using keeps_module_session unfolding keeps_module_def by blast
  qed
qed


lemma channel_Ok: "channel p c = Some (Ok x, c') \<longleftrightarrow> p c = Some (Ok x, c')"
proof (cases "p c")
  case (Some z)
  then show ?thesis by (cases z; cases "fst z") (auto simp: channel_def stream_result_def outcome_simps)
qed (simp add: channel_def)

lemma send_token_Ok:
  assumes "tls_send_rebind_token env token c = Some (Ok (), c')" and "token \<noteq> []"
  shows "\<exists>n c1. tls_write (xe_lib (re_msk env)) (xe_write (re_msk env)) (xe_read (re_msk env)) token c = Some (Ok n, c1)"
proof -
  have "tls_session_write_all (session_write env) token 0 c = Some (Ok (), c')"
    using assms(1) unfolding tls_send_rebind_token_def by (rule await_timely_Ok)
  then show ?thesis
    using assms(2) tls_session_write_all.simps [of "session_write env" token 0 c]
    by (cases "session_write env token c") (auto simp: channel_Ok split: outcome.splits)
qed

lemma approve_over_session_approves:
  assumes "approve_over_session env info k token w = Some (r, w')"
  shows "mw_module w' = mw_module w \<and> \<not> is_ok r \<or>
    (\<exists>c. tls_send_rebind_token env token (tls_connection_new k (mw_stream w)) = Some (Ok (), c) \<and>
       re_rebind_approve env (binding_handle info) token (target_td_uuid info) (mw_module w) = Some (mw_module w'))"
proof -
  let ?c0 = "tls_connection_new k (mw_stream w)"
  have c0: "?c0\<lparr> tk_transport := mw_stream w \<rparr> = ?c0" by (simp add: tls_connection_new_def)
  from assms [unfolded approve_over_session_def] consider
      (ok) c w1 where "on_session ?c0 (tls_send_rebind_token env token) w = Some (Ok ((), c), w1)"
        "pbind (on_module (approve_rebinding env info token)) (\<lambda>_. pbind (on_session c shutdown_connection) (\<lambda>_. plift (Ok ()))) w1
           = Some (r, w')"
    | (stop) q where "on_session ?c0 (tls_send_rebind_token env token) w = Some (q, w')" "\<not> is_ok r"
    by (subst (asm) pbind_cases) auto
  then show ?thesis
  proof cases
    case ok
    have sent: "tls_send_rebind_token env token ?c0 = Some (Ok (), c)" and m: "mw_module w1 = mw_module w"
      using ok(1) c0 by (simp_all add: on_session_Ok)
    have fin: "keeps_module (pbind (on_session c shutdown_connection) (\<lambda>_. plift (Ok ())))"
      by (intro keeps_module_intros keeps_module_session)
    show ?thesis
    proof (cases "re_rebind_approve env (binding_handle info) token (target_td_uuid info) (mw_module w1)")
      case None
      then show ?thesis using ok(2) m by (auto simp: pbind_def on_module_def approve_rebinding_def)
    next
      case (Some m')
      then have "pbind (on_session c shutdown_connection) (\<lambda>_. plift (Ok ())) (w1\<lparr> mw_module := m' \<rparr>) = Some (r, w')"
        using ok(2) by (simp add: pbind_def [of "on_module _"] on_module_def approve_rebinding_def)
      with fin have "mw_module w' = m'" unfolding keeps_module_def by fastforce
      with sent Some m show ?thesis by auto
    qed
  next
    case stop
    then show ?thesis using keeps_module_session unfolding keeps_module_def by blast
  qed
qed

lemma client_rebinding_callback:
  assumes "library_authenticates (re_msk env)"
    and "client_rebinding (re_tls env) (xe_tls_client (re_msk env)) blob init_tdinfo ext h0 = Some (Ok k, h1)"
    and "tls_write (xe_lib (re_msk env)) (xe_write (re_msk env)) (xe_read (re_msk env)) data (tls_connection_new k t) = Some (Ok n, c)"
  shows "\<exists>der h h'. verify_rebinding_new_cert (re_tls env) der blob h = Some (Ok (), h')"
proof -
  obtain cert key where "xe_tls_client (re_msk env)
      \<lparr> tc_certs = [cert], tc_signing_key = key, tc_callback = verify_rebinding_new_cert (re_tls env), tc_data = blob \<rparr> = Ok k"
    using assms(2) by (auto simp: client_rebinding_def outcome_simps tls_config_new_def)
  moreover have "xe_tls_client (re_msk env) \<in> {xe_tls_client (re_msk env), xe_tls_server (re_msk env)}" by simp
  ultimately show ?thesis
    using assms(1) [unfolded library_authenticates_def, rule_format, OF conjI, OF _ conjI, OF _ _ assms(3)] by fastforce
qed

lemma old_prepare_acts:
  assumes "acts (rebinding_old_prepare env info blob) w r w'"
  shows "\<exists>ext init k token w1 h0 h1.
    read_servtd_ext (module_rd (xe_module (re_msk env)) info (mw_module (bw_msk w))) = Ok ext \<and>
    client_rebinding (re_tls env) (xe_tls_client (re_msk env)) blob init ext h0 = Some (Ok k, h1) \<and>
    re_random env 32 = Some token \<and> mw_module (bw_msk w1) = mw_module (bw_msk w) \<and>
    acts (on_msk (approve_over_session env info k token)) w1 r w'"
proof (rule acts_pbind [OF assms [unfolded rebinding_old_prepare_def]], goal_cases)
  case 1
  show ?case by (intro spares_module_intros) (simp add: keeps_module_def)
next
  case (2 ext w2)
  have ext: "read_servtd_ext (module_rd (xe_module (re_msk env)) info (mw_module (bw_msk w))) = Ok ext"
    using 2(1) by (auto simp: on_msk_Ok)
  show ?case
  proof (rule acts_pbind [OF 2(3)], goal_cases)
    case 1
    show ?case by (intro spares_module_intros keeps_module_intros)
  next
    case init: (2 init w3)
    show ?case
    proof (rule acts_pbind [OF init(3)], goal_cases)
      case 1
      show ?case by (intro spares_module_intros keeps_module_intros)
    next
      case k: (2 k w4)
      obtain h0 h1 where "client_rebinding (re_tls env) (xe_tls_client (re_msk env)) blob init ext h0 = Some (Ok k, h1)"
        using k(1) by (auto simp: noting_Ok on_msk_Ok on_platform_def outcome_simps)
      moreover obtain token where "re_random env 32 = Some token" "acts (on_msk (approve_over_session env info k token)) w4 r w'"
        by (rule acts_pbind [OF k(3) spares_module_intros(2)])
          (auto simp: create_rebind_token_def REBINDING_TOKEN_SIZE_def outcome_simps)
      ultimately show ?case
        using ext 2(2) init(2) k(2)
        by (intro exI [of _ ext] exI [of _ init] exI [of _ k] exI [of _ token] exI [of _ w4] exI [of _ h0] exI [of _ h1] conjI) simp_all
    qed
  qed
qed

text \<open>
  C8: An old MigTD gives up its binding only to a peer it has authenticated.  With a TLS library that calls the callback and a random
  generator that fills its buffer, a rebinding on the old side has either failed with the module untouched, or a certificate
  of the peer was accepted against the policy blob the peer had sent, the attributes of the current binding were
  the expected ones, and the only change of the module is the approval of the token made for this session.
\<close>
theorem rebinding_old_approves:
  assumes "library_authenticates (re_msk env)" and "\<forall>token. re_random env 32 = Some token \<longrightarrow> length token = 32"
    and "is_src info" and "start_rebinding env info w = Some (res, w')"
  shows "mw_module (bw_msk w') = mw_module (bw_msk w) \<and> res \<noteq> Ok () \<or>
    (\<exists>blob t t' der h h' ext token.
       pre_session_data_exchange (xe_write (re_msk env)) (xe_read (re_msk env)) (te_policy (re_tls env)) (te_issuer_chain (re_tls env)) t
         = Some (Ok blob, t') \<and>
       verify_rebinding_new_cert (re_tls env) der blob h = Some (Ok (), h') \<and>
       read_servtd_ext (module_rd (xe_module (re_msk env)) info (mw_module (bw_msk w))) = Ok ext \<and>
       re_random env 32 = Some token \<and>
       re_rebind_approve env (binding_handle info) token (target_td_uuid info) (mw_module (bw_msk w)) = Some (mw_module (bw_msk w')))"
proof (cases "acts (start_rebinding env info) w res w'")
  case False
  then show ?thesis using assms(4) by (auto simp: acts_def)
next
  case True
  then show ?thesis
  proof (rule start_rebinding_acts, goal_cases)
    case (1 blob t t' w1)
    from 1(3) obtain r0 w2 where w2: "acts (rebinding_old_prepare env info blob) w1 r0 w2"
      "mw_module (bw_msk w') = mw_module (bw_msk w2)"
      using assms(3) by (auto elim: acts_log)
    obtain ext init k token w5 h0 h1 where s:
      "read_servtd_ext (module_rd (xe_module (re_msk env)) info (mw_module (bw_msk w1))) = Ok ext"
      "client_rebinding (re_tls env) (xe_tls_client (re_msk env)) blob init ext h0 = Some (Ok k, h1)"
      "re_random env 32 = Some token" "mw_module (bw_msk w5) = mw_module (bw_msk w1)"
      "acts (on_msk (approve_over_session env info k token)) w5 r0 w2"
      using old_prepare_acts [OF w2(1)] by (elim exE conjE)
    obtain m where m: "approve_over_session env info k token (bw_msk w5) = Some (r0, m)" "mw_module m = mw_module (bw_msk w2)"
      "\<not> (mw_module m = mw_module (bw_msk w5) \<and> \<not> is_ok r0)"
      using s(5) by (auto simp: acts_def on_msk_def)
    obtain c where c: "tls_send_rebind_token env token (tls_connection_new k (mw_stream (bw_msk w5))) = Some (Ok (), c)"
      "re_rebind_approve env (binding_handle info) token (target_td_uuid info) (mw_module (bw_msk w5)) = Some (mw_module m)"
      using approve_over_session_approves [OF m(1)] m(3) by (elim disjE exE conjE) simp_all
    have token: "token \<noteq> []" using assms(2) s(3) by auto
    obtain n c1 where wr: "tls_write (xe_lib (re_msk env)) (xe_write (re_msk env)) (xe_read (re_msk env)) token
        (tls_connection_new k (mw_stream (bw_msk w5))) = Some (Ok n, c1)"
      using send_token_Ok [OF c(1) token] by (elim exE)
    obtain der h h' where "verify_rebinding_new_cert (re_tls env) der blob h = Some (Ok (), h')"
      using client_rebinding_callback [OF assms(1) s(2) wr] by (elim exE)
    then show ?case
      using 1(1,2) s(1,3,4) w2(2) m(2) c(2)
      by (intro disjI2 exI [of _ blob] exI [of _ t] exI [of _ t'] exI [of _ der] exI [of _ h] exI [of _ h'] exI [of _ ext]
          exI [of _ token] conjI) simp_all
  qed
qed

section \<open>What an accepted binding leaves in the fields\<close>

lemma write_seq_Ok: "writes wr ws m = Some m' \<Longrightarrow> write_seq wr ws m = (Ok (), m')"
  by (induction wr ws m rule: write_seq.induct) (auto simp: bind_eq_Some_conv)

lemma faithful_writes:
  assumes "faithful_write rd vm_write"
  shows "\<exists>m'. writes (\<lambda>field v. vm_write field v TDCS_FIELD_WRITE_MASK) ws m = Some m' \<and> rd m' = rd m ++ map_of (rev ws)"
proof (induction ws arbitrary: m)
  case (Cons w ws)
  obtain field v where w: "w = (field, v)" by (cases w)
  obtain m1 where m1: "vm_write field v TDCS_FIELD_WRITE_MASK m = Some m1" "rd m1 = (rd m)(field \<mapsto> v)"
    using assms unfolding faithful_write_def by metis
  obtain m' where "writes (\<lambda>field v. vm_write field v TDCS_FIELD_WRITE_MASK) ws m1 = Some m'" "rd m' = rd m1 ++ map_of (rev ws)"
    using Cons.IH by blast
  with w m1 show ?case by (auto simp: map_add_def split: option.split)
qed simp

lemma install_rebinding_Ok:
  assumes "faithful_write rd (re_vm_write env)" and "length token = 32" and "length (cur_servtd_attr ext) = 8"
    and "approved_hash env ext = Ok hash" and "length hash = 48"
  shows "\<exists>w'. install_rebinding env token ext w = Some (Ok (), w') \<and>
    rd (mw_module w') = rd (mw_module w) ++ map_of (rev (rebind_writes env token ext))"
proof -
  let ?t = "field_writes TDCS_FIELD_SERVTD_REBIND_ACCEPT_TOKEN 0 (chunks_exact8 token)"
  let ?a = "[(TDCS_FIELD_SERVTD_REBIND_ATTR, u64_of (cur_servtd_attr ext))]"
  let ?h = "field_writes TDCS_FIELD_SERVTD_ACCEPT_SERVTD_EXT_HASH 0 (chunks_exact8 hash)"
  obtain m1 where m1: "writes (own_write env) ?t (mw_module w) = Some m1" "rd m1 = rd (mw_module w) ++ map_of (rev ?t)"
    using faithful_writes [OF assms(1)] by blast
  obtain m2 where m2: "writes (own_write env) ?a m1 = Some m2" "rd m2 = rd m1 ++ map_of (rev ?a)"
    using faithful_writes [OF assms(1)] by blast
  obtain m3 where m3: "writes (own_write env) ?h m2 = Some m3" "rd m3 = rd m2 ++ map_of (rev ?h)"
    using faithful_writes [OF assms(1)] by blast
  have "install_rebinding env token ext w = Some (Ok (), w\<lparr> mw_module := m3 \<rparr>)"
    using assms(2-5) write_seq_Ok [OF m1(1)] m2(1) write_seq_Ok [OF m3(1)]
    by (simp add: install_rebinding_def Let_def pbind_def on_module_def write_rebinding_session_token_def write_token_words_seq
        write_servtd_rebind_attr_def approved_hash_def write_approved_servtd_ext_hash_def SHA384_DIGEST_SIZE_def write_words_seq
        bind_eq_Some_conv)
  moreover have "rd m3 = rd (mw_module w) ++ map_of (rev (rebind_writes env token ext))"
    using m1(2) m2(2) m3(2) assms(4) by (simp add: rebind_writes_def)
  ultimately show ?thesis by auto
qed

lemma four_wordsE:
  assumes "length xs = 4"
  obtains a b c d where "xs = [a, b, c, d]"
  using assms by (auto simp: numeral_eq_Suc length_Suc_conv)

lemma six_wordsE:
  assumes "length xs = 6"
  obtains a b c d e f where "xs = [a, b, c, d, e, f]"
  using assms by (auto simp: numeral_eq_Suc length_Suc_conv)

lemmas rebind_fields = TDCS_FIELD_SERVTD_REBIND_ACCEPT_TOKEN_def TDCS_FIELD_SERVTD_REBIND_ATTR_def
  TDCS_FIELD_SERVTD_ACCEPT_SERVTD_EXT_HASH_def

text \<open>
  C30: What the new MigTD has accepted is what the TDX module will compare.  With a module whose writes take effect, accepting a token of
  32 bytes and an extension succeeds, and then the fields of the module give back the token byte for
  byte, the attributes of the extension, and the 48 bytes of the hash of the extension without the current binding; so the
  token the old side has approved and the one stored are equal.
\<close>
theorem rebinding_installed:
  assumes "faithful_write rd (re_vm_write env)" and "length token = 32" and "length (cur_servtd_attr ext) = 8"
    and "approved_hash env ext = Ok hash" and "length hash = 48"
  shows "\<exists>w'. install_rebinding env token ext w = Some (Ok (), w') \<and>
    read_field (rd (mw_module w')) TDCS_FIELD_SERVTD_REBIND_ACCEPT_TOKEN 8 32 = Ok token \<and>
    read_field (rd (mw_module w')) TDCS_FIELD_SERVTD_REBIND_ATTR 8 8 = Ok (cur_servtd_attr ext) \<and>
    read_field (rd (mw_module w')) TDCS_FIELD_SERVTD_ACCEPT_SERVTD_EXT_HASH 8 48 = Ok hash"
proof -
  obtain w' where w': "install_rebinding env token ext w = Some (Ok (), w')"
    "rd (mw_module w') = rd (mw_module w) ++ map_of (rev (rebind_writes env token ext))"
    using install_rebinding_Ok [OF assms, of w] by (elim exE conjE)
  have tok: "token = u64s_le (u64s_of 4 token)" and hsh: "hash = u64s_le (u64s_of 6 hash)"
    using assms(2,5) by (simp_all add: u64s_le_of)
  obtain a b c d where t: "u64s_of 4 token = [a, b, c, d]" by (rule four_wordsE [of "u64s_of 4 token"]) simp_all
  obtain e f g h i j where hs: "u64s_of 6 hash = [e, f, g, h, i, j]" by (rule six_wordsE [of "u64s_of 6 hash"]) simp_all
  have ws: "rebind_writes env token ext =
      field_writes TDCS_FIELD_SERVTD_REBIND_ACCEPT_TOKEN 0 (map u64_le [a, b, c, d]) @
      [(TDCS_FIELD_SERVTD_REBIND_ATTR, u64_of (cur_servtd_attr ext))] @
      field_writes TDCS_FIELD_SERVTD_ACCEPT_SERVTD_EXT_HASH 0 (map u64_le [e, f, g, h, i, j])"
    using assms(4) tok hsh t hs chunks_exact8_words [of "[a, b, c, d]"] chunks_exact8_words [of "[e, f, g, h, i, j]"]
    by (simp add: rebind_writes_def)
  have rd: "field_words (rd (mw_module w')) TDCS_FIELD_SERVTD_REBIND_ACCEPT_TOKEN 0 (Suc (Suc (Suc (Suc 0)))) = Some [a, b, c, d]"
    "rd (mw_module w') TDCS_FIELD_SERVTD_REBIND_ATTR = Some (u64_of (cur_servtd_attr ext))"
    "field_words (rd (mw_module w')) TDCS_FIELD_SERVTD_ACCEPT_SERVTD_EXT_HASH 0 (Suc (Suc (Suc (Suc (Suc (Suc 0)))))) =
       Some [e, f, g, h, i, j]"
    unfolding w'(2) ws by (simp_all add: rebind_fields)
  have four: "(4 :: nat) = Suc (Suc (Suc (Suc 0)))" and six: "(6 :: nat) = Suc (Suc (Suc (Suc (Suc (Suc 0)))))" by simp_all
  have "read_field (rd (mw_module w')) TDCS_FIELD_SERVTD_REBIND_ACCEPT_TOKEN 8 (4 * 8) = Ok token"
    unfolding read_field_8 four using rd(1) tok t by simp
  moreover have "read_field (rd (mw_module w')) TDCS_FIELD_SERVTD_ACCEPT_SERVTD_EXT_HASH 8 (6 * 8) = Ok hash"
    unfolding read_field_8 six using rd(3) hsh hs by simp
  moreover have "read_field (rd (mw_module w')) TDCS_FIELD_SERVTD_REBIND_ATTR 8 8 = Ok (cur_servtd_attr ext)"
    using rd(2) assms(3) by (simp add: read_field_word u64_le_u64_of)
  ultimately show ?thesis using w'(1) by simp
qed

section \<open>Instances\<close>

text \<open>
  The platform of \<open>toy_env\<close>: its TLS library presents one certificate to the callback and goes on only if it is accepted.
  The peer does not answer in time.
\<close>

definition toy_rebind :: "(unit, fifo, unit tls_config, 64 word \<Rightarrow> 64 word) rebind_env" where
  "toy_rebind = \<lparr> re_msk = (toy_env checking_lib Ok)\<lparr> xe_pre_session_expires := Some \<rparr>,
     re_vm_write = \<lambda>f v _ m. Some (m(f := v)), re_rebind_approve = \<lambda>_ _ _. Some, re_random = \<lambda>n. Some (replicate n 7),
     re_peer_certs = \<lambda>_. Some [[1]], re_write_expires = Map.empty, re_read_expires = Map.empty, re_dbg = False, re_apic_id = None \<rparr>"

lemma toy_rebind_simps [simp]:
  "re_msk toy_rebind = (toy_env checking_lib Ok)\<lparr> xe_pre_session_expires := Some \<rparr>"
  "re_peer_certs toy_rebind = (\<lambda>_. Some [[1]])" "re_random toy_rebind = (\<lambda>n. Some (replicate n 7))"
  by (simp_all add: toy_rebind_def)

definition toy_rebind_world :: "(unit, fifo, 64 word \<Rightarrow> 64 word) rebind_world" where
  "toy_rebind_world = \<lparr> bw_msk = toy_msk_world, bw_data = [], bw_logging = logging_new \<rparr>"

lemma toy_rebind_late:
  assumes "has_init_data info = 0"
  shows "\<exists>w'. start_rebinding toy_rebind info toy_rebind_world = Some (Err NetworkError, w')"
proof -
  have "\<exists>t. on_stream (setup_transport (Ok ()) (mig_request_id info)) toy_msk_world = Some (Ok (), toy_msk_world\<lparr> mw_stream := t \<rparr>)"
    by (simp add: on_stream_def setup_transport_def vmcall_raw_connect_def pmap_err_def toy_msk_world_def vmcall_raw_new_def)
  then show ?thesis
    using assms
    by (auto simp: start_rebinding_def init_td_info_if_present_def pbind_def on_msk_def toy_rebind_world_def on_stream_def
        await_timely_def with_timeout_def pmap_err_def)
qed

lemma toy_rebind_authenticates: "library_authenticates (re_msk toy_rebind)"
  using checking_authenticates by (simp add: library_authenticates_def)

theorem rebinding_old_approves_witness:
  "\<exists>w'. start_rebinding toy_rebind toy_info toy_rebind_world = Some (Err NetworkError, w') \<and> mw_module (bw_msk w') = (\<lambda>_. 0)"
proof -
  have i: "is_src toy_info" "has_init_data toy_info = 0" "binding_handle toy_info = 3" "target_td_uuid toy_info = replicate 4 0"
    "mw_module (bw_msk toy_rebind_world) = (\<lambda>_. 0)"
    by (simp_all add: is_src_def toy_info_def toy_rebind_world_def toy_msk_world_def)
  obtain w' where w': "start_rebinding toy_rebind toy_info toy_rebind_world = Some (Err NetworkError, w')"
    using toy_rebind_late [OF i(2)] by blast
  from rebinding_old_approves [OF toy_rebind_authenticates _ i(1) w'] show ?thesis
    unfolding i(3-5) using w' by (auto simp: toy_rebind_def)
qed

lemma checking_refuses_read:
  assumes "\<And>h'. tc_callback cfg [1] (tc_data cfg) toy_world \<noteq> Some (Ok (), h')"
  shows "tls_server_read checking_lib wr rd n (tls_connection_new cfg t) \<noteq> Some (Ok bs, c)"
proof -
  obtain r c' where "process_tls_status checking_lib wr rd (tls_connection_new cfg t) = Some (r, c')" "\<forall>x. r \<noteq> Ok x"
    using checking_handshake [OF assms, where wr = wr and rd = rd and t = t] by (elim exE conjE)
  then show ?thesis
    by (cases r) (simp_all add: tls_server_read_def tls_read_with_def pbind_def when_handshaking_def tls_connection_new_def)
qed

lemma has_read_first: "has_read env c c' \<Longrightarrow> \<exists>n bs c1. session_read env n c = Some (Ok bs, c1)"
  by (induction rule: has_read.induct) blast+

lemma toy_rebind_presents: "library_presents toy_rebind"
  unfolding library_presents_def
proof (intro allI impI, elim conjE)
  fix cfg k t c
  assume "xe_tls_server (re_msk toy_rebind) cfg = Ok k" and read: "has_read toy_rebind (tls_connection_new k t) c"
  then have "k = cfg" by simp
  with has_read_first [OF read] obtain n bs c1 where got: "tls_server_read checking_lib (vmcall_raw_write fifo_vmm)
      (vmcall_raw_read fifo_vmm) n (tls_connection_new cfg t) = Some (Ok bs, c1)"
    by (auto simp: channel_Ok)
  have "\<exists>h'. tc_callback cfg [1] (tc_data cfg) toy_world = Some (Ok (), h')"
  proof (rule ccontr)
    assume "\<not> ?thesis"
    then have "tc_callback cfg [1] (tc_data cfg) toy_world \<noteq> Some (Ok (), h')" for h' by simp
    from checking_refuses_read [OF this] got show False by (rule notE)
  qed
  then show "\<exists>der rest h h'. re_peer_certs toy_rebind (tk_conn c) = Some (der # rest) \<and> tc_callback cfg der (tc_data cfg) h = Some (Ok (), h')"
    by auto
qed

lemma toy_refused_rebinding: "verify_rebinding_old_cert toy_tls der blob h \<noteq> Some (Ok (), h')"
proof -
  have "me_policy (te_mig toy_tls) = None" by (simp add: toy_tls_def toy_mig_def)
  then have "authenticate_rebinding_old (te_mig toy_tls) r l b i e w \<noteq> Some (Ok x, w')" for r l b i e x w w'
    by (simp add: authenticate_rebinding_old_def authenticate_rebinding_common_def verify_policy_and_event_log_def outcome_simps split_paired_Ex)
  then show ?thesis by (simp add: verify_rebinding_old_cert_def outcome_simps split_paired_Ex)
qed


definition toy_servtd_ext :: servtd_ext where
  "toy_servtd_ext = dec_servtd_ext (replicate 272 0)"

theorem rebinding_installed_witness:
  "\<exists>w'. install_rebinding toy_rebind (replicate 32 7) toy_servtd_ext toy_msk_world = Some (Ok (), w') \<and>
     read_field (\<lambda>f. Some (mw_module w' f)) TDCS_FIELD_SERVTD_REBIND_ACCEPT_TOKEN 8 32 = Ok (replicate 32 7) \<and>
     read_field (\<lambda>f. Some (mw_module w' f)) TDCS_FIELD_SERVTD_REBIND_ATTR 8 8 = Ok (replicate 8 0) \<and>
     read_field (\<lambda>f. Some (mw_module w' f)) TDCS_FIELD_SERVTD_ACCEPT_SERVTD_EXT_HASH 8 48 = Ok (replicate 48 0)"
proof -
  have wr: "faithful_write (\<lambda>m f. Some (m f)) (re_vm_write toy_rebind)"
    by (auto simp: faithful_write_def toy_rebind_def)
  have attr: "cur_servtd_attr toy_servtd_ext = replicate 8 0"
    by (simp add: toy_servtd_ext_def dec_servtd_ext_def slice_def)
  have hash: "approved_hash toy_rebind toy_servtd_ext = Ok (replicate 48 0)"
    by (simp add: approved_hash_def toy_servtd_ext_def dec_servtd_ext_def slice_def calculate_approved_servtd_ext_hash_def
        servtd_ext_as_bytes_def digest_sha384_def SHA384_DIGEST_SIZE_def toy_tls_def toy_mig_def toy_crypto_def Let_def)
  from rebinding_installed [OF wr _ _ hash, of "replicate 32 7" toy_msk_world] show ?thesis
    by (simp add: attr)
qed

end
