(* ===== verification/Spec2Isabelle.thy ===== *)
theory Spec2Isabelle
  imports Requests PreSession Virtqueue Rebinding
begin

text \<open>
  MigTD: verification of the Migration TD.

  A Migration TD (MigTD) is a trusted service virtual machine.  For a live migration of a trust domain it meets
  the MigTD of the other platform, checks by remote attestation and a signed policy that the peer may be
  trusted, and then exchanges with it the keys that the two TDX modules encrypt the migrated state with.
  The virtual machine monitor (VMM), which carries all messages and owns all shared memory, is not trusted.

  \<^bold>\<open>Parts and theories.\<close>  The theories follow the flow of a migration.

  \<^item> \<open>MigPrelude\<close>: results (\<open>Ok\<close>, \<open>Err\<close> and \<open>Panic\<close>, so that an overflowing index or a failed
    assertion of the source is a value), programs with a state that may not return (\<open>None\<close>), byte strings, little-endian
    words, and the contract \<open>wire_struct\<close> of a structure that is copied to and from bytes.
  \<^item> \<open>MigTypes\<close>, \<open>Requests\<close>: \<open>migtd/src/migration/mod.rs\<close>, \<open>data.rs\<close> and the first part of \<open>session.rs\<close>: the requests the
    VMM places in shared memory, their structures, how they are accepted, and how a status is reported.
  \<^item> \<open>Transport\<close>, \<open>PreSession\<close>: \<open>pre_session_data.rs\<close>: version hello, exchange of policy and issuer chain,
    start of the session.  The locales \<open>stream_transport\<close> (nothing is lost, invented or reordered) and
    \<open>live_transport\<close> (and every call makes progress) are what the protocols rely on.
  \<^item> \<open>VmcallRaw\<close>: \<open>devices/vmcall_raw\<close>: the byte stream over VMCALLs; it provides \<open>live_transport\<close> over a VMM that delivers.
  \<^item> \<open>Virtqueue\<close>: \<open>devices/virtio/src/virtqueue.rs\<close>: the ring shared with a device, against an arbitrary host.
  \<^item> \<open>EventLog\<close>: \<open>migtd/src/event_log.rs\<close>: measuring events and replaying a log against the registers of a report.
  \<^item> \<open>CertChain\<close>: \<open>crypto/src/lib.rs\<close>, \<open>x509.rs\<close>, \<open>crl.rs\<close>: building certificates and judging chains.
  \<^item> \<open>PolicyV2\<close>: \<open>policy/src/v2\<close>: signed policies and their evaluation.
  \<^item> \<open>Attestation\<close>: \<open>attestation/src\<close>, \<open>migtd/src/quote.rs\<close>: obtaining and verifying quotes.
  \<^item> \<open>ServtdExt\<close>: \<open>migration/servtd_ext.rs\<close>: the binding information kept by the TDX module.
  \<^item> \<open>MigPolicy\<close>: \<open>mig_policy.rs\<close>: the decision on a peer, for both directions of a migration and for rebinding.
  \<^item> \<open>RaTls\<close>: \<open>ratls/server_client.rs\<close>: session certificates and the callback that decides on the peer's.
  \<^item> \<open>TlsChannel\<close>: \<open>crypto/src/rustls_impl/tls.rs\<close>: the loops that drive the TLS library over a transport.
  \<^item> \<open>MskExchange\<close>: the second part of \<open>session.rs\<close>, with \<open>transport.rs\<close> and \<open>with_timeout\<close>: the key exchange itself.
  \<^item> \<open>Logging\<close>: \<open>migration/logging.rs\<close>: the log pages shared with the VMM and the backend of the crate \<open>log\<close>.
  \<^item> \<open>Rebinding\<close>: \<open>migration/rebinding.rs\<close>: handing the binding of a TD to another MigTD, over a TLS session.

  \<^bold>\<open>State and operations.\<close>  A structure of the source is a record with its fields, an enumeration a datatype, an
  \<open>n\<close>-bit integer an \<open>n word\<close>; a function that returns \<open>Result\<close> returns \<open>outcome\<close>, one with effects is a \<open>prog\<close> over the
  record of what it changes.  An asynchronous function is the program it computes when it is awaited; the steps of
  the environment between two polls are part of the parameters (\<open>vmm_poll\<close>, the host writes of \<open>Virtqueue\<close>, the
  \<open>expires\<close> functions of \<open>with_timeout\<close>).  Names are those of the source; a prefix or suffix is added where HOL has the name.

  \<^bold>\<open>What is shown.\<close>  Decisions are characterised exactly: authentication of a peer, verification of a policy, its
  evaluation, of a chain, of an event log, of a session certificate and of a request are each shown to succeed if and only if a
  condition written without the control flow holds.  Protocols are shown safe for every VMM and every peer, and
  shown to terminate and to agree for two parties that follow them.  The virtqueue refines a map of
  outstanding buffers and conserves them whatever the host writes.  Keys reach the TDX module only after authentication, and
  match on the two sides; a binding is given up and accepted only between authenticated MigTDs.  The log refines a list of entries per
  processor as long as the VMM leaves the pages alone, and a release image publishes no debug records.  Several theorems record behaviour that the sources do not intend.

  \<^bold>\<open>Loops and bounds.\<close>  Loops over data are total functions.  Loops that wait for the environment are
  \<open>partial_function (option)\<close>; where a result is claimed for them, that they return is part of the claim.  No fuel is used.

  \<^bold>\<open>Not modelled.\<close>
  The SPDM variant of the session (\<open>migtd/src/spdm\<close>) is mostly calls into the crate \<open>spdmlib\<close>, which is not part of the
  sources.  Device register access (\<open>devices/pci\<close>, \<open>virtio_pci.rs\<close>), interrupt and port I/O (\<open>migtd/src/driver\<close>), the copies of
  standard library modules (\<open>std-support\<close>), the emulation layer (\<open>deps/td-shim-AzCVMEmu\<close>), the command-line tools
  and tests are outside the development.
\<close>

section \<open>The pre-session exchange over the raw VMCALL stream\<close>

text \<open>A connected stream on which the peer's packets are waiting.\<close>

definition stream_with :: "bytes list \<Rightarrow> fifo vmcall_raw" where
  "stream_with packets =
     vmcall_raw_new 1 [1 \<mapsto> False]
       \<lparr> f_accepted = [], f_packets = packets, f_done = False, f_buffer = [] \<rparr>"

lemmas stream_with_defs = stream_with_def vmcall_raw_new_def vr_view_defs vr_size_defs

text \<open>
  C3: Over the raw VMCALL stream and a VMM that delivers packets, the pre-session exchange accepts
  exactly the well-formed peers.  It returns a peer blob if and only if there is local data to send
  and the peer's bytes are a hello with the right magic word and a version range that covers ours,
  a blob that is the encoding of a nonempty policy and a nonempty issuer chain, and a start-session
  message; then it has consumed exactly those bytes, and sent exactly its own script.
\<close>

theorem pre_session_exchange_exact:
  assumes "vr_connected t"
  shows "(\<exists>t'. pre_session_data_exchange (vmcall_raw_write fifo_vmm) (vmcall_raw_read fifo_vmm)
            policy issuer_chain t = Some (Ok blob, t')
            \<and> vr_incoming t' = rest \<and> vr_outgoing t' = sent)
    \<longleftrightarrow> (\<exists>local_blob res hello.
            local_peer_data policy issuer_chain = Some local_blob
            \<and> reserved_ok res \<and> acceptable_hello hello \<and> acceptable_blob blob
            \<and> vr_incoming t = exchange_script res hello blob @ rest
            \<and> sent = vr_outgoing t @ local_script local_blob)"
    (is "?returns \<longleftrightarrow> ?wellformed")
proof
  assume ?returns
  then show ?wellformed
    using stream_transport.pre_session_exchange_sound
      [OF vmcall_fifo.stream_transport_axioms _ assms] by blast
next
  assume ?wellformed
  then show ?returns
    using live_transport.pre_session_exchange_complete
      [OF vmcall_fifo.live_transport_axioms assms] by blast
qed

theorem pre_session_exchange_exact_witness:
  "\<exists>t'. pre_session_data_exchange (vmcall_raw_write fifo_vmm) (vmcall_raw_read fifo_vmm)
     (Some [1]) (Some [2]) (stream_with [local_script (u32_le 1 @ [3] @ u32_le 1 @ [4])])
       = Some (Ok (u32_le 1 @ [3] @ u32_le 1 @ [4]), t')
     \<and> vr_incoming t' = [] \<and> vr_outgoing t' = local_script (u32_le 1 @ [1] @ u32_le 1 @ [2])"
proof -
  let ?blob = "u32_le 1 @ [3] @ u32_le 1 @ [4]"
  let ?t = "stream_with [local_script ?blob]"
  have ok: "reserved_ok (replicate 3 0, replicate 3 0, replicate 3 0)" by (simp add: reserved_ok_def)
  have len: "length (local_script ?blob) = 42"
    by (simp add: local_script_length)
  then have conn: "vr_connected ?t" by (auto simp: stream_with_defs)
  have "local_peer_data (Some [1]) (Some [2]) = Some (u32_le 1 @ [1] @ u32_le 1 @ [2])"
    by (simp add: local_peer_data_def encode_peer_data_def)
  moreover have "acceptable_blob ?blob"
    by (rule acceptable_blob_local [of "Some [3]" "Some [4]"])
       (simp_all add: local_peer_data_def encode_peer_data_def)
  moreover have "vr_incoming ?t = local_script ?blob @ []" "vr_outgoing ?t = []"
    by (simp_all add: stream_with_defs)
  ultimately show ?thesis
    using ok acceptable_hello_new
    by (subst pre_session_exchange_exact [OF conn]) (force simp: local_script_def)
qed



end
